theory Spec2Isabelle
  imports Complex_Main "HOL-Library.Word" "HOL-Library.Log_Nat" "HOL-Library.Monad_Syntax"
begin

unbundle bit_operations_syntax

section \<open>Key material\<close>

text \<open>
  Modelled from the spec: the declaration of \<^verbatim>\<open>bcrypto_rsa_key_t\<close> (\<^verbatim>\<open>rsa.h\<close>) is not
  among the source files. Its eight components are the ones the functions below read and
  write, in the order of section 3 of the specification: \<open>n\<close>, \<open>e\<close>, \<open>d\<close>, \<open>p\<close>, \<open>q\<close>,
  \<open>dp\<close>, \<open>dq\<close>, \<open>qInv\<close>.

  A component of \<^verbatim>\<open>bcrypto_rsa_key_t\<close> is a pointer with its length (\<^verbatim>\<open>nd\<close>/\<^verbatim>\<open>nl\<close>,
  \<^verbatim>\<open>ed\<close>/\<^verbatim>\<open>el\<close>, ...), holding a big-endian number. A component is modelled as an
  optional byte list: \<open>None\<close> is the NULL pointer with length 0, the state in which
  \<^verbatim>\<open>bcrypto_rsa_key_init\<close> leaves every component, and \<open>Some bs\<close> is a buffer of
  \<open>length bs\<close> bytes. Buffer lengths are far below \<open>2 ^ 61\<close>, so the \<^verbatim>\<open>size_t\<close>
  bit counts cannot wrap and are natural numbers.
\<close>

type_synonym uint8_t = "8 word"
type_synonym buf = "uint8_t list option"

record bcrypto_rsa_key_t =
  nd :: buf
  ed :: buf
  dd :: buf
  pd :: buf
  qd :: buf
  dpd :: buf
  dqd :: buf
  qid :: buf

definition bcrypto_rsa_key_init :: bcrypto_rsa_key_t where
  "bcrypto_rsa_key_init =
     \<lparr>nd = None, ed = None, dd = None, pd = None, qd = None,
      dpd = None, dqd = None, qid = None\<rparr>"

subsection \<open>Counting bits\<close>

text \<open>The \<^verbatim>\<open>for\<close> loop of \<^verbatim>\<open>bcrypto_count_bits\<close>: what is left of the buffer at index \<^verbatim>\<open>i\<close>.\<close>

fun skip_zero_bytes :: "uint8_t list \<Rightarrow> uint8_t list" where
  "skip_zero_bytes [] = []"
| "skip_zero_bytes (b # bs) = (if b \<noteq> 0 then b # bs else skip_zero_bytes bs)"

text \<open>The \<^verbatim>\<open>while (oct)\<close> loop: one more bit for every shift that leaves \<^verbatim>\<open>oct\<close> nonzero.\<close>

function count_oct :: "32 word \<Rightarrow> nat \<Rightarrow> nat" where
  "count_oct oct bits = (if oct \<noteq> 0 then count_oct (drop_bit 1 oct) (bits + 1) else bits)"
  by pat_completeness auto
termination
proof (relation "measure (\<lambda>(oct, bits). unat oct)")
  show "wf (measure (\<lambda>(oct :: 32 word, bits :: nat). unat oct))"
    by simp
next
  fix oct :: "32 word" and bits :: nat
  assume "oct \<noteq> 0"
  then have "0 < unat oct"
    by (simp add: unat_gt_0)
  then have "unat oct div 2 < unat oct"
    by simp
  then show "((drop_bit 1 oct, bits + 1), (oct, bits)) \<in> measure (\<lambda>(oct, bits). unat oct)"
    by (simp add: unat_drop_bit_eq drop_bit_eq_div unat_div)
qed

declare count_oct.simps [simp del]

definition bcrypto_count_bits :: "buf \<Rightarrow> nat" where
  "bcrypto_count_bits inp =
     (case inp of
        None \<Rightarrow> 0
      | Some bs \<Rightarrow>
          (case skip_zero_bytes bs of
             [] \<Rightarrow> 0
           | oct # rest \<Rightarrow> count_oct (ucast oct) (length (oct # rest) * 8 - 8)))"

subsection \<open>Sanity predicates\<close>

text \<open>
  \<^verbatim>\<open>key->ed[key->el - 1]\<close>, the last byte of the exponent buffer. It is read only after
  the bit count of the exponent was found nonzero, where the buffer is not empty
  (lemma \<open>count_bits_nonzero_buffer\<close> below).
\<close>

definition last_byte :: "buf \<Rightarrow> uint8_t" where
  "last_byte b = last (the b)"

definition bcrypto_rsa_sane_pubkey :: "bcrypto_rsa_key_t option \<Rightarrow> bool" where
  "bcrypto_rsa_sane_pubkey key =
     (case key of
        None \<Rightarrow> False
      | Some k \<Rightarrow>
          (let nb = bcrypto_count_bits (nd k) in
           if nb < 512 \<or> nb > 16384 then False
           else
             (let eb = bcrypto_count_bits (ed k) in
              if eb < 2 \<or> eb > 33 then False
              else if last_byte (ed k) AND 1 = 0 then False
              else True)))"

definition bcrypto_rsa_sane_privkey :: "bcrypto_rsa_key_t option \<Rightarrow> bool" where
  "bcrypto_rsa_sane_privkey key =
     (if \<not> bcrypto_rsa_sane_pubkey key then False
      else
        (let k = the key;
             nb = bcrypto_count_bits (nd k);
             db = bcrypto_count_bits (dd k) in
         if db = 0 \<or> db > nb then False
         else
           (let pb = bcrypto_count_bits (pd k);
                qb = bcrypto_count_bits (qd k) in
            if pb + qb \<noteq> nb then False
            else
              (let dpb = bcrypto_count_bits (dpd k) in
               if dpb = 0 \<or> dpb > pb then False
               else
                 (let dqb = bcrypto_count_bits (dqd k) in
                  if dqb = 0 \<or> dqb > qb then False
                  else
                    (let qib = bcrypto_count_bits (qid k) in
                     if qib = 0 \<or> qib > pb then False
                     else True))))))"

definition bcrypto_rsa_sane_compute :: "bcrypto_rsa_key_t option \<Rightarrow> bool" where
  "bcrypto_rsa_sane_compute key =
     (case key of
        None \<Rightarrow> False
      | Some k \<Rightarrow>
          (let nb = bcrypto_count_bits (nd k);
               eb = bcrypto_count_bits (ed k);
               db = bcrypto_count_bits (dd k);
               pb = bcrypto_count_bits (pd k);
               qb = bcrypto_count_bits (qd k);
               dpb = bcrypto_count_bits (dpd k);
               dqb = bcrypto_count_bits (dqd k);
               qib = bcrypto_count_bits (qid k) in
           if pb = 0 \<or> qb = 0 then False
           else if eb = 0 \<and> db = 0 then False
           else if nb \<noteq> 0 \<and> (nb < 512 \<or> nb > 16384) then False
           else if nb \<noteq> 0 \<and> pb + qb \<noteq> nb then False
           else if eb \<noteq> 0 \<and> (eb < 2 \<or> eb > 33) then False
           else if eb \<noteq> 0 \<and> last_byte (ed k) AND 1 = 0 then False
           else if db \<noteq> 0 \<and> db > pb + qb then False
           else if dpb \<noteq> 0 \<and> dpb > pb then False
           else if dqb \<noteq> 0 \<and> dqb > qb then False
           else if qib \<noteq> 0 \<and> qib > pb then False
           else True))"

definition bcrypto_rsa_needs_compute :: "bcrypto_rsa_key_t option \<Rightarrow> bool" where
  "bcrypto_rsa_needs_compute key =
     (case key of
        None \<Rightarrow> False
      | Some k \<Rightarrow>
          bcrypto_count_bits (nd k) = 0
          \<or> bcrypto_count_bits (ed k) = 0
          \<or> bcrypto_count_bits (dd k) = 0
          \<or> bcrypto_count_bits (dpd k) = 0
          \<or> bcrypto_count_bits (dqd k) = 0
          \<or> bcrypto_count_bits (qid k) = 0)"

section \<open>The big-number substrate\<close>

text \<open>
  OpenSSL's \<^verbatim>\<open>BIGNUM\<close> is an integer of any size; the operations the engine calls are
  modelled by their documented results. Allocation (\<^verbatim>\<open>BN_new\<close>, \<^verbatim>\<open>RSA_new\<close>,
  \<^verbatim>\<open>BN_CTX_new\<close>, \<^verbatim>\<open>malloc\<close>) is taken to succeed, and the \<^verbatim>\<open>assert\<close> expressions are
  evaluated (a build without \<^verbatim>\<open>NDEBUG\<close>). A \<^verbatim>\<open>BIGNUM *\<close> that may be NULL is an
  \<open>int option\<close>.
\<close>

type_synonym BIGNUM = int

text \<open>The number a big-endian byte string denotes.\<close>

definition be_value :: "uint8_t list \<Rightarrow> int" where
  "be_value bs = foldl (\<lambda>acc b. acc * 256 + uint b) 0 bs"

text \<open>The big-endian bytes of a number, without leading zero bytes; zero has none.\<close>

function be_bytes :: "nat \<Rightarrow> uint8_t list" where
  "be_bytes n = (if n = 0 then [] else be_bytes (n div 256) @ [of_nat (n mod 256)])"
  by pat_completeness auto
termination
  by (relation "measure (\<lambda>n. n)") auto

declare be_bytes.simps [simp del]

definition BN_bin2bn :: "buf \<Rightarrow> BIGNUM" where
  "BN_bin2bn b = (case b of None \<Rightarrow> 0 | Some bs \<Rightarrow> be_value bs)"

definition BN_bn2bin :: "BIGNUM \<Rightarrow> uint8_t list" where
  "BN_bn2bin a = be_bytes (nat \<bar>a\<bar>)"

definition BN_num_bits :: "BIGNUM \<Rightarrow> nat" where
  "BN_num_bits a = floorlog 2 (nat \<bar>a\<bar>)"

definition BN_num_bytes :: "BIGNUM \<Rightarrow> nat" where
  "BN_num_bytes a = (BN_num_bits a + 7) div 8"

text \<open>\<^verbatim>\<open>BN_mod\<close>: the remainder of the truncating division; it fails on a zero divisor.\<close>

definition BN_mod :: "BIGNUM \<Rightarrow> BIGNUM \<Rightarrow> BIGNUM option" where
  "BN_mod a m = (if m = 0 then None else Some (sgn a * (\<bar>a\<bar> mod \<bar>m\<bar>)))"

text \<open>
  \<^verbatim>\<open>BN_mod_inverse\<close>: the \<open>r\<close> of \<open>[0, n)\<close> with \<open>(a * r) mod n = 1\<close>; it fails (NULL)
  when there is none.
\<close>

definition BN_mod_inverse :: "BIGNUM \<Rightarrow> BIGNUM \<Rightarrow> BIGNUM option" where
  "BN_mod_inverse a n = List.find (\<lambda>r. (a * r) mod n = 1) (map int [0..<nat n])"

subsection \<open>The engine-native key\<close>

record RSA =
  rsa_version :: int
  rsa_n :: "BIGNUM option"
  rsa_e :: "BIGNUM option"
  rsa_d :: "BIGNUM option"
  rsa_p :: "BIGNUM option"
  rsa_q :: "BIGNUM option"
  rsa_dmp1 :: "BIGNUM option"
  rsa_dmq1 :: "BIGNUM option"
  rsa_iqmp :: "BIGNUM option"

definition RSA_new :: RSA where
  "RSA_new =
     \<lparr>rsa_version = 0, rsa_n = None, rsa_e = None, rsa_d = None, rsa_p = None,
      rsa_q = None, rsa_dmp1 = None, rsa_dmq1 = None, rsa_iqmp = None\<rparr>"

text \<open>A setter keeps the old component where the argument is NULL.\<close>

definition set0 :: "BIGNUM option \<Rightarrow> BIGNUM option \<Rightarrow> BIGNUM option" where
  "set0 old new = (if new \<noteq> None then new else old)"

definition RSA_set0_key ::
  "RSA \<Rightarrow> BIGNUM option \<Rightarrow> BIGNUM option \<Rightarrow> BIGNUM option \<Rightarrow> RSA option" where
  "RSA_set0_key r n e d =
     (if (rsa_n r = None \<and> n = None) \<or> (rsa_e r = None \<and> e = None) then None
      else Some (r\<lparr>rsa_n := set0 (rsa_n r) n, rsa_e := set0 (rsa_e r) e,
                   rsa_d := set0 (rsa_d r) d\<rparr>))"

definition RSA_set0_factors :: "RSA \<Rightarrow> BIGNUM option \<Rightarrow> BIGNUM option \<Rightarrow> RSA option" where
  "RSA_set0_factors r p q =
     (if (rsa_p r = None \<and> p = None) \<or> (rsa_q r = None \<and> q = None) then None
      else Some (r\<lparr>rsa_p := set0 (rsa_p r) p, rsa_q := set0 (rsa_q r) q\<rparr>))"

definition RSA_set0_crt_params ::
  "RSA \<Rightarrow> BIGNUM option \<Rightarrow> BIGNUM option \<Rightarrow> BIGNUM option \<Rightarrow> RSA option" where
  "RSA_set0_crt_params r dmp1 dmq1 iqmp =
     (if (rsa_dmp1 r = None \<and> dmp1 = None) \<or> (rsa_dmq1 r = None \<and> dmq1 = None)
         \<or> (rsa_iqmp r = None \<and> iqmp = None) then None
      else Some (r\<lparr>rsa_dmp1 := set0 (rsa_dmp1 r) dmp1, rsa_dmq1 := set0 (rsa_dmq1 r) dmq1,
                   rsa_iqmp := set0 (rsa_iqmp r) iqmp\<rparr>))"

definition bcrypto_rsa_key2priv :: "bcrypto_rsa_key_t option \<Rightarrow> RSA option" where
  "bcrypto_rsa_key2priv priv =
     (case priv of
        None \<Rightarrow> None
      | Some k \<Rightarrow> do {
          r \<leftarrow> RSA_set0_key RSA_new (Some (BN_bin2bn (nd k))) (Some (BN_bin2bn (ed k)))
                 (Some (BN_bin2bn (dd k)));
          r \<leftarrow> RSA_set0_factors r (Some (BN_bin2bn (pd k))) (Some (BN_bin2bn (qd k)));
          RSA_set0_crt_params r (Some (BN_bin2bn (dpd k))) (Some (BN_bin2bn (dqd k)))
            (Some (BN_bin2bn (qid k)))
        })"

definition bcrypto_rsa_key2pub :: "bcrypto_rsa_key_t option \<Rightarrow> RSA option" where
  "bcrypto_rsa_key2pub pub =
     (case pub of
        None \<Rightarrow> None
      | Some k \<Rightarrow>
          RSA_set0_key RSA_new (Some (BN_bin2bn (nd k))) (Some (BN_bin2bn (ed k))) None)"

text \<open>
  \<^verbatim>\<open>bcrypto_rsa_priv2key\<close> lays the eight numbers out in one arena: every component of
  the result is a buffer of \<^verbatim>\<open>BN_num_bytes\<close> bytes filled by \<^verbatim>\<open>BN_bn2bin\<close>.
\<close>

definition bcrypto_rsa_priv2key :: "RSA option \<Rightarrow> bcrypto_rsa_key_t option" where
  "bcrypto_rsa_priv2key priv_r =
     (case priv_r of
        None \<Rightarrow> None
      | Some r \<Rightarrow> do {
          n \<leftarrow> rsa_n r; e \<leftarrow> rsa_e r; d \<leftarrow> rsa_d r; p \<leftarrow> rsa_p r; q \<leftarrow> rsa_q r;
          dp \<leftarrow> rsa_dmp1 r; dq \<leftarrow> rsa_dmq1 r; qi \<leftarrow> rsa_iqmp r;
          Some (bcrypto_rsa_key_init
            \<lparr>nd := Some (BN_bn2bin n), ed := Some (BN_bn2bin e), dd := Some (BN_bn2bin d),
             pd := Some (BN_bn2bin p), qd := Some (BN_bn2bin q),
             dpd := Some (BN_bn2bin dp), dqd := Some (BN_bn2bin dq),
             qid := Some (BN_bn2bin qi)\<rparr>)
        })"

definition bcrypto_rsa_pub2key :: "RSA option \<Rightarrow> bcrypto_rsa_key_t option" where
  "bcrypto_rsa_pub2key pub_r =
     (case pub_r of
        None \<Rightarrow> None
      | Some r \<Rightarrow> do {
          n \<leftarrow> rsa_n r; e \<leftarrow> rsa_e r;
          Some (bcrypto_rsa_key_init \<lparr>nd := Some (BN_bn2bin n), ed := Some (BN_bn2bin e)\<rparr>)
        })"

section \<open>Key completion\<close>

text \<open>
  The part of \<^verbatim>\<open>bcrypto_rsa_privkey_compute\<close> after the two guards; \<open>None\<close> is
  \<^verbatim>\<open>goto fail\<close>. The copies \<^verbatim>\<open>rsa_n\<close>, ..., \<^verbatim>\<open>rsa_iqmp\<close> start as the caller's numbers
  and are overwritten where the code computes them.
\<close>

definition compute_fields :: "bcrypto_rsa_key_t option \<Rightarrow> bcrypto_rsa_key_t option" where
  "compute_fields priv = do {
     priv_r \<leftarrow> bcrypto_rsa_key2priv priv;
     n \<leftarrow> rsa_n priv_r; e \<leftarrow> rsa_e priv_r; d \<leftarrow> rsa_d priv_r;
     p \<leftarrow> rsa_p priv_r; q \<leftarrow> rsa_q priv_r;
     dp \<leftarrow> rsa_dmp1 priv_r; dq \<leftarrow> rsa_dmq1 priv_r; qi \<leftarrow> rsa_iqmp priv_r;
     let n' = (if n = 0 then p * q else n);
     let r1 = p - 1;
     let r2 = q - 1;
     let r0 = r1 * r2;
     e' \<leftarrow> (if e = 0 then BN_mod_inverse d r0 else Some e);
     d' \<leftarrow> (if d = 0 then BN_mod_inverse e' r0 else Some d);
     (dp', dq') \<leftarrow>
       (if dp = 0 \<or> dq = 0
        then do { x \<leftarrow> BN_mod d' r1; y \<leftarrow> BN_mod d' r2; Some (x, y) }
        else Some (dp, dq));
     qi' \<leftarrow> (if qi = 0 then BN_mod_inverse q p else Some qi);
     out_r \<leftarrow> RSA_set0_key RSA_new (Some n') (Some e') (Some d');
     out_r \<leftarrow> RSA_set0_factors out_r (Some p) (Some q);
     out_r \<leftarrow> RSA_set0_crt_params out_r (Some dp') (Some dq') (Some qi');
     bcrypto_rsa_priv2key (Some out_r)
   }"

text \<open>
  The function returns a \<^verbatim>\<open>bool\<close> and writes \<^verbatim>\<open>*key\<close>: the model takes the old content
  of \<^verbatim>\<open>*key\<close> and returns the pair of the return value and the new content. On failure
  \<^verbatim>\<open>*key\<close> is not written.
\<close>

definition bcrypto_rsa_privkey_compute ::
  "bcrypto_rsa_key_t option \<Rightarrow> bcrypto_rsa_key_t option \<Rightarrow> bool \<times> bcrypto_rsa_key_t option" where
  "bcrypto_rsa_privkey_compute priv key =
     (if \<not> bcrypto_rsa_sane_compute priv then (False, key)
      else if \<not> bcrypto_rsa_needs_compute priv then (True, None)
      else
        (case compute_fields priv of
           None \<Rightarrow> (False, key)
         | Some out \<Rightarrow> (True, Some out)))"

text \<open>
  The contract \<open>complete(key) -> (has_update, key_or_none)\<close> reports a failed call as an
  error and a successful one as a pair. The return value \<^verbatim>\<open>true\<close> is the success, the
  content of \<^verbatim>\<open>*key\<close> is \<open>key_or_none\<close>, and \<open>has_update\<close> says whether the call produced
  a key.
\<close>

definition has_update :: "bool \<times> bcrypto_rsa_key_t option \<Rightarrow> bool" where
  "has_update r = (snd r \<noteq> None)"

section \<open>Serialization\<close>

text \<open>
  \<^verbatim>\<open>i2d_RSAPrivateKey\<close>, \<^verbatim>\<open>d2i_RSAPrivateKey\<close> and their public-key siblings are
  OpenSSL's. They are modelled for the definite-length encodings of the two grammars
  (RFC 8017, A.1): a SEQUENCE of INTEGERs, version first for a private key. The encoder
  writes DER. The decoder follows the \<^verbatim>\<open>d2i\<close> convention: it reads one SEQUENCE from
  the front of the input and advances the caller's pointer behind it, so it returns the
  decoded key together with the bytes it did not read. An INTEGER of a key is a
  \<^verbatim>\<open>BIGNUM\<close>, whose content octets OpenSSL hands to \<^verbatim>\<open>BN_bin2bn\<close> as a magnitude.

  The model decoder reads DER as the encoder writes it: single-byte tags, definite
  lengths, and a version that is an INTEGER like the others. OpenSSL's decoder reads
  more of BER (an indefinite length closed by end-of-contents octets, for one), and
  what it does with a version other than 0 and with the \<open>otherPrimeInfos\<close> field of a
  multi-prime key depends on the release (the code builds against 1.1.0h and later).
  On such inputs the model decoder and OpenSSL's can differ. What import does with
  the decoder's answer is therefore also stated for an arbitrary decoder
  (\<^verbatim>\<open>bcrypto_rsa_privkey_import_with\<close> below), and the theorems that evaluate the
  model decoder name the DER encodings they are about.
\<close>

definition asn1_put_length :: "nat \<Rightarrow> uint8_t list" where
  "asn1_put_length len =
     (if len \<le> 127 then [of_nat len]
      else of_nat (128 + length (be_bytes len)) # be_bytes len)"

definition asn1_put_object :: "uint8_t \<Rightarrow> uint8_t list \<Rightarrow> uint8_t list" where
  "asn1_put_object tag content = tag # asn1_put_length (length content) @ content"

text \<open>The content octets of a number: a zero octet in front when the top bit would be set.\<close>

definition bn_i2c :: "BIGNUM \<Rightarrow> uint8_t list" where
  "bn_i2c a = (if BN_num_bits a mod 8 \<noteq> 0 then [] else [0]) @ BN_bn2bin a"

definition i2d_INTEGER :: "BIGNUM \<Rightarrow> uint8_t list" where
  "i2d_INTEGER a = asn1_put_object 0x02 (bn_i2c a)"

text \<open>
  The DER encoding of a SEQUENCE of INTEGERs with the given content octets: the inputs
  of the decoders, written with the encoder's own functions.
\<close>

abbreviation der_SEQUENCE :: "uint8_t list list \<Rightarrow> uint8_t list" where
  "der_SEQUENCE cs \<equiv> asn1_put_object 0x30 (concat (map (asn1_put_object 0x02) cs))"

definition i2d_RSAPrivateKey :: "RSA \<Rightarrow> uint8_t list option" where
  "i2d_RSAPrivateKey r = do {
     n \<leftarrow> rsa_n r; e \<leftarrow> rsa_e r; d \<leftarrow> rsa_d r; p \<leftarrow> rsa_p r; q \<leftarrow> rsa_q r;
     dp \<leftarrow> rsa_dmp1 r; dq \<leftarrow> rsa_dmq1 r; qi \<leftarrow> rsa_iqmp r;
     Some (asn1_put_object 0x30
       (concat (map i2d_INTEGER [rsa_version r, n, e, d, p, q, dp, dq, qi])))
   }"

definition i2d_RSAPublicKey :: "RSA \<Rightarrow> uint8_t list option" where
  "i2d_RSAPublicKey r = do {
     n \<leftarrow> rsa_n r; e \<leftarrow> rsa_e r;
     Some (asn1_put_object 0x30 (concat (map i2d_INTEGER [n, e])))
   }"

definition asn1_get_length :: "uint8_t list \<Rightarrow> (nat \<times> uint8_t list) option" where
  "asn1_get_length bs =
     (case bs of
        [] \<Rightarrow> None
      | b # rest \<Rightarrow>
          if b < 0x80 then Some (unat b, rest)
          else
            (let k = unat b - 128 in
             if k = 0 \<or> length rest < k then None
             else Some (nat (be_value (take k rest)), drop k rest)))"

text \<open>One element with the expected tag: its content and what follows it.\<close>

definition asn1_get_object ::
  "uint8_t \<Rightarrow> uint8_t list \<Rightarrow> (uint8_t list \<times> uint8_t list) option" where
  "asn1_get_object tag bs =
     (case bs of
        [] \<Rightarrow> None
      | t # rest \<Rightarrow>
          if t \<noteq> tag then None
          else do {
            (len, rest') \<leftarrow> asn1_get_length rest;
            if length rest' < len then None
            else Some (take len rest', drop len rest')
          })"

fun d2i_INTEGERs :: "nat \<Rightarrow> uint8_t list \<Rightarrow> (BIGNUM list \<times> uint8_t list) option" where
  "d2i_INTEGERs 0 bs = Some ([], bs)"
| "d2i_INTEGERs (Suc k) bs = do {
     (content, rest) \<leftarrow> asn1_get_object 0x02 bs;
     (xs, rest') \<leftarrow> d2i_INTEGERs k rest;
     Some (be_value content # xs, rest')
   }"

definition d2i_RSAPrivateKey :: "uint8_t list \<Rightarrow> (RSA \<times> uint8_t list) option" where
  "d2i_RSAPrivateKey raw = do {
     (content, rest) \<leftarrow> asn1_get_object 0x30 raw;
     (xs, left) \<leftarrow> d2i_INTEGERs 9 content;
     if left \<noteq> [] then None
     else
       (case xs of
          [v, n, e, d, p, q, dp, dq, qi] \<Rightarrow>
            Some (\<lparr>rsa_version = v, rsa_n = Some n, rsa_e = Some e, rsa_d = Some d,
                   rsa_p = Some p, rsa_q = Some q, rsa_dmp1 = Some dp, rsa_dmq1 = Some dq,
                   rsa_iqmp = Some qi\<rparr>, rest)
        | _ \<Rightarrow> None)
   }"

definition d2i_RSAPublicKey :: "uint8_t list \<Rightarrow> (RSA \<times> uint8_t list) option" where
  "d2i_RSAPublicKey raw = do {
     (content, rest) \<leftarrow> asn1_get_object 0x30 raw;
     (xs, left) \<leftarrow> d2i_INTEGERs 2 content;
     if left \<noteq> [] then None
     else
       (case xs of
          [n, e] \<Rightarrow> Some (RSA_new\<lparr>rsa_n := Some n, rsa_e := Some e\<rparr>, rest)
        | _ \<Rightarrow> None)
   }"

subsection \<open>Export and import\<close>

text \<open>
  Export returns \<^verbatim>\<open>false\<close> (\<open>None\<close>) or the encoding. Import returns NULL (\<open>None\<close>) or
  the key; the pointer \<^verbatim>\<open>p\<close> that the decoder advanced is not looked at again.
\<close>

definition bcrypto_rsa_privkey_export :: "bcrypto_rsa_key_t option \<Rightarrow> uint8_t list option" where
  "bcrypto_rsa_privkey_export priv =
     (if \<not> bcrypto_rsa_sane_privkey priv then None
      else
        (case bcrypto_rsa_key2priv priv of
           None \<Rightarrow> None
         | Some priv_r \<Rightarrow>
             (case i2d_RSAPrivateKey priv_r of
                None \<Rightarrow> None
              | Some buf \<Rightarrow> if length buf \<le> 0 then None else Some buf)))"

definition bcrypto_rsa_privkey_import :: "uint8_t list \<Rightarrow> bcrypto_rsa_key_t option" where
  "bcrypto_rsa_privkey_import raw =
     (case d2i_RSAPrivateKey raw of
        None \<Rightarrow> None
      | Some (priv_r, p) \<Rightarrow> bcrypto_rsa_priv2key (Some priv_r))"

definition bcrypto_rsa_pubkey_export :: "bcrypto_rsa_key_t option \<Rightarrow> uint8_t list option" where
  "bcrypto_rsa_pubkey_export pub =
     (if \<not> bcrypto_rsa_sane_pubkey pub then None
      else
        (case bcrypto_rsa_key2pub pub of
           None \<Rightarrow> None
         | Some pub_r \<Rightarrow>
             (case i2d_RSAPublicKey pub_r of
                None \<Rightarrow> None
              | Some buf \<Rightarrow> if length buf \<le> 0 then None else Some buf)))"

definition bcrypto_rsa_pubkey_import :: "uint8_t list \<Rightarrow> bcrypto_rsa_key_t option" where
  "bcrypto_rsa_pubkey_import raw =
     (case d2i_RSAPublicKey raw of
        None \<Rightarrow> None
      | Some (pub_r, p) \<Rightarrow> bcrypto_rsa_pub2key (Some pub_r))"

text \<open>
  The same two functions with the decoder they call as a parameter \<open>d2i\<close>: a function
  that returns NULL (\<open>None\<close>) or the decoded key and the bytes behind the advanced
  pointer. This is all that the code of import relies on.
\<close>

definition bcrypto_rsa_privkey_import_with ::
  "(uint8_t list \<Rightarrow> (RSA \<times> uint8_t list) option) \<Rightarrow> uint8_t list \<Rightarrow>
     bcrypto_rsa_key_t option" where
  "bcrypto_rsa_privkey_import_with d2i raw =
     (case d2i raw of
        None \<Rightarrow> None
      | Some (priv_r, p) \<Rightarrow> bcrypto_rsa_priv2key (Some priv_r))"

definition bcrypto_rsa_pubkey_import_with ::
  "(uint8_t list \<Rightarrow> (RSA \<times> uint8_t list) option) \<Rightarrow> uint8_t list \<Rightarrow>
     bcrypto_rsa_key_t option" where
  "bcrypto_rsa_pubkey_import_with d2i raw =
     (case d2i raw of
        None \<Rightarrow> None
      | Some (pub_r, p) \<Rightarrow> bcrypto_rsa_pub2key (Some pub_r))"

text \<open>A number of at most 16384 bits, the largest modulus: its bytes are at most 2048.\<close>

definition fits :: "BIGNUM \<Rightarrow> bool" where
  "fits a \<longleftrightarrow> 0 \<le> a \<and> length (BN_bn2bin a) \<le> 2048"

section \<open>Signing and verification\<close>

text \<open>The digest identifiers of \<^verbatim>\<open>openssl/objects.h\<close>.\<close>

definition NID_md5 :: int where "NID_md5 = 4"
definition NID_sha1 :: int where "NID_sha1 = 64"
definition NID_ripemd160 :: int where "NID_ripemd160 = 117"
definition NID_sha256 :: int where "NID_sha256 = 672"
definition NID_sha384 :: int where "NID_sha384 = 673"
definition NID_sha512 :: int where "NID_sha512 = 674"
definition NID_sha224 :: int where "NID_sha224 = 675"

definition bcrypto_rsa_type :: "string option \<Rightarrow> int" where
  "bcrypto_rsa_type alg =
     (case alg of
        None \<Rightarrow> - 1
      | Some a \<Rightarrow>
          if a = ''md5'' then NID_md5
          else if a = ''ripemd160'' then NID_ripemd160
          else if a = ''sha1'' then NID_sha1
          else if a = ''sha224'' then NID_sha224
          else if a = ''sha256'' then NID_sha256
          else if a = ''sha384'' then NID_sha384
          else if a = ''sha512'' then NID_sha512
          else - 1)"

text \<open>The length that travels with a message or signature pointer.\<close>

definition buf_len :: "buf \<Rightarrow> nat" where
  "buf_len b = (case b of None \<Rightarrow> 0 | Some bs \<Rightarrow> length bs)"

text \<open>
  \<^verbatim>\<open>RSA_verify\<close>, \<^verbatim>\<open>RSA_sign\<close> and \<^verbatim>\<open>RSA_blinding_on\<close> are OpenSSL's primitives: the
  facade takes them as parameters. \<^verbatim>\<open>RSA_sign\<close> returns the signature or fails.
\<close>

definition bcrypto_rsa_verify ::
  "(int \<Rightarrow> uint8_t list \<Rightarrow> uint8_t list \<Rightarrow> RSA \<Rightarrow> bool) \<Rightarrow>
     string option \<Rightarrow> buf \<Rightarrow> buf \<Rightarrow> bcrypto_rsa_key_t option \<Rightarrow> bool" where
  "bcrypto_rsa_verify RSA_verify alg msg sig pub =
     (let type = bcrypto_rsa_type alg in
      if type = - 1 then False
      else if msg = None \<or> buf_len msg < 1 \<or> buf_len msg > 64 then False
      else if sig = None \<or> buf_len sig < 1 \<or> buf_len sig > 3072 then False
      else if \<not> bcrypto_rsa_sane_pubkey pub then False
      else
        (case bcrypto_rsa_key2pub pub of
           None \<Rightarrow> False
         | Some pub_r \<Rightarrow>
             if \<not> RSA_verify type (the msg) (the sig) pub_r then False else True))"

definition bcrypto_rsa_sign ::
  "(RSA \<Rightarrow> bool) \<Rightarrow> (int \<Rightarrow> uint8_t list \<Rightarrow> RSA \<Rightarrow> uint8_t list option) \<Rightarrow>
     string option \<Rightarrow> buf \<Rightarrow> bcrypto_rsa_key_t option \<Rightarrow> uint8_t list option" where
  "bcrypto_rsa_sign RSA_blinding_on RSA_sign alg msg priv =
     (let type = bcrypto_rsa_type alg in
      if type = - 1 then None
      else if msg = None \<or> buf_len msg < 1 \<or> buf_len msg > 64 then None
      else if \<not> bcrypto_rsa_sane_privkey priv then None
      else
        (case bcrypto_rsa_key2priv priv of
           None \<Rightarrow> None
         | Some priv_r \<Rightarrow>
             if \<not> RSA_blinding_on priv_r then None
             else RSA_sign type (the msg) priv_r))"

section \<open>Example keys\<close>

text \<open>
  A 512-bit key with public exponent 65537, every component in its shortest form, and
  the same key with a zero byte in front of the exponent.
\<close>

definition key512 :: bcrypto_rsa_key_t where
  "key512 =
     \<lparr>nd = Some
        [0xBF, 0xC5, 0x94, 0xBD, 0x23, 0x5D, 0x46, 0x01, 0x32, 0x50, 0xDC, 0x49,
        0xAE, 0x99, 0x1C, 0xB9, 0x7F, 0xF6, 0xF1, 0x47, 0x89, 0x0E, 0x7D, 0x6E,
        0x6E, 0x53, 0x38, 0xD9, 0x98, 0x98, 0x24, 0xC8, 0xC4, 0x22, 0x2D, 0xCB,
        0xE7, 0x21, 0x04, 0xFB, 0xE6, 0x9F, 0x43, 0xBF, 0x02, 0x8D, 0x16, 0x4F,
        0xBE, 0x34, 0xF6, 0xB3, 0x97, 0xB1, 0xBD, 0xD6, 0x34, 0xB2, 0x20, 0x18,
        0x58, 0x4E, 0x2F, 0x6B],
      ed = Some
        [0x01, 0x00, 0x01],
      dd = Some
        [0x2C, 0x99, 0xBD, 0x30, 0x07, 0xEB, 0x87, 0x7E, 0x7B, 0xBF, 0x46, 0x9C,
        0x74, 0x58, 0xF3, 0xCF, 0x48, 0xAD, 0x9C, 0x0B, 0xF1, 0x1A, 0x47, 0x9D,
        0xC9, 0x56, 0xDD, 0x9F, 0xED, 0xD7, 0x64, 0xA6, 0x4D, 0xB2, 0x71, 0x15,
        0x06, 0x1B, 0xF7, 0x4D, 0x50, 0xD7, 0xE2, 0xFF, 0xF9, 0x1A, 0xC7, 0x5E,
        0x94, 0xEF, 0x2B, 0x12, 0xB3, 0x32, 0x55, 0xAC, 0xB1, 0x2A, 0x6A, 0x96,
        0xAC, 0xFC, 0x48, 0x41],
      pd = Some
        [0xE1, 0xC3, 0x55, 0x35, 0xCE, 0x7D, 0xC7, 0x42, 0xE4, 0xD2, 0xF2, 0xAD,
        0xBC, 0xB7, 0xDA, 0x4D, 0x93, 0x4B, 0x02, 0x75, 0x4B, 0x1C, 0x55, 0xBE,
        0xD7, 0x95, 0x6D, 0xC9, 0x43, 0xAE, 0x39, 0x11],
      qd = Some
        [0xD9, 0x74, 0xCD, 0x3D, 0xCC, 0x4D, 0x28, 0x00, 0x49, 0x17, 0xAA, 0x30,
        0x13, 0x07, 0xB6, 0xDC, 0xE8, 0xE0, 0x9D, 0x94, 0x6C, 0x46, 0xC9, 0xC1,
        0xFE, 0x6E, 0xD4, 0xE3, 0xC3, 0x62, 0x80, 0xBB],
      dpd = Some
        [0x6F, 0x5E, 0xF7, 0x08, 0x26, 0x27, 0x72, 0x47, 0x13, 0xAE, 0xE4, 0xBC,
        0xC4, 0x5E, 0x46, 0x39, 0x02, 0xB2, 0x7C, 0x31, 0xF4, 0xAD, 0xB3, 0xB7,
        0x03, 0x8E, 0xD9, 0xAB, 0xF1, 0xD1, 0x5E, 0xA1],
      dqd = Some
        [0x3D, 0x1C, 0xB8, 0x39, 0x6F, 0xDB, 0x17, 0x2C, 0xCD, 0x5D, 0xDB, 0x34,
        0x5B, 0x84, 0xC5, 0x7D, 0x5B, 0xED, 0x14, 0x1C, 0x0C, 0x39, 0xF0, 0xA5,
        0x96, 0x4D, 0xAB, 0x82, 0xBE, 0xFC, 0x45, 0xD5],
      qid = Some
        [0x1B, 0xB7, 0x79, 0xB8, 0xD6, 0xD9, 0x96, 0x42, 0xEB, 0x33, 0x72, 0x54,
        0xDE, 0xD6, 0x43, 0x95, 0x0E, 0xD4, 0x68, 0x82, 0x12, 0x1B, 0x10, 0x33,
        0xF2, 0x66, 0x76, 0x3C, 0x9F, 0x05, 0x6A, 0x94]\<rparr>"

definition key512_padded :: bcrypto_rsa_key_t where
  "key512_padded = key512\<lparr>ed := Some [0x00, 0x01, 0x00, 0x01]\<rparr>"

text \<open>The 512-bit key with only \<open>p\<close>, \<open>q\<close> and the public exponent supplied.\<close>

definition key512_pqe :: bcrypto_rsa_key_t where
  "key512_pqe = bcrypto_rsa_key_init\<lparr>ed := ed key512, pd := pd key512, qd := qd key512\<rparr>"

text \<open>
  Small partial keys for \<open>p = 61\<close>, \<open>q = 53\<close>: one with the public exponent 17 only, one
  that also has \<open>d = 2753\<close> and a \<open>dp\<close> of 5 but no \<open>dq\<close>.
\<close>

definition key_pqe :: bcrypto_rsa_key_t where
  "key_pqe = bcrypto_rsa_key_init\<lparr>ed := Some [0x11], pd := Some [0x3D], qd := Some [0x35]\<rparr>"

definition key_stale_dp :: bcrypto_rsa_key_t where
  "key_stale_dp =
     bcrypto_rsa_key_init\<lparr>ed := Some [0x11], dd := Some [0x0A, 0xC1], pd := Some [0x3D],
       qd := Some [0x35], dpd := Some [0x05]\<rparr>"

text \<open>The complete key for \<open>p = 61\<close>, \<open>q = 53\<close>, \<open>e = 17\<close>: \<open>n = 3233\<close>, \<open>d = 2753\<close>.\<close>

definition key_pqe_out :: bcrypto_rsa_key_t where
  "key_pqe_out =
     \<lparr>nd = Some [0x0C, 0xA1], ed = Some [0x11], dd = Some [0x0A, 0xC1], pd = Some [0x3D],
      qd = Some [0x35], dpd = Some [0x35], dqd = Some [0x31], qid = Some [0x26]\<rparr>"

text \<open>
  A partial key for \<open>p = 3\<close>, \<open>q = 5\<close> with \<open>e = 3\<close> and \<open>d = 4\<close>, and the key that
  completion returns for it: \<open>d mod (p - 1)\<close> and \<open>d mod (q - 1)\<close> are both 0.
\<close>

definition key_zero_crt :: bcrypto_rsa_key_t where
  "key_zero_crt =
     bcrypto_rsa_key_init\<lparr>ed := Some [0x03], dd := Some [0x04], pd := Some [0x03],
       qd := Some [0x05]\<rparr>"

definition key_zero_crt_out :: bcrypto_rsa_key_t where
  "key_zero_crt_out =
     \<lparr>nd = Some [0x0F], ed = Some [0x03], dd = Some [0x04], pd = Some [0x03],
      qd = Some [0x05], dpd = Some [], dqd = Some [], qid = Some [0x02]\<rparr>"

text \<open>A key with the leading zero bytes of every component removed.\<close>

definition strip_key :: "bcrypto_rsa_key_t \<Rightarrow> bcrypto_rsa_key_t" where
  "strip_key k =
     \<lparr>nd = map_option skip_zero_bytes (nd k), ed = map_option skip_zero_bytes (ed k),
      dd = map_option skip_zero_bytes (dd k), pd = map_option skip_zero_bytes (pd k),
      qd = map_option skip_zero_bytes (qd k), dpd = map_option skip_zero_bytes (dpd k),
      dqd = map_option skip_zero_bytes (dqd k), qid = map_option skip_zero_bytes (qid k)\<rparr>"

section \<open>Bit counts and big-endian numbers\<close>

text \<open>
  The two loops of \<^verbatim>\<open>bcrypto_count_bits\<close> in closed form: the first drops the leading
  zero bytes, the second adds the position of the highest set bit of the first byte
  that is left.
\<close>

lemma skip_zero_bytes_dropWhile: "skip_zero_bytes bs = dropWhile (\<lambda>b. b = 0) bs"
  by (induction bs) auto

lemma count_oct_floorlog: "count_oct oct bits = bits + floorlog 2 (unat oct)"
proof (induction oct bits rule: count_oct.induct)
  case (1 oct bits)
  show ?case
  proof (cases "oct = 0")
    case True
    then show ?thesis by (simp add: count_oct.simps [of 0] floorlog_eq_zero_iff)
  next
    case False
    then have pos: "0 < unat oct" by (simp add: unat_gt_0)
    have "count_oct oct bits = count_oct (drop_bit 1 oct) (bits + 1)"
      using False by (subst count_oct.simps) simp
    also have "\<dots> = bits + 1 + floorlog 2 (unat (drop_bit 1 oct))"
      using "1.IH" False by simp
    also have "unat (drop_bit 1 oct) = unat oct div 2"
      by (simp add: unat_drop_bit_eq drop_bit_eq_div unat_div)
    also have "bits + 1 + floorlog 2 (unat oct div 2) = bits + floorlog 2 (unat oct)"
      using pos by (subst (2) compute_floorlog) simp
    finally show ?thesis .
  qed
qed

lemma unat_ucast_oct: "unat (ucast (b :: 8 word) :: 32 word) = unat b"
proof -
  have "unat b < 2 ^ 8"
    using unsigned_less [of b] by simp
  then have "unat b < 2 ^ 32"
    by simp
  then show ?thesis
    by (simp add: unsigned_ucast_eq take_bit_nat_eq_self)
qed

lemma count_bits_None: "bcrypto_count_bits None = 0"
  by (simp add: bcrypto_count_bits_def)

lemma count_bits_Some:
  "bcrypto_count_bits (Some bs) =
     (case dropWhile (\<lambda>b. b = 0) bs of
        [] \<Rightarrow> 0
      | oct # rest \<Rightarrow> 8 * length (oct # rest) - 8 + floorlog 2 (unat oct))"
  by (cases "dropWhile (\<lambda>b. b = 0) bs")
    (simp_all add: bcrypto_count_bits_def skip_zero_bytes_dropWhile count_oct_floorlog
      unat_ucast_oct del: dropWhile_eq_Nil_conv)

lemma count_bits_nonzero_buffer:
  assumes "bcrypto_count_bits b \<noteq> 0"
  shows "\<exists>bs. b = Some bs \<and> bs \<noteq> [] \<and> skip_zero_bytes bs \<noteq> []"
  using assms by (cases b) (auto simp: bcrypto_count_bits_def split: list.splits)

subsection \<open>Numbers and their bytes\<close>

lemma be_value_snoc: "be_value (bs @ [b]) = be_value bs * 256 + uint b"
  by (simp add: be_value_def)

lemma be_value_nonneg: "0 \<le> be_value bs"
  by (induction bs rule: rev_induct) (simp_all add: be_value_def)

lemma be_value_Cons: "be_value (b # bs) = uint b * 256 ^ length bs + be_value bs"
  by (induction bs rule: rev_induct) (simp_all add: be_value_snoc be_value_def algebra_simps)

lemma be_value_zero_Cons: "be_value (0 # bs) = be_value bs"
  by (simp add: be_value_Cons)

lemma be_value_dropWhile: "be_value (dropWhile (\<lambda>b. b = 0) bs) = be_value bs"
  by (induction bs) (simp_all add: be_value_zero_Cons)

lemma be_value_less: "be_value bs < 256 ^ length bs"
proof (induction bs rule: rev_induct)
  case Nil
  then show ?case by (simp add: be_value_def)
next
  case (snoc b bs)
  have "uint b < 256"
    using uint_lt2p [of b] by simp
  with snoc show ?case
    by (simp add: be_value_snoc)
qed

lemma be_value_odd: "bs \<noteq> [] \<Longrightarrow> odd (be_value bs) \<longleftrightarrow> last bs AND 1 \<noteq> 0"
proof (induction bs rule: rev_induct)
  case Nil
  then show ?case by simp
next
  case (snoc b bs)
  have "odd (uint b) \<longleftrightarrow> odd b"
    by (simp flip: bit_0 add: bit_unsigned_iff)
  moreover have "odd b \<longleftrightarrow> b AND 1 \<noteq> 0"
    by (simp add: and_one_eq even_iff_mod_2_eq_zero)
  ultimately have "odd (uint b) \<longleftrightarrow> b AND 1 \<noteq> 0"
    by simp
  then show ?case
    by (simp add: be_value_snoc)
qed


lemma be_value_be_bytes: "be_value (be_bytes n) = int n"
proof (induction n rule: be_bytes.induct)
  case (1 n)
  show ?case
  proof (cases "n = 0")
    case True
    then show ?thesis by (simp add: be_bytes.simps [of 0] be_value_def)
  next
    case False
    have "uint (of_nat (n mod 256) :: 8 word) = int (n mod 256)"
      by (simp add: uint_nat unat_of_nat)
    moreover have "int (n div 256) * 256 + int (n mod 256) = int n"
      by (simp add: zdiv_int zmod_int)
    ultimately show ?thesis
      using False "1.IH" by (subst be_bytes.simps) (simp add: be_value_snoc)
  qed
qed

lemma be_value_eq_0_iff: "be_value bs = 0 \<longleftrightarrow> (\<forall>b\<in>set bs. b = 0)"
proof (induction bs rule: rev_induct)
  case Nil
  then show ?case by (simp add: be_value_def)
next
  case (snoc b bs)
  have "be_value bs * 256 + uint b = 0 \<longleftrightarrow> be_value bs = 0 \<and> uint b = 0"
    using uint_nonnegative [of b] be_value_nonneg [of bs] by arith
  with snoc show ?case
    by (auto simp: be_value_snoc uint_0_iff)
qed

lemma be_bytes_be_value: "be_bytes (nat (be_value bs)) = dropWhile (\<lambda>b. b = 0) bs"
proof (induction bs rule: rev_induct)
  case Nil
  then show ?case by (simp add: be_value_def be_bytes.simps [of 0])
next
  case (snoc b bs)
  let ?v = "nat (be_value (bs @ [b]))"
  have v: "?v = nat (be_value bs) * 256 + unat b"
    using be_value_nonneg [of bs] by (simp add: be_value_snoc nat_add_distrib nat_mult_distrib)
  have small: "unat b < 256"
    using unsigned_less [of b] by simp
  show ?case
  proof (cases "\<forall>x\<in>set (bs @ [b]). x = 0")
    case True
    then have "be_value (bs @ [b]) = 0"
      by (simp only: be_value_eq_0_iff)
    with True show ?thesis
      by (simp add: be_bytes.simps [of 0])
  next
    case False
    then have "be_value (bs @ [b]) \<noteq> 0"
      by (simp only: be_value_eq_0_iff) simp
    then have nz: "?v \<noteq> 0"
      using be_value_nonneg [of "bs @ [b]"] by simp
    have "?v div 256 = nat (be_value bs)" and "?v mod 256 = unat b"
      using small by (simp_all add: v)
    then have "be_bytes ?v = dropWhile (\<lambda>b. b = 0) bs @ [b]"
      using nz snoc.IH by (subst be_bytes.simps) simp
    also have "\<dots> = dropWhile (\<lambda>b. b = 0) (bs @ [b])"
      using False by (auto simp: dropWhile_append)
    finally show ?thesis .
  qed
qed

subsection \<open>The bit count is the bit length of the number\<close>

lemma floorlog_shift:
  fixes a r c :: nat
  assumes "0 < a" and "r < 2 ^ c"
  shows "floorlog 2 (a * 2 ^ c + r) = floorlog 2 a + c"
proof -
  have lower: "2 ^ (floorlog 2 a - 1) \<le> a" and upper: "a < 2 ^ floorlog 2 a"
    using floorlog_bounds [of a 2] assms(1) by simp_all
  have pos: "0 < floorlog 2 a"
    using assms(1) floorlog_eq_zero_iff [of 2 a] by (cases "floorlog 2 a") simp_all
  have "a + 1 \<le> 2 ^ floorlog 2 a"
    using upper by simp
  then have "(a + 1) * 2 ^ c \<le> 2 ^ floorlog 2 a * 2 ^ c"
    by (rule mult_le_mono1)
  then have "a * 2 ^ c + r < 2 ^ (floorlog 2 a + c)"
    using assms(2) by (simp add: power_add algebra_simps)
  then have le: "floorlog 2 (a * 2 ^ c + r) \<le> floorlog 2 a + c"
    by (simp add: floorlog_le_iff)
  have "2 ^ (floorlog 2 a - 1) * 2 ^ c \<le> a * 2 ^ c"
    using lower by (rule mult_le_mono1)
  then have "2 ^ (floorlog 2 a + c - 1) \<le> a * 2 ^ c + r"
    using pos by (simp add: power_add [symmetric])
  then have "floorlog 2 a + c \<le> floorlog 2 (a * 2 ^ c + r)"
    by (intro floorlog_geI) simp_all
  with le show ?thesis
    by simp
qed

lemma count_bits_num_bits: "bcrypto_count_bits b = BN_num_bits (BN_bin2bn b)"
proof (cases b)
  case None
  then show ?thesis
    by (simp add: count_bits_None BN_num_bits_def BN_bin2bn_def floorlog_eq_zero_iff)
next
  case (Some bs)
  show ?thesis
  proof (cases "dropWhile (\<lambda>b. b = 0) bs")
    case Nil
    then have "be_value bs = 0"
      by (simp add: be_value_eq_0_iff)
    with Nil Some show ?thesis
      by (simp add: count_bits_Some BN_num_bits_def BN_bin2bn_def floorlog_eq_zero_iff
          del: dropWhile_eq_Nil_conv)
  next
    case (Cons oct rest)
    then have "oct \<noteq> 0"
      using hd_dropWhile [of "\<lambda>b. b = 0" bs] by auto
    then have pos: "0 < unat oct"
      by (simp add: unat_gt_0)
    have "be_value bs = be_value (oct # rest)"
      using be_value_dropWhile [of bs] Cons by simp
    then have "nat (be_value bs) = unat oct * 2 ^ (8 * length rest) + nat (be_value rest)"
      using be_value_nonneg [of rest]
      by (simp add: be_value_Cons nat_add_distrib nat_mult_distrib nat_power_eq power_mult)
    moreover have "nat (be_value rest) < 2 ^ (8 * length rest)"
      using be_value_less [of rest] be_value_nonneg [of rest]
      by (simp add: power_mult nat_less_iff)
    ultimately have "floorlog 2 (nat (be_value bs)) = floorlog 2 (unat oct) + 8 * length rest"
      using pos by (simp add: floorlog_shift)
    with Cons Some show ?thesis
      by (simp add: count_bits_Some BN_num_bits_def BN_bin2bn_def be_value_nonneg)
  qed
qed

lemma count_bits_eq_0_iff: "bcrypto_count_bits b = 0 \<longleftrightarrow> BN_bin2bn b = 0"
  by (cases b)
    (auto simp: count_bits_num_bits BN_num_bits_def floorlog_eq_zero_iff BN_bin2bn_def
      dest: be_value_nonneg [THEN order.antisym, rotated])

section \<open>The key validator\<close>

lemma sane_pubkey_Some:
  "bcrypto_rsa_sane_pubkey (Some k) \<longleftrightarrow>
     512 \<le> bcrypto_count_bits (nd k) \<and> bcrypto_count_bits (nd k) \<le> 16384 \<and>
     2 \<le> bcrypto_count_bits (ed k) \<and> bcrypto_count_bits (ed k) \<le> 33 \<and>
     last_byte (ed k) AND 1 \<noteq> 0"
  by (auto simp: bcrypto_rsa_sane_pubkey_def Let_def)

lemma sane_privkey_Some:
  "bcrypto_rsa_sane_privkey (Some k) \<longleftrightarrow>
      bcrypto_rsa_sane_pubkey (Some k)
      \<and> 0 < bcrypto_count_bits (dd k)
      \<and> bcrypto_count_bits (dd k) \<le> bcrypto_count_bits (nd k)
      \<and> bcrypto_count_bits (pd k) + bcrypto_count_bits (qd k) = bcrypto_count_bits (nd k)
      \<and> 0 < bcrypto_count_bits (dpd k)
      \<and> bcrypto_count_bits (dpd k) \<le> bcrypto_count_bits (pd k)
      \<and> 0 < bcrypto_count_bits (dqd k)
      \<and> bcrypto_count_bits (dqd k) \<le> bcrypto_count_bits (qd k)
      \<and> 0 < bcrypto_count_bits (qid k)
      \<and> bcrypto_count_bits (qid k) \<le> bcrypto_count_bits (pd k)"
  by (auto simp: bcrypto_rsa_sane_privkey_def Let_def)

lemma low_bit_odd:
  assumes "bcrypto_count_bits b \<noteq> 0"
  shows "last_byte b AND 1 \<noteq> 0 \<longleftrightarrow> odd (BN_bin2bn b)"
proof -
  from assms obtain bs where "b = Some bs" and "bs \<noteq> []"
    using count_bits_nonzero_buffer by blast
  then show ?thesis
    by (simp add: last_byte_def BN_bin2bn_def be_value_odd)
qed

lemma key512_bits:
  "bcrypto_count_bits (nd key512) = 512" "bcrypto_count_bits (ed key512) = 17"
  "bcrypto_count_bits (dd key512) = 510" "bcrypto_count_bits (pd key512) = 256"
  "bcrypto_count_bits (qd key512) = 256" "bcrypto_count_bits (dpd key512) = 255"
  "bcrypto_count_bits (dqd key512) = 254" "bcrypto_count_bits (qid key512) = 253"
  by (simp_all add: key512_def count_bits_Some compute_floorlog)

lemma key512_sane_pubkey: "bcrypto_rsa_sane_pubkey (Some key512)"
  by (simp add: sane_pubkey_Some key512_bits) (simp add: key512_def last_byte_def)

lemma key512_sane_privkey: "bcrypto_rsa_sane_privkey (Some key512)"
  using key512_sane_pubkey
  by (simp add: sane_privkey_Some key512_bits)

lemma key512_sane_compute: "bcrypto_rsa_sane_compute (Some key512)"
  by (simp add: bcrypto_rsa_sane_compute_def key512_bits) (simp add: key512_def last_byte_def)

text \<open>
  Claim C4. For a key \<open>k\<close>, \<^verbatim>\<open>bcrypto_rsa_sane_pubkey\<close> (the validator
  \<open>is_valid_public\<close>) returns true exactly when the bit length of \<open>n\<close> is in
  \<open>[512, 16384]\<close>, the bit length of \<open>e\<close> is in \<open>[2, 33]\<close> and \<open>e\<close> is odd; so it returns
  false for a modulus of 511 or 16385 bits and for an even exponent. The bit length of
  an absent or all-zero buffer is 0; otherwise it is eight times the number of bytes
  left after the leading zero bytes, minus 8, plus \<open>floor (log2 b) + 1\<close> for the first
  byte \<open>b\<close> that is left.
\<close>

theorem sane_pubkey_iff:
  "(bcrypto_rsa_sane_pubkey (Some k) \<longleftrightarrow>
      512 \<le> bcrypto_count_bits (nd k) \<and> bcrypto_count_bits (nd k) \<le> 16384 \<and>
      2 \<le> bcrypto_count_bits (ed k) \<and> bcrypto_count_bits (ed k) \<le> 33 \<and>
      odd (BN_bin2bn (ed k)))
   \<and> (bcrypto_count_bits (nd k) = 511 \<or> bcrypto_count_bits (nd k) = 16385
        \<or> even (BN_bin2bn (ed k)) \<longrightarrow> \<not> bcrypto_rsa_sane_pubkey (Some k))
   \<and> bcrypto_count_bits None = 0
   \<and> ((\<forall>b\<in>set bs. b = 0) \<longrightarrow> bcrypto_count_bits (Some bs) = 0)
   \<and> (\<not> (\<forall>b\<in>set bs. b = 0) \<longrightarrow>
        bcrypto_count_bits (Some bs) =
          8 * length (dropWhile (\<lambda>b. b = 0) bs) - 8
          + nat \<lfloor>log 2 (unat (hd (dropWhile (\<lambda>b. b = 0) bs)))\<rfloor> + 1)"
proof -
  have iff: "bcrypto_rsa_sane_pubkey (Some k) \<longleftrightarrow>
      512 \<le> bcrypto_count_bits (nd k) \<and> bcrypto_count_bits (nd k) \<le> 16384 \<and>
      2 \<le> bcrypto_count_bits (ed k) \<and> bcrypto_count_bits (ed k) \<le> 33 \<and>
      odd (BN_bin2bn (ed k))"
  proof (cases "bcrypto_count_bits (ed k) = 0")
    case True
    then show ?thesis by (simp add: sane_pubkey_Some)
  next
    case False
    then show ?thesis by (simp add: sane_pubkey_Some low_bit_odd)
  qed
  have zero: "bcrypto_count_bits (Some bs) = 0" if "\<forall>b\<in>set bs. b = 0"
  proof -
    from that have "dropWhile (\<lambda>b. b = 0) bs = []"
      by simp
    then show ?thesis
      by (simp only: count_bits_Some list.case)
  qed
  have formula: "bcrypto_count_bits (Some bs) =
          8 * length (dropWhile (\<lambda>b. b = 0) bs) - 8
          + nat \<lfloor>log 2 (unat (hd (dropWhile (\<lambda>b. b = 0) bs)))\<rfloor> + 1"
    if nz: "\<not> (\<forall>b\<in>set bs. b = 0)"
  proof -
    from nz obtain oct rest where dw: "dropWhile (\<lambda>b. b = 0) bs = oct # rest"
      by (cases "dropWhile (\<lambda>b. b = 0) bs") auto
    then have "oct \<noteq> 0"
      using hd_dropWhile [of "\<lambda>b. b = 0" bs] by auto
    then have "0 < unat oct"
      by (simp add: unat_gt_0)
    then show ?thesis
      by (simp add: count_bits_Some dw floorlog_def)
  qed
  from iff zero formula show ?thesis
    by (simp add: count_bits_None)
qed

theorem sane_pubkey_iff_witness:
  "bcrypto_rsa_sane_pubkey (Some key512)
   \<and> bcrypto_count_bits (nd key512) = 512
   \<and> bcrypto_count_bits (ed key512) = 17
   \<and> odd (BN_bin2bn (ed key512))
   \<and> \<not> bcrypto_rsa_sane_pubkey (Some (key512\<lparr>ed := Some [0x01, 0x00, 0x00]\<rparr>))
   \<and> bcrypto_count_bits (Some [0x00, 0x00]) = 0
   \<and> bcrypto_count_bits (Some [0x00, 0x01, 0x00, 0x01]) = 17"
proof -
  have n: "bcrypto_count_bits (nd key512) = 512"
    by (simp add: key512_def count_bits_Some compute_floorlog)
  have e: "bcrypto_count_bits (ed key512) = 17"
    by (simp add: key512_def count_bits_Some compute_floorlog)
  have odd: "odd (BN_bin2bn (ed key512))"
    by (simp add: key512_def BN_bin2bn_def be_value_def)
  have even: "even (BN_bin2bn (Some [0x01, 0x00, 0x00]))"
    by (simp add: BN_bin2bn_def be_value_def)
  show ?thesis
    using sane_pubkey_iff [of key512 "[0x00, 0x00]"]
      sane_pubkey_iff [of "key512\<lparr>ed := Some [0x01, 0x00, 0x00]\<rparr>" "[0x00, 0x01, 0x00, 0x01]"]
      n e odd even
    by simp
qed

text \<open>
  Claim C3. For a key \<open>k\<close>, \<^verbatim>\<open>bcrypto_rsa_sane_privkey\<close> (the validator
  \<open>is_valid_private\<close>) returns true exactly when \<^verbatim>\<open>bcrypto_rsa_sane_pubkey\<close> holds, the
  bit length of \<open>d\<close> is in \<open>(0, bitlen n]\<close>, the bit lengths of \<open>p\<close> and \<open>q\<close> add up to
  that of \<open>n\<close>, and the bit lengths of \<open>dp\<close>, \<open>dq\<close> and \<open>qInv\<close> are in \<open>(0, bitlen p]\<close>,
  \<open>(0, bitlen q]\<close> and \<open>(0, bitlen p]\<close>. It is a total function to \<open>bool\<close>: on every key,
  and on the null key, it answers true or false and nothing else.
\<close>

theorem sane_privkey_iff:
  "(bcrypto_rsa_sane_privkey (Some k) \<longleftrightarrow>
      bcrypto_rsa_sane_pubkey (Some k)
      \<and> 0 < bcrypto_count_bits (dd k)
      \<and> bcrypto_count_bits (dd k) \<le> bcrypto_count_bits (nd k)
      \<and> bcrypto_count_bits (pd k) + bcrypto_count_bits (qd k) = bcrypto_count_bits (nd k)
      \<and> 0 < bcrypto_count_bits (dpd k)
      \<and> bcrypto_count_bits (dpd k) \<le> bcrypto_count_bits (pd k)
      \<and> 0 < bcrypto_count_bits (dqd k)
      \<and> bcrypto_count_bits (dqd k) \<le> bcrypto_count_bits (qd k)
      \<and> 0 < bcrypto_count_bits (qid k)
      \<and> bcrypto_count_bits (qid k) \<le> bcrypto_count_bits (pd k))
   \<and> bcrypto_rsa_sane_privkey None = False"
  by (simp add: sane_privkey_Some bcrypto_rsa_sane_privkey_def [of None]
      bcrypto_rsa_sane_pubkey_def [of None])

theorem sane_privkey_iff_witness:
  "bcrypto_rsa_sane_privkey (Some key512)
   \<and> bcrypto_rsa_sane_pubkey (Some key512)
   \<and> bcrypto_count_bits (pd key512) + bcrypto_count_bits (qd key512) = 512
   \<and> \<not> bcrypto_rsa_sane_privkey (Some (key512\<lparr>qid := None\<rparr>))
   \<and> \<not> bcrypto_rsa_sane_privkey (Some (key512\<lparr>pd := Some [0x01]\<rparr>))"
proof -
  have pub: "bcrypto_rsa_sane_pubkey (Some key512)"
    by (simp add: sane_pubkey_Some key512_bits) (simp add: key512_def last_byte_def)
  show ?thesis
    using sane_privkey_iff [of key512] sane_privkey_iff [of "key512\<lparr>qid := None\<rparr>"]
      sane_privkey_iff [of "key512\<lparr>pd := Some [0x01]\<rparr>"] pub
    by (simp add: key512_bits count_bits_None) (simp add: count_bits_Some compute_floorlog)
qed

section \<open>Substrate facts\<close>

text \<open>The modular inverse that \<^verbatim>\<open>BN_mod_inverse\<close> returns is the only one in range.\<close>

lemma BN_mod_inverse_SomeD:
  assumes "BN_mod_inverse a n = Some r"
  shows "0 \<le> r" and "r < n" and "(a * r) mod n = 1"
proof -
  from assms have "r \<in> set (map int [0..<nat n]) \<and> (a * r) mod n = 1"
    unfolding BN_mod_inverse_def find_Some_iff by (metis nth_mem)
  then show "0 \<le> r" and "r < n" and "(a * r) mod n = 1"
    by auto
qed

lemma mod_inverse_unique:
  fixes a n x r :: int
  assumes "(a * x) mod n = 1" and "(a * r) mod n = 1"
    and "0 \<le> x" and "x < n" and "0 \<le> r" and "r < n"
  shows "x = r"
proof -
  have "x mod n = (x * ((a * r) mod n)) mod n"
    using assms(2) by simp
  also have "\<dots> = (x * (a * r)) mod n"
    by (simp add: mod_mult_right_eq)
  also have "\<dots> = ((a * x) * r) mod n"
    by (simp add: mult.commute mult.left_commute)
  also have "\<dots> = (((a * x) mod n) * r) mod n"
    by (simp add: mod_mult_left_eq)
  also have "\<dots> = r mod n"
    using assms(1) by simp
  finally show ?thesis
    using assms(3-6) by simp
qed

lemma BN_mod_inverse_eqI:
  assumes "0 \<le> r" and "r < n" and "(a * r) mod n = 1"
  shows "BN_mod_inverse a n = Some r"
proof -
  have "r \<in> set (map int [0..<nat n])"
    using assms(1,2) by (auto simp: image_iff intro!: bexI [of _ "nat r"])
  then have "BN_mod_inverse a n \<noteq> None"
    using assms(3) by (auto simp: BN_mod_inverse_def find_None_iff)
  then obtain x where x: "BN_mod_inverse a n = Some x"
    by blast
  then have "x = r"
    using BN_mod_inverse_SomeD [OF x] assms by (intro mod_inverse_unique [of a x n r])
  with x show ?thesis
    by simp
qed

lemma BN_mod_inverse_None_iff:
  "BN_mod_inverse a n = None \<longleftrightarrow> \<not> (\<exists>r. 0 \<le> r \<and> r < n \<and> (a * r) mod n = 1)"
proof
  assume "BN_mod_inverse a n = None"
  then show "\<not> (\<exists>r. 0 \<le> r \<and> r < n \<and> (a * r) mod n = 1)"
    using BN_mod_inverse_eqI by fastforce
next
  assume "\<not> (\<exists>r. 0 \<le> r \<and> r < n \<and> (a * r) mod n = 1)"
  then show "BN_mod_inverse a n = None"
    using BN_mod_inverse_SomeD by (cases "BN_mod_inverse a n") blast+
qed

subsection \<open>From buffers to numbers and back\<close>

lemma BN_bin2bn_nonneg: "0 \<le> BN_bin2bn b"
  by (cases b) (simp_all add: BN_bin2bn_def be_value_nonneg)

lemma BN_bin2bn_bn2bin: "BN_bin2bn (Some (BN_bn2bin a)) = \<bar>a\<bar>"
  by (simp add: BN_bin2bn_def BN_bn2bin_def be_value_be_bytes)

lemma BN_bn2bin_bin2bn: "BN_bn2bin (BN_bin2bn (Some bs)) = skip_zero_bytes bs"
  using be_value_nonneg [of bs]
  by (simp add: BN_bin2bn_def BN_bn2bin_def be_bytes_be_value skip_zero_bytes_dropWhile)

lemma BN_bn2bin_bin2bn_the:
  "bcrypto_count_bits b \<noteq> 0 \<Longrightarrow> Some (BN_bn2bin (BN_bin2bn b)) = map_option skip_zero_bytes b"
  using count_bits_nonzero_buffer [of b] by (auto simp: BN_bn2bin_bin2bn)

lemma skip_zero_bytes_id_iff: "skip_zero_bytes bs = bs \<longleftrightarrow> take 1 bs \<noteq> [0]"
proof (cases bs)
  case Nil
  then show ?thesis by simp
next
  case (Cons b rest)
  have "length (skip_zero_bytes rest) \<le> length rest"
    by (simp add: skip_zero_bytes_dropWhile length_dropWhile_le)
  then have "skip_zero_bytes rest \<noteq> 0 # rest"
    by (metis impossible_Cons)
  with Cons show ?thesis
    by simp
qed

text \<open>
  What \<^verbatim>\<open>BN_bn2bin\<close> writes has no leading zero byte, and it is empty exactly for the
  number 0. An inverse that \<^verbatim>\<open>BN_mod_inverse\<close> returns is never 0.
\<close>

lemma be_bytes_no_leading_zero: "dropWhile (\<lambda>b. b = 0) (be_bytes n) = be_bytes n"
  using be_bytes_be_value [of "be_bytes n"] by (simp add: be_value_be_bytes)

lemma BN_bn2bin_shortest: "take (Suc 0) (BN_bn2bin a) \<noteq> [0]"
proof -
  have "skip_zero_bytes (BN_bn2bin a) = BN_bn2bin a"
    by (simp add: BN_bn2bin_def skip_zero_bytes_dropWhile be_bytes_no_leading_zero)
  then show ?thesis
    using skip_zero_bytes_id_iff [of "BN_bn2bin a"] by simp
qed

lemma count_bits_bn2bin: "bcrypto_count_bits (Some (BN_bn2bin a)) = 0 \<longleftrightarrow> a = 0"
  by (simp add: count_bits_eq_0_iff BN_bin2bn_bn2bin)

lemma BN_mod_inverse_nonzero:
  assumes "BN_mod_inverse a n = Some r"
  shows "r \<noteq> 0"
  using BN_mod_inverse_SomeD(3) [OF assms] by auto

text \<open>
  The length \<^verbatim>\<open>BN_num_bytes\<close> that \<^verbatim>\<open>bcrypto_rsa_priv2key\<close> reserves for a component
  is the number of bytes that \<^verbatim>\<open>BN_bn2bin\<close> writes into it.
\<close>

lemma BN_bn2bin_length: "length (BN_bn2bin a) = BN_num_bytes a"
proof -
  let ?bs = "BN_bn2bin a"
  have "BN_num_bits a = BN_num_bits (BN_bin2bn (Some ?bs))"
    by (simp add: BN_bin2bn_bn2bin BN_num_bits_def)
  also have "\<dots> = bcrypto_count_bits (Some ?bs)"
    by (simp add: count_bits_num_bits)
  finally have bits: "BN_num_bits a = bcrypto_count_bits (Some ?bs)" .
  have nz: "dropWhile (\<lambda>b. b = 0) ?bs = ?bs"
    by (simp add: BN_bn2bin_def be_bytes_no_leading_zero)
  show ?thesis
  proof (cases ?bs)
    case Nil
    with bits nz show ?thesis
      by (simp add: BN_num_bytes_def count_bits_Some del: dropWhile_eq_Nil_conv)
  next
    case (Cons oct rest)
    with nz have "oct \<noteq> 0"
      using hd_dropWhile [of "\<lambda>b. b = 0" ?bs] by auto
    then have low: "0 < floorlog 2 (unat oct)"
      using floorlog_eq_zero_iff [of 2 "unat oct"] by (cases "floorlog 2 (unat oct)")
        (simp_all add: unat_eq_0)
    have "unat oct < 2 ^ 8"
      using unsigned_less [of oct] by simp
    then have high: "floorlog 2 (unat oct) \<le> 8"
      by (simp add: floorlog_le_iff)
    have "bcrypto_count_bits (Some ?bs) = 8 * length rest + floorlog 2 (unat oct)"
      using Cons nz by (simp add: count_bits_Some)
    with low high Cons show ?thesis
      by (simp add: BN_num_bytes_def bits)
  qed
qed

lemma key2priv_Some:
  "bcrypto_rsa_key2priv (Some k) =
     Some \<lparr>rsa_version = 0, rsa_n = Some (BN_bin2bn (nd k)), rsa_e = Some (BN_bin2bn (ed k)),
       rsa_d = Some (BN_bin2bn (dd k)), rsa_p = Some (BN_bin2bn (pd k)),
       rsa_q = Some (BN_bin2bn (qd k)), rsa_dmp1 = Some (BN_bin2bn (dpd k)),
       rsa_dmq1 = Some (BN_bin2bn (dqd k)), rsa_iqmp = Some (BN_bin2bn (qid k))\<rparr>"
  by (simp add: bcrypto_rsa_key2priv_def RSA_set0_key_def RSA_set0_factors_def
      RSA_set0_crt_params_def RSA_new_def set0_def)

lemma priv2key_full:
  "bcrypto_rsa_priv2key
     (Some \<lparr>rsa_version = v, rsa_n = Some n, rsa_e = Some e, rsa_d = Some d, rsa_p = Some p,
       rsa_q = Some q, rsa_dmp1 = Some dp, rsa_dmq1 = Some dq, rsa_iqmp = Some qi\<rparr>) =
     Some \<lparr>nd = Some (BN_bn2bin n), ed = Some (BN_bn2bin e), dd = Some (BN_bn2bin d),
       pd = Some (BN_bn2bin p), qd = Some (BN_bn2bin q), dpd = Some (BN_bn2bin dp),
       dqd = Some (BN_bn2bin dq), qid = Some (BN_bn2bin qi)\<rparr>"
  by (simp add: bcrypto_rsa_priv2key_def bcrypto_rsa_key_init_def)

lemma compute_fields_Some_iff:
  "compute_fields (Some k) = Some out \<longleftrightarrow>
     (\<exists>e' d' dp' dq' qi'.
        (if BN_bin2bn (ed k) = 0
         then BN_mod_inverse (BN_bin2bn (dd k)) ((BN_bin2bn (pd k) - 1) * (BN_bin2bn (qd k) - 1))
         else Some (BN_bin2bn (ed k))) = Some e'
        \<and> (if BN_bin2bn (dd k) = 0
           then BN_mod_inverse e' ((BN_bin2bn (pd k) - 1) * (BN_bin2bn (qd k) - 1))
           else Some (BN_bin2bn (dd k))) = Some d'
        \<and> (if BN_bin2bn (dpd k) = 0 \<or> BN_bin2bn (dqd k) = 0
           then BN_mod d' (BN_bin2bn (pd k) - 1) = Some dp'
                \<and> BN_mod d' (BN_bin2bn (qd k) - 1) = Some dq'
           else dp' = BN_bin2bn (dpd k) \<and> dq' = BN_bin2bn (dqd k))
        \<and> (if BN_bin2bn (qid k) = 0
           then BN_mod_inverse (BN_bin2bn (qd k)) (BN_bin2bn (pd k))
           else Some (BN_bin2bn (qid k))) = Some qi'
        \<and> out =
            \<lparr>nd = Some (BN_bn2bin (if BN_bin2bn (nd k) = 0
                                    then BN_bin2bn (pd k) * BN_bin2bn (qd k)
                                    else BN_bin2bn (nd k))),
             ed = Some (BN_bn2bin e'), dd = Some (BN_bn2bin d'),
             pd = Some (BN_bn2bin (BN_bin2bn (pd k))), qd = Some (BN_bn2bin (BN_bin2bn (qd k))),
             dpd = Some (BN_bn2bin dp'), dqd = Some (BN_bn2bin dq'),
             qid = Some (BN_bn2bin qi')\<rparr>)"
  by (auto simp: compute_fields_def key2priv_Some Let_def bind_eq_Some_conv
      RSA_set0_key_def RSA_set0_factors_def RSA_set0_crt_params_def RSA_new_def set0_def
      priv2key_full split: if_splits)

section \<open>Completing a key\<close>

lemma compute_True_Some:
  assumes "bcrypto_rsa_privkey_compute (Some k) key0 = (True, Some out)"
  shows "bcrypto_rsa_sane_compute (Some k)" and "bcrypto_rsa_needs_compute (Some k)"
    and "compute_fields (Some k) = Some out"
  using assms
  by (auto simp: bcrypto_rsa_privkey_compute_def split: if_splits option.splits)

lemma sane_compute_factors:
  assumes "bcrypto_rsa_sane_compute (Some k)"
  shows "1 \<le> BN_bin2bn (pd k)" and "1 \<le> BN_bin2bn (qd k)"
proof -
  from assms have "bcrypto_count_bits (pd k) \<noteq> 0" and "bcrypto_count_bits (qd k) \<noteq> 0"
    by (auto simp: bcrypto_rsa_sane_compute_def Let_def split: if_splits)
  then have "BN_bin2bn (pd k) \<noteq> 0" and "BN_bin2bn (qd k) \<noteq> 0"
    by (simp_all add: count_bits_eq_0_iff)
  then show "1 \<le> BN_bin2bn (pd k)" and "1 \<le> BN_bin2bn (qd k)"
    using BN_bin2bn_nonneg [of "pd k"] BN_bin2bn_nonneg [of "qd k"] by simp_all
qed

lemma BN_mod_SomeD:
  assumes "BN_mod a m = Some r" and "0 \<le> a" and "0 \<le> m"
  shows "r = a mod m" and "0 \<le> r" and "m \<noteq> 0"
  using assms by (auto simp: BN_mod_def sgn_if split: if_splits)

subsection \<open>The completion of the small keys\<close>

lemma compute_fields_eqI:
  assumes "(if BN_bin2bn (ed k) = 0
         then BN_mod_inverse (BN_bin2bn (dd k)) ((BN_bin2bn (pd k) - 1) * (BN_bin2bn (qd k) - 1))
         else Some (BN_bin2bn (ed k))) = Some e'"
    and "(if BN_bin2bn (dd k) = 0
           then BN_mod_inverse e' ((BN_bin2bn (pd k) - 1) * (BN_bin2bn (qd k) - 1))
           else Some (BN_bin2bn (dd k))) = Some d'"
    and "if BN_bin2bn (dpd k) = 0 \<or> BN_bin2bn (dqd k) = 0
           then BN_mod d' (BN_bin2bn (pd k) - 1) = Some dp'
                \<and> BN_mod d' (BN_bin2bn (qd k) - 1) = Some dq'
           else dp' = BN_bin2bn (dpd k) \<and> dq' = BN_bin2bn (dqd k)"
    and "(if BN_bin2bn (qid k) = 0
           then BN_mod_inverse (BN_bin2bn (qd k)) (BN_bin2bn (pd k))
           else Some (BN_bin2bn (qid k))) = Some qi'"
    and "out =
            \<lparr>nd = Some (BN_bn2bin (if BN_bin2bn (nd k) = 0
                                    then BN_bin2bn (pd k) * BN_bin2bn (qd k)
                                    else BN_bin2bn (nd k))),
             ed = Some (BN_bn2bin e'), dd = Some (BN_bn2bin d'),
             pd = Some (BN_bn2bin (BN_bin2bn (pd k))), qd = Some (BN_bn2bin (BN_bin2bn (qd k))),
             dpd = Some (BN_bn2bin dp'), dqd = Some (BN_bn2bin dq'),
             qid = Some (BN_bn2bin qi')\<rparr>"
  shows "compute_fields (Some k) = Some out"
  unfolding compute_fields_Some_iff using assms by blast

lemma key_pqe_sane: "bcrypto_rsa_sane_compute (Some key_pqe)"
  by (simp add: bcrypto_rsa_sane_compute_def key_pqe_def bcrypto_rsa_key_init_def
      count_bits_None count_bits_Some compute_floorlog last_byte_def)

lemma key_pqe_needs: "bcrypto_rsa_needs_compute (Some key_pqe)"
  by (simp add: bcrypto_rsa_needs_compute_def key_pqe_def bcrypto_rsa_key_init_def
      count_bits_None)

lemma key_pqe_fields: "compute_fields (Some key_pqe) = Some key_pqe_out"
proof (rule compute_fields_eqI [where e' = 17 and d' = 2753 and dp' = 53 and dq' = 49 and qi' = 38])
  show "(if BN_bin2bn (ed key_pqe) = 0
         then BN_mod_inverse (BN_bin2bn (dd key_pqe))
                ((BN_bin2bn (pd key_pqe) - 1) * (BN_bin2bn (qd key_pqe) - 1))
         else Some (BN_bin2bn (ed key_pqe))) = Some 17"
    by (simp add: key_pqe_def bcrypto_rsa_key_init_def BN_bin2bn_def be_value_def)
  show "(if BN_bin2bn (dd key_pqe) = 0
           then BN_mod_inverse 17 ((BN_bin2bn (pd key_pqe) - 1) * (BN_bin2bn (qd key_pqe) - 1))
           else Some (BN_bin2bn (dd key_pqe))) = Some 2753"
    by (simp add: key_pqe_def bcrypto_rsa_key_init_def BN_bin2bn_def be_value_def
        BN_mod_inverse_eqI)
  show "if BN_bin2bn (dpd key_pqe) = 0 \<or> BN_bin2bn (dqd key_pqe) = 0
           then BN_mod 2753 (BN_bin2bn (pd key_pqe) - 1) = Some 53
                \<and> BN_mod 2753 (BN_bin2bn (qd key_pqe) - 1) = Some 49
           else 53 = BN_bin2bn (dpd key_pqe) \<and> 49 = BN_bin2bn (dqd key_pqe)"
    by (simp add: key_pqe_def bcrypto_rsa_key_init_def BN_bin2bn_def be_value_def BN_mod_def)
  show "(if BN_bin2bn (qid key_pqe) = 0
           then BN_mod_inverse (BN_bin2bn (qd key_pqe)) (BN_bin2bn (pd key_pqe))
           else Some (BN_bin2bn (qid key_pqe))) = Some 38"
    by (simp add: key_pqe_def bcrypto_rsa_key_init_def BN_bin2bn_def be_value_def
        BN_mod_inverse_eqI)
  show "key_pqe_out =
            \<lparr>nd = Some (BN_bn2bin (if BN_bin2bn (nd key_pqe) = 0
                                    then BN_bin2bn (pd key_pqe) * BN_bin2bn (qd key_pqe)
                                    else BN_bin2bn (nd key_pqe))),
             ed = Some (BN_bn2bin 17), dd = Some (BN_bn2bin 2753),
             pd = Some (BN_bn2bin (BN_bin2bn (pd key_pqe))),
             qd = Some (BN_bn2bin (BN_bin2bn (qd key_pqe))),
             dpd = Some (BN_bn2bin 53), dqd = Some (BN_bn2bin 49),
             qid = Some (BN_bn2bin 38)\<rparr>"
    by (simp add: key_pqe_def key_pqe_out_def bcrypto_rsa_key_init_def BN_bin2bn_def
        be_value_def BN_bn2bin_def be_bytes.simps)
qed

lemma key_pqe_completed:
  "bcrypto_rsa_privkey_compute (Some key_pqe) key0 = (True, Some key_pqe_out)"
  by (simp add: bcrypto_rsa_privkey_compute_def key_pqe_sane key_pqe_needs key_pqe_fields)


lemma key_stale_dp_sane: "bcrypto_rsa_sane_compute (Some key_stale_dp)"
  by (simp add: bcrypto_rsa_sane_compute_def key_stale_dp_def bcrypto_rsa_key_init_def
      count_bits_None count_bits_Some compute_floorlog last_byte_def)

lemma key_stale_dp_needs: "bcrypto_rsa_needs_compute (Some key_stale_dp)"
  by (simp add: bcrypto_rsa_needs_compute_def key_stale_dp_def bcrypto_rsa_key_init_def
      count_bits_None)

lemma key_stale_dp_fields: "compute_fields (Some key_stale_dp) = Some key_pqe_out"
  by (rule compute_fields_eqI [where e' = 17 and d' = 2753 and dp' = 53 and dq' = 49 and qi' = 38])
    (simp_all add: key_stale_dp_def key_pqe_out_def bcrypto_rsa_key_init_def BN_bin2bn_def
      be_value_def BN_mod_def BN_mod_inverse_eqI BN_bn2bin_def be_bytes.simps)

lemma key_stale_dp_completed:
  "bcrypto_rsa_privkey_compute (Some key_stale_dp) key0 = (True, Some key_pqe_out)"
  by (simp add: bcrypto_rsa_privkey_compute_def key_stale_dp_sane key_stale_dp_needs
      key_stale_dp_fields)

lemma key_zero_crt_sane: "bcrypto_rsa_sane_compute (Some key_zero_crt)"
  by (simp add: bcrypto_rsa_sane_compute_def key_zero_crt_def bcrypto_rsa_key_init_def
      count_bits_None count_bits_Some compute_floorlog last_byte_def)

lemma key_zero_crt_needs: "bcrypto_rsa_needs_compute (Some key_zero_crt)"
  by (simp add: bcrypto_rsa_needs_compute_def key_zero_crt_def bcrypto_rsa_key_init_def
      count_bits_None)

lemma key_zero_crt_fields: "compute_fields (Some key_zero_crt) = Some key_zero_crt_out"
  by (rule compute_fields_eqI [where e' = 3 and d' = 4 and dp' = 0 and dq' = 0 and qi' = 2])
    (simp_all add: key_zero_crt_def key_zero_crt_out_def bcrypto_rsa_key_init_def BN_bin2bn_def
      be_value_def BN_mod_def BN_mod_inverse_eqI BN_bn2bin_def be_bytes.simps)

lemma key_zero_crt_completed:
  "bcrypto_rsa_privkey_compute (Some key_zero_crt) key0 = (True, Some key_zero_crt_out)"
  by (simp add: bcrypto_rsa_privkey_compute_def key_zero_crt_sane key_zero_crt_needs
      key_zero_crt_fields)

subsection \<open>The completion of the 512-bit key\<close>

text \<open>
  From \<open>p\<close>, \<open>q\<close> and \<open>e = 65537\<close> alone, completion yields exactly \<open>key512\<close>. The
  remainders are checked through their quotients.
\<close>

lemma key512_numbers:
  "BN_bin2bn (nd key512) = 10043904186841125740549285210408401683095976882308384163005699711168322154312663270094914823964875974643653126096415007649569879235145530958025230530785131"
  "BN_bin2bn (ed key512) = 65537"
  "BN_bin2bn (dd key512) = 2335919978269259174778403118498632199425498262662990240818665410342670037933237071296162198614720045964285968532120052318226440263657213760179268610705473"
  "BN_bin2bn (pd key512) = 102115514207929447186881858884130525381925890913429875634172137549192955312401"
  "BN_bin2bn (qd key512) = 98358258926156385363436547962177588514260817860870330558280602337425389420731"
  "BN_bin2bn (dpd key512) = 50374514767877062232813380193233438906231045870747636895994403267854925389473"
  "BN_bin2bn (dqd key512) = 27641826951217606933850715479307670861584383529327093828255979581773667124693"
  "BN_bin2bn (qid key512) = 12536620019167125732397875196859092838293282813109101107266228183761626163860"
  by (simp_all add: key512_def BN_bin2bn_def be_value_def)

lemma key512_shortest:
  "Some (BN_bn2bin (BN_bin2bn (nd key512))) = nd key512"
  "Some (BN_bn2bin (BN_bin2bn (ed key512))) = ed key512"
  "Some (BN_bn2bin (BN_bin2bn (dd key512))) = dd key512"
  "Some (BN_bn2bin (BN_bin2bn (pd key512))) = pd key512"
  "Some (BN_bn2bin (BN_bin2bn (qd key512))) = qd key512"
  "Some (BN_bn2bin (BN_bin2bn (dpd key512))) = dpd key512"
  "Some (BN_bn2bin (BN_bin2bn (dqd key512))) = dqd key512"
  "Some (BN_bn2bin (BN_bin2bn (qid key512))) = qid key512"
  by (simp_all add: key512_def BN_bn2bin_bin2bn)

lemma key512_pqe_parts:
  "nd key512_pqe = None" "ed key512_pqe = ed key512" "dd key512_pqe = None"
  "pd key512_pqe = pd key512" "qd key512_pqe = qd key512" "dpd key512_pqe = None"
  "dqd key512_pqe = None" "qid key512_pqe = None"
  by (simp_all add: key512_pqe_def bcrypto_rsa_key_init_def)

lemma BN_bin2bn_None: "BN_bin2bn None = 0"
  by (simp add: BN_bin2bn_def)

lemma mod_eqI:
  fixes a n r k :: int
  assumes "a = k * n + r" and "0 \<le> r" and "r < n"
  shows "a mod n = r"
  using assms by simp

lemma key512_inverses:
  "BN_mod_inverse (BN_bin2bn (ed key512))
     ((BN_bin2bn (pd key512) - 1) * (BN_bin2bn (qd key512) - 1)) = Some (BN_bin2bn (dd key512))"
  "BN_mod_inverse (BN_bin2bn (qd key512)) (BN_bin2bn (pd key512))
     = Some (BN_bin2bn (qid key512))"
proof -
  have "(BN_bin2bn (ed key512) * BN_bin2bn (dd key512))
      mod ((BN_bin2bn (pd key512) - 1) * (BN_bin2bn (qd key512) - 1)) = 1"
    by (rule mod_eqI [where k = 15242]) (simp_all add: key512_numbers)
  moreover have "0 \<le> BN_bin2bn (dd key512)"
    and "BN_bin2bn (dd key512) < (BN_bin2bn (pd key512) - 1) * (BN_bin2bn (qd key512) - 1)"
    by (simp_all add: key512_numbers)
  ultimately show "BN_mod_inverse (BN_bin2bn (ed key512))
     ((BN_bin2bn (pd key512) - 1) * (BN_bin2bn (qd key512) - 1)) = Some (BN_bin2bn (dd key512))"
    by (intro BN_mod_inverse_eqI)
  have "(BN_bin2bn (qd key512) * BN_bin2bn (qid key512)) mod BN_bin2bn (pd key512) = 1"
    by (rule mod_eqI [where k = 12075345528724027762854704152818970165582851897934243603963883356555703550059]) (simp_all add: key512_numbers)
  moreover have "0 \<le> BN_bin2bn (qid key512)"
    and "BN_bin2bn (qid key512) < BN_bin2bn (pd key512)"
    by (simp_all add: key512_numbers)
  ultimately show "BN_mod_inverse (BN_bin2bn (qd key512)) (BN_bin2bn (pd key512))
     = Some (BN_bin2bn (qid key512))"
    by (intro BN_mod_inverse_eqI)
qed

lemma key512_remainders:
  "BN_mod (BN_bin2bn (dd key512)) (BN_bin2bn (pd key512) - 1) = Some (BN_bin2bn (dpd key512))"
  "BN_mod (BN_bin2bn (dd key512)) (BN_bin2bn (qd key512) - 1) = Some (BN_bin2bn (dqd key512))"
proof -
  have d: "0 < BN_bin2bn (dd key512)" and p: "0 < BN_bin2bn (pd key512) - 1"
    and q: "0 < BN_bin2bn (qd key512) - 1"
    by (simp_all add: key512_numbers)
  have "BN_bin2bn (dd key512) mod (BN_bin2bn (pd key512) - 1) = BN_bin2bn (dpd key512)"
    by (rule mod_eqI [where k = 22875270191685240790843338328570285550671580722879985021732959104430135428090]) (simp_all add: key512_numbers)
  with d p show "BN_mod (BN_bin2bn (dd key512)) (BN_bin2bn (pd key512) - 1)
      = Some (BN_bin2bn (dpd key512))"
    by (simp add: BN_mod_def)
  have "BN_bin2bn (dd key512) mod (BN_bin2bn (qd key512) - 1) = BN_bin2bn (dqd key512)"
    by (rule mod_eqI [where k = 23749098487224936051733422236475845215241991993873661663122384615176145152686]) (simp_all add: key512_numbers)
  with d q show "BN_mod (BN_bin2bn (dd key512)) (BN_bin2bn (qd key512) - 1)
      = Some (BN_bin2bn (dqd key512))"
    by (simp add: BN_mod_def)
qed

lemma key512_fields: "compute_fields (Some key512_pqe) = Some key512"
proof (rule compute_fields_eqI [where e' = "BN_bin2bn (ed key512)"
      and d' = "BN_bin2bn (dd key512)" and dp' = "BN_bin2bn (dpd key512)"
      and dq' = "BN_bin2bn (dqd key512)" and qi' = "BN_bin2bn (qid key512)"])
  have e: "BN_bin2bn (ed key512) \<noteq> 0"
    by (simp add: key512_numbers)
  show "(if BN_bin2bn (ed key512_pqe) = 0
         then BN_mod_inverse (BN_bin2bn (dd key512_pqe))
                ((BN_bin2bn (pd key512_pqe) - 1) * (BN_bin2bn (qd key512_pqe) - 1))
         else Some (BN_bin2bn (ed key512_pqe))) = Some (BN_bin2bn (ed key512))"
    using e by (simp only: key512_pqe_parts if_False)
  show "(if BN_bin2bn (dd key512_pqe) = 0
         then BN_mod_inverse (BN_bin2bn (ed key512))
                ((BN_bin2bn (pd key512_pqe) - 1) * (BN_bin2bn (qd key512_pqe) - 1))
         else Some (BN_bin2bn (dd key512_pqe))) = Some (BN_bin2bn (dd key512))"
    by (simp only: key512_pqe_parts BN_bin2bn_None simp_thms if_True key512_inverses)
  show "if BN_bin2bn (dpd key512_pqe) = 0 \<or> BN_bin2bn (dqd key512_pqe) = 0
        then BN_mod (BN_bin2bn (dd key512)) (BN_bin2bn (pd key512_pqe) - 1)
               = Some (BN_bin2bn (dpd key512))
             \<and> BN_mod (BN_bin2bn (dd key512)) (BN_bin2bn (qd key512_pqe) - 1)
               = Some (BN_bin2bn (dqd key512))
        else BN_bin2bn (dpd key512) = BN_bin2bn (dpd key512_pqe)
             \<and> BN_bin2bn (dqd key512) = BN_bin2bn (dqd key512_pqe)"
    by (simp only: key512_pqe_parts BN_bin2bn_None simp_thms if_True key512_remainders)
  show "(if BN_bin2bn (qid key512_pqe) = 0
         then BN_mod_inverse (BN_bin2bn (qd key512_pqe)) (BN_bin2bn (pd key512_pqe))
         else Some (BN_bin2bn (qid key512_pqe))) = Some (BN_bin2bn (qid key512))"
    by (simp only: key512_pqe_parts BN_bin2bn_None simp_thms if_True key512_inverses)
  have prod: "BN_bin2bn (pd key512) * BN_bin2bn (qd key512) = BN_bin2bn (nd key512)"
    by (simp add: key512_numbers)
  have "key512 = \<lparr>nd = nd key512, ed = ed key512, dd = dd key512, pd = pd key512,
      qd = qd key512, dpd = dpd key512, dqd = dqd key512, qid = qid key512\<rparr>"
    by simp
  then show "key512 =
      \<lparr>nd = Some (BN_bn2bin (if BN_bin2bn (nd key512_pqe) = 0
                              then BN_bin2bn (pd key512_pqe) * BN_bin2bn (qd key512_pqe)
                              else BN_bin2bn (nd key512_pqe))),
       ed = Some (BN_bn2bin (BN_bin2bn (ed key512))),
       dd = Some (BN_bn2bin (BN_bin2bn (dd key512))),
       pd = Some (BN_bn2bin (BN_bin2bn (pd key512_pqe))),
       qd = Some (BN_bn2bin (BN_bin2bn (qd key512_pqe))),
       dpd = Some (BN_bn2bin (BN_bin2bn (dpd key512))),
       dqd = Some (BN_bn2bin (BN_bin2bn (dqd key512))),
       qid = Some (BN_bn2bin (BN_bin2bn (qid key512)))\<rparr>"
    by (simp only: key512_pqe_parts BN_bin2bn_None simp_thms if_True prod key512_shortest)
qed

lemma key512_pqe_sane: "bcrypto_rsa_sane_compute (Some key512_pqe)"
  by (simp add: bcrypto_rsa_sane_compute_def key512_pqe_parts key512_bits count_bits_None)
    (simp add: key512_def last_byte_def)

lemma key512_pqe_needs: "bcrypto_rsa_needs_compute (Some key512_pqe)"
  by (simp add: bcrypto_rsa_needs_compute_def key512_pqe_parts count_bits_None)

lemma key512_completed:
  "bcrypto_rsa_privkey_compute (Some key512_pqe) key0 = (True, Some key512)"
  by (simp add: bcrypto_rsa_privkey_compute_def key512_pqe_sane key512_pqe_needs key512_fields)

subsection \<open>Failure and success\<close>

text \<open>
  A failed call leaves \<^verbatim>\<open>*key\<close> as it was. A call on a sane key that needs completion
  succeeds when the inverses it has to compute exist and the moduli of the two
  remainders are not zero.
\<close>

lemma compute_failure_keeps_key:
  assumes "fst (bcrypto_rsa_privkey_compute priv key0) = False"
  shows "bcrypto_rsa_privkey_compute priv key0 = (False, key0)"
  using assms
  by (auto simp: bcrypto_rsa_privkey_compute_def split: if_splits option.splits)

lemma compute_succeeds:
  assumes sane: "bcrypto_rsa_sane_compute (Some k)"
    and needs: "bcrypto_rsa_needs_compute (Some k)"
    and e: "BN_bin2bn (ed k) = 0 \<Longrightarrow>
      \<exists>r. 0 \<le> r \<and> r < (BN_bin2bn (pd k) - 1) * (BN_bin2bn (qd k) - 1)
        \<and> (BN_bin2bn (dd k) * r) mod ((BN_bin2bn (pd k) - 1) * (BN_bin2bn (qd k) - 1)) = 1"
    and d: "BN_bin2bn (dd k) = 0 \<Longrightarrow>
      \<exists>r. 0 \<le> r \<and> r < (BN_bin2bn (pd k) - 1) * (BN_bin2bn (qd k) - 1)
        \<and> (BN_bin2bn (ed k) * r) mod ((BN_bin2bn (pd k) - 1) * (BN_bin2bn (qd k) - 1)) = 1"
    and crt: "BN_bin2bn (dpd k) = 0 \<or> BN_bin2bn (dqd k) = 0 \<Longrightarrow>
      BN_bin2bn (pd k) \<noteq> 1 \<and> BN_bin2bn (qd k) \<noteq> 1"
    and qi: "BN_bin2bn (qid k) = 0 \<Longrightarrow>
      \<exists>r. 0 \<le> r \<and> r < BN_bin2bn (pd k) \<and> (BN_bin2bn (qd k) * r) mod BN_bin2bn (pd k) = 1"
  shows "\<exists>out. bcrypto_rsa_privkey_compute (Some k) key0 = (True, Some out)"
proof -
  let ?lam = "(BN_bin2bn (pd k) - 1) * (BN_bin2bn (qd k) - 1)"
  have ed: "BN_bin2bn (ed k) = 0 \<Longrightarrow> BN_bin2bn (dd k) \<noteq> 0"
    using sane
    by (auto simp: bcrypto_rsa_sane_compute_def Let_def count_bits_eq_0_iff split: if_splits)
  obtain e' where e': "(if BN_bin2bn (ed k) = 0 then BN_mod_inverse (BN_bin2bn (dd k)) ?lam
      else Some (BN_bin2bn (ed k))) = Some e'"
    using e BN_mod_inverse_None_iff [of "BN_bin2bn (dd k)" ?lam]
    by (cases "BN_bin2bn (ed k) = 0") auto
  have e'_eq: "BN_bin2bn (dd k) = 0 \<Longrightarrow> e' = BN_bin2bn (ed k)"
    using e' ed by (auto split: if_splits)
  obtain d' where d': "(if BN_bin2bn (dd k) = 0 then BN_mod_inverse e' ?lam
      else Some (BN_bin2bn (dd k))) = Some d'"
    using d e'_eq BN_mod_inverse_None_iff [of e' ?lam]
    by (cases "BN_bin2bn (dd k) = 0") auto
  obtain dp' dq' where crt': "if BN_bin2bn (dpd k) = 0 \<or> BN_bin2bn (dqd k) = 0
      then BN_mod d' (BN_bin2bn (pd k) - 1) = Some dp'
           \<and> BN_mod d' (BN_bin2bn (qd k) - 1) = Some dq'
      else dp' = BN_bin2bn (dpd k) \<and> dq' = BN_bin2bn (dqd k)"
    using crt by (cases "BN_bin2bn (dpd k) = 0 \<or> BN_bin2bn (dqd k) = 0")
      (auto simp: BN_mod_def)
  obtain qi' where qi': "(if BN_bin2bn (qid k) = 0
      then BN_mod_inverse (BN_bin2bn (qd k)) (BN_bin2bn (pd k))
      else Some (BN_bin2bn (qid k))) = Some qi'"
    using qi BN_mod_inverse_None_iff [of "BN_bin2bn (qd k)" "BN_bin2bn (pd k)"]
    by (cases "BN_bin2bn (qid k) = 0") auto
  have "\<exists>out. compute_fields (Some k) = Some out"
    using compute_fields_eqI [OF e' d' crt' qi' refl] by blast
  then show ?thesis
    using sane needs by (auto simp: bcrypto_rsa_privkey_compute_def)
qed

subsection \<open>What completion derives and what it keeps\<close>

text \<open>
  Claim C1, as stated, fails: a \<open>dp\<close> that the caller supplied is computed again when
  \<open>dq\<close> is absent. The key \<open>key_stale_dp\<close> passes \<^verbatim>\<open>bcrypto_rsa_sane_compute\<close> and has a
  \<open>dp\<close> of bit length 3 and value 5; the completed key has \<open>dp = 53\<close>, which is
  \<open>d mod (p - 1)\<close>.
\<close>

theorem present_dp_overwritten:
  "bcrypto_rsa_sane_compute (Some key_stale_dp)
   \<and> bcrypto_rsa_needs_compute (Some key_stale_dp)
   \<and> bcrypto_rsa_privkey_compute (Some key_stale_dp) None = (True, Some key_pqe_out)
   \<and> bcrypto_count_bits (dpd key_stale_dp) = 3
   \<and> BN_bin2bn (dpd key_stale_dp) = 5
   \<and> BN_bin2bn (dpd key_pqe_out) = 53"
  using key_stale_dp_sane key_stale_dp_needs key_stale_dp_completed [of None]
  by (simp add: key_stale_dp_def key_pqe_out_def bcrypto_rsa_key_init_def count_bits_Some
      compute_floorlog BN_bin2bn_def be_value_def)

text \<open>
  Claim C1, amended. For a key that \<^verbatim>\<open>bcrypto_rsa_sane_compute\<close> accepts and that needs
  completion, a successful \<^verbatim>\<open>bcrypto_rsa_privkey_compute\<close> returns a key whose numbers
  are: \<open>n = p * q\<close> when \<open>n\<close> was absent; with \<open>r1 = p - 1\<close>, \<open>r2 = q - 1\<close> and
  \<open>lambda = r1 * r2\<close>, \<open>e\<close> the inverse of \<open>d\<close> modulo \<open>lambda\<close> when \<open>e\<close> was absent and
  \<open>d\<close> the inverse of \<open>e\<close> modulo \<open>lambda\<close> when \<open>d\<close> was absent; \<open>dp = d mod r1\<close> and
  \<open>dq = d mod r2\<close>, both, when either was absent; \<open>qInv\<close> the inverse of \<open>q\<close> modulo \<open>p\<close>
  when \<open>qInv\<close> was absent. \<open>p\<close> and \<open>q\<close> and every present one of \<open>n\<close>, \<open>e\<close>, \<open>d\<close>, \<open>qInv\<close>
  keep the caller's number; \<open>dp\<close> and \<open>dq\<close> keep it only when both were present. Absent
  means a bit length of 0.
\<close>

theorem compute_derives_fields:
  assumes sane: "bcrypto_rsa_sane_compute (Some k)"
    and needs: "bcrypto_rsa_needs_compute (Some k)"
    and res: "bcrypto_rsa_privkey_compute (Some k) key0 = (True, Some out)"
  shows "BN_bin2bn (nd out) =
           (if bcrypto_count_bits (nd k) = 0 then BN_bin2bn (pd k) * BN_bin2bn (qd k)
            else BN_bin2bn (nd k))
    \<and> BN_bin2bn (pd out) = BN_bin2bn (pd k)
    \<and> BN_bin2bn (qd out) = BN_bin2bn (qd k)
    \<and> (if bcrypto_count_bits (ed k) = 0
        then 0 \<le> BN_bin2bn (ed out)
          \<and> BN_bin2bn (ed out) < (BN_bin2bn (pd k) - 1) * (BN_bin2bn (qd k) - 1)
          \<and> (BN_bin2bn (dd k) * BN_bin2bn (ed out))
               mod ((BN_bin2bn (pd k) - 1) * (BN_bin2bn (qd k) - 1)) = 1
        else BN_bin2bn (ed out) = BN_bin2bn (ed k))
    \<and> (if bcrypto_count_bits (dd k) = 0
        then 0 \<le> BN_bin2bn (dd out)
          \<and> BN_bin2bn (dd out) < (BN_bin2bn (pd k) - 1) * (BN_bin2bn (qd k) - 1)
          \<and> (BN_bin2bn (ed k) * BN_bin2bn (dd out))
               mod ((BN_bin2bn (pd k) - 1) * (BN_bin2bn (qd k) - 1)) = 1
        else BN_bin2bn (dd out) = BN_bin2bn (dd k))
    \<and> (if bcrypto_count_bits (dpd k) = 0 \<or> bcrypto_count_bits (dqd k) = 0
        then BN_bin2bn (dpd out) = BN_bin2bn (dd out) mod (BN_bin2bn (pd k) - 1)
          \<and> BN_bin2bn (dqd out) = BN_bin2bn (dd out) mod (BN_bin2bn (qd k) - 1)
        else BN_bin2bn (dpd out) = BN_bin2bn (dpd k)
          \<and> BN_bin2bn (dqd out) = BN_bin2bn (dqd k))
    \<and> (if bcrypto_count_bits (qid k) = 0
        then 0 \<le> BN_bin2bn (qid out) \<and> BN_bin2bn (qid out) < BN_bin2bn (pd k)
          \<and> (BN_bin2bn (qd k) * BN_bin2bn (qid out)) mod BN_bin2bn (pd k) = 1
        else BN_bin2bn (qid out) = BN_bin2bn (qid k))"
proof -
  let ?n = "BN_bin2bn (nd k)" and ?e = "BN_bin2bn (ed k)" and ?d = "BN_bin2bn (dd k)"
  let ?p = "BN_bin2bn (pd k)" and ?q = "BN_bin2bn (qd k)"
  let ?dp = "BN_bin2bn (dpd k)" and ?dq = "BN_bin2bn (dqd k)" and ?qi = "BN_bin2bn (qid k)"
  let ?lam = "(?p - 1) * (?q - 1)"
  from res have "compute_fields (Some k) = Some out"
    by (rule compute_True_Some)
  then obtain e' d' dp' dq' qi' where
    e': "(if ?e = 0 then BN_mod_inverse ?d ?lam else Some ?e) = Some e'"
    and d': "(if ?d = 0 then BN_mod_inverse e' ?lam else Some ?d) = Some d'"
    and crt: "if ?dp = 0 \<or> ?dq = 0
              then BN_mod d' (?p - 1) = Some dp' \<and> BN_mod d' (?q - 1) = Some dq'
              else dp' = ?dp \<and> dq' = ?dq"
    and qi': "(if ?qi = 0 then BN_mod_inverse ?q ?p else Some ?qi) = Some qi'"
    and out: "out =
            \<lparr>nd = Some (BN_bn2bin (if ?n = 0 then ?p * ?q else ?n)),
             ed = Some (BN_bn2bin e'), dd = Some (BN_bn2bin d'),
             pd = Some (BN_bn2bin ?p), qd = Some (BN_bn2bin ?q),
             dpd = Some (BN_bn2bin dp'), dqd = Some (BN_bn2bin dq'),
             qid = Some (BN_bn2bin qi')\<rparr>"
    unfolding compute_fields_Some_iff by blast
  have p1: "1 \<le> ?p" and q1: "1 \<le> ?q"
    using sane by (rule sane_compute_factors)+
  have nn: "0 \<le> ?n" "0 \<le> ?e" "0 \<le> ?d" "0 \<le> ?dp" "0 \<le> ?dq" "0 \<le> ?qi"
    by (rule BN_bin2bn_nonneg)+
  have e'_nn: "0 \<le> e'"
    using e' nn BN_mod_inverse_SomeD(1) [of ?d ?lam e'] by (auto split: if_splits)
  have d'_nn: "0 \<le> d'"
    using d' nn BN_mod_inverse_SomeD(1) [of e' ?lam d'] by (auto split: if_splits)
  have crt_nn: "0 \<le> dp'" "0 \<le> dq'"
    using crt nn d'_nn p1 q1 BN_mod_SomeD(2) [of d' "?p - 1" dp'] BN_mod_SomeD(2) [of d' "?q - 1" dq']
    by (auto split: if_splits)
  have qi'_nn: "0 \<le> qi'"
    using qi' nn BN_mod_inverse_SomeD(1) [of ?q ?p qi'] by (auto split: if_splits)
  have vals: "BN_bin2bn (nd out) = (if ?n = 0 then ?p * ?q else ?n)"
    "BN_bin2bn (ed out) = e'" "BN_bin2bn (dd out) = d'"
    "BN_bin2bn (pd out) = ?p" "BN_bin2bn (qd out) = ?q"
    "BN_bin2bn (dpd out) = dp'" "BN_bin2bn (dqd out) = dq'" "BN_bin2bn (qid out) = qi'"
    using p1 q1 nn e'_nn d'_nn crt_nn qi'_nn by (simp_all add: out BN_bin2bn_bn2bin)
  have E: "if ?e = 0 then 0 \<le> e' \<and> e' < ?lam \<and> (?d * e') mod ?lam = 1 else e' = ?e"
    using e' BN_mod_inverse_SomeD [of ?d ?lam e'] by (auto split: if_splits)
  have "?e = 0 \<Longrightarrow> ?d \<noteq> 0"
    using sane by (auto simp: bcrypto_rsa_sane_compute_def Let_def count_bits_eq_0_iff split: if_splits)
  then have "?d = 0 \<Longrightarrow> e' = ?e"
    using E by (auto split: if_splits)
  then have D: "if ?d = 0 then 0 \<le> d' \<and> d' < ?lam \<and> (?e * d') mod ?lam = 1 else d' = ?d"
    using d' BN_mod_inverse_SomeD [of e' ?lam d'] by (auto split: if_splits)
  have C: "if ?dp = 0 \<or> ?dq = 0 then dp' = d' mod (?p - 1) \<and> dq' = d' mod (?q - 1)
           else dp' = ?dp \<and> dq' = ?dq"
    using crt d'_nn p1 q1 BN_mod_SomeD(1) [of d' "?p - 1" dp'] BN_mod_SomeD(1) [of d' "?q - 1" dq']
    by (auto split: if_splits)
  have Q: "if ?qi = 0 then 0 \<le> qi' \<and> qi' < ?p \<and> (?q * qi') mod ?p = 1 else qi' = ?qi"
    using qi' BN_mod_inverse_SomeD [of ?q ?p qi'] by (auto split: if_splits)
  from E D C Q show ?thesis
    by (simp only: vals count_bits_eq_0_iff)
qed

theorem compute_derives_fields_witness:
  "bcrypto_rsa_sane_compute (Some key_pqe)
   \<and> bcrypto_rsa_needs_compute (Some key_pqe)
   \<and> bcrypto_rsa_privkey_compute (Some key_pqe) None = (True, Some key_pqe_out)
   \<and> BN_bin2bn (nd key_pqe_out) = 61 * 53
   \<and> BN_bin2bn (ed key_pqe_out) = 17
   \<and> (17 * BN_bin2bn (dd key_pqe_out)) mod (60 * 52) = 1
   \<and> BN_bin2bn (dpd key_pqe_out) = BN_bin2bn (dd key_pqe_out) mod 60
   \<and> BN_bin2bn (dqd key_pqe_out) = BN_bin2bn (dd key_pqe_out) mod 52
   \<and> (53 * BN_bin2bn (qid key_pqe_out)) mod 61 = 1
   \<and> bcrypto_rsa_sane_compute (Some key512_pqe)
   \<and> bcrypto_rsa_needs_compute (Some key512_pqe)
   \<and> bcrypto_rsa_privkey_compute (Some key512_pqe) None = (True, Some key512)
   \<and> bcrypto_rsa_sane_privkey (Some key512)
   \<and> BN_bin2bn (nd key512) = BN_bin2bn (pd key512) * BN_bin2bn (qd key512)
   \<and> (BN_bin2bn (ed key512) * BN_bin2bn (dd key512))
        mod ((BN_bin2bn (pd key512) - 1) * (BN_bin2bn (qd key512) - 1)) = 1"
proof -
  have bits: "bcrypto_count_bits (nd key_pqe) = 0" "bcrypto_count_bits (ed key_pqe) \<noteq> 0"
    "bcrypto_count_bits (dd key_pqe) = 0" "bcrypto_count_bits (dpd key_pqe) = 0"
    "bcrypto_count_bits (qid key_pqe) = 0"
    by (simp_all add: key_pqe_def bcrypto_rsa_key_init_def count_bits_None count_bits_Some
        compute_floorlog)
  have vals: "BN_bin2bn (pd key_pqe) = 61" "BN_bin2bn (qd key_pqe) = 53"
    "BN_bin2bn (ed key_pqe) = 17"
    by (simp_all add: key_pqe_def bcrypto_rsa_key_init_def BN_bin2bn_def be_value_def)
  have small: "bcrypto_rsa_sane_compute (Some key_pqe)
   \<and> bcrypto_rsa_needs_compute (Some key_pqe)
   \<and> bcrypto_rsa_privkey_compute (Some key_pqe) None = (True, Some key_pqe_out)
   \<and> BN_bin2bn (nd key_pqe_out) = 61 * 53
   \<and> BN_bin2bn (ed key_pqe_out) = 17
   \<and> (17 * BN_bin2bn (dd key_pqe_out)) mod (60 * 52) = 1
   \<and> BN_bin2bn (dpd key_pqe_out) = BN_bin2bn (dd key_pqe_out) mod 60
   \<and> BN_bin2bn (dqd key_pqe_out) = BN_bin2bn (dd key_pqe_out) mod 52
   \<and> (53 * BN_bin2bn (qid key_pqe_out)) mod 61 = 1"
    using compute_derives_fields [OF key_pqe_sane key_pqe_needs key_pqe_completed [of None]]
      key_pqe_sane key_pqe_needs key_pqe_completed [of None]
    by (simp add: bits vals)
  have large: "BN_bin2bn (nd key512) = BN_bin2bn (pd key512) * BN_bin2bn (qd key512)
   \<and> (BN_bin2bn (ed key512) * BN_bin2bn (dd key512))
        mod ((BN_bin2bn (pd key512) - 1) * (BN_bin2bn (qd key512) - 1)) = 1"
    using compute_derives_fields [OF key512_pqe_sane key512_pqe_needs
        key512_completed [of None]]
    by (simp add: key512_pqe_parts count_bits_None key512_bits)
  from small large key512_pqe_sane key512_pqe_needs key512_completed [of None]
    key512_sane_privkey
  show ?thesis
    by - (intro conjI; (elim conjE)?; assumption)
qed

lemma compute_fields_shape:
  assumes sane: "bcrypto_rsa_sane_compute (Some k)"
    and fields: "compute_fields (Some k) = Some out"
  shows "\<exists>n' e' d' dp' dq' qi'.
      out = \<lparr>nd = Some (BN_bn2bin n'), ed = Some (BN_bn2bin e'), dd = Some (BN_bn2bin d'),
             pd = Some (BN_bn2bin (BN_bin2bn (pd k))), qd = Some (BN_bn2bin (BN_bin2bn (qd k))),
             dpd = Some (BN_bn2bin dp'), dqd = Some (BN_bn2bin dq'),
             qid = Some (BN_bn2bin qi')\<rparr>
      \<and> n' \<noteq> 0 \<and> e' \<noteq> 0 \<and> d' \<noteq> 0 \<and> qi' \<noteq> 0 \<and> 0 \<le> d'
      \<and> (BN_bin2bn (nd k) \<noteq> 0 \<longrightarrow> n' = BN_bin2bn (nd k))
      \<and> (BN_bin2bn (ed k) \<noteq> 0 \<longrightarrow> e' = BN_bin2bn (ed k))
      \<and> (BN_bin2bn (dd k) \<noteq> 0 \<longrightarrow> d' = BN_bin2bn (dd k))
      \<and> (BN_bin2bn (qid k) \<noteq> 0 \<longrightarrow> qi' = BN_bin2bn (qid k))
      \<and> (if BN_bin2bn (dpd k) = 0 \<or> BN_bin2bn (dqd k) = 0
          then dp' = d' mod (BN_bin2bn (pd k) - 1) \<and> dq' = d' mod (BN_bin2bn (qd k) - 1)
          else dp' = BN_bin2bn (dpd k) \<and> dq' = BN_bin2bn (dqd k))"
proof -
  let ?n = "BN_bin2bn (nd k)" and ?e = "BN_bin2bn (ed k)" and ?d = "BN_bin2bn (dd k)"
  let ?p = "BN_bin2bn (pd k)" and ?q = "BN_bin2bn (qd k)"
  let ?dp = "BN_bin2bn (dpd k)" and ?dq = "BN_bin2bn (dqd k)" and ?qi = "BN_bin2bn (qid k)"
  let ?lam = "(?p - 1) * (?q - 1)"
  from fields obtain e' d' dp' dq' qi' where
    e': "(if ?e = 0 then BN_mod_inverse ?d ?lam else Some ?e) = Some e'"
    and d': "(if ?d = 0 then BN_mod_inverse e' ?lam else Some ?d) = Some d'"
    and crt: "if ?dp = 0 \<or> ?dq = 0
              then BN_mod d' (?p - 1) = Some dp' \<and> BN_mod d' (?q - 1) = Some dq'
              else dp' = ?dp \<and> dq' = ?dq"
    and qi': "(if ?qi = 0 then BN_mod_inverse ?q ?p else Some ?qi) = Some qi'"
    and out: "out =
            \<lparr>nd = Some (BN_bn2bin (if ?n = 0 then ?p * ?q else ?n)),
             ed = Some (BN_bn2bin e'), dd = Some (BN_bn2bin d'),
             pd = Some (BN_bn2bin ?p), qd = Some (BN_bn2bin ?q),
             dpd = Some (BN_bn2bin dp'), dqd = Some (BN_bn2bin dq'),
             qid = Some (BN_bn2bin qi')\<rparr>"
    unfolding compute_fields_Some_iff by blast
  have p1: "1 \<le> ?p" and q1: "1 \<le> ?q"
    using sane by (rule sane_compute_factors)+
  have nn: "0 \<le> ?d"
    by (rule BN_bin2bn_nonneg)
  have n_nz: "(if ?n = 0 then ?p * ?q else ?n) \<noteq> 0"
    using p1 q1 by auto
  have e_nz: "e' \<noteq> 0"
    using e' BN_mod_inverse_nonzero [of ?d ?lam e'] by (auto split: if_splits)
  have d_nz: "d' \<noteq> 0"
    using d' BN_mod_inverse_nonzero [of e' ?lam d'] by (auto split: if_splits)
  have d_nn: "0 \<le> d'"
    using d' nn BN_mod_inverse_SomeD(1) [of e' ?lam d'] by (auto split: if_splits)
  have qi_nz: "qi' \<noteq> 0"
    using qi' BN_mod_inverse_nonzero [of ?q ?p qi'] by (auto split: if_splits)
  have C: "if ?dp = 0 \<or> ?dq = 0 then dp' = d' mod (?p - 1) \<and> dq' = d' mod (?q - 1)
           else dp' = ?dp \<and> dq' = ?dq"
    using crt d_nn p1 q1 BN_mod_SomeD(1) [of d' "?p - 1" dp'] BN_mod_SomeD(1) [of d' "?q - 1" dq']
    by (auto split: if_splits)
  have keep: "?e \<noteq> 0 \<longrightarrow> e' = ?e" "?d \<noteq> 0 \<longrightarrow> d' = ?d" "?qi \<noteq> 0 \<longrightarrow> qi' = ?qi"
    using e' d' qi' by (auto split: if_splits)
  have keep_n: "?n \<noteq> 0 \<longrightarrow> (if ?n = 0 then ?p * ?q else ?n) = ?n"
    by simp
  from out n_nz e_nz d_nz qi_nz d_nn keep_n keep C show ?thesis
    by blast
qed

text \<open>
  Claim C2, as stated, fails: the key that completion returns is not a delta. For the
  key \<open>key_pqe\<close>, which supplies \<open>p\<close>, \<open>q\<close> and \<open>e\<close> only, the returned key holds the
  caller's \<open>p\<close>, \<open>q\<close> and \<open>e\<close> next to the derived components.
\<close>

theorem completed_key_keeps_caller_fields:
  "bcrypto_rsa_sane_compute (Some key_pqe)
   \<and> bcrypto_rsa_needs_compute (Some key_pqe)
   \<and> bcrypto_rsa_privkey_compute (Some key_pqe) None = (True, Some key_pqe_out)
   \<and> pd key_pqe = Some [0x3D] \<and> pd key_pqe_out = Some [0x3D]
   \<and> qd key_pqe = Some [0x35] \<and> qd key_pqe_out = Some [0x35]
   \<and> ed key_pqe = Some [0x11] \<and> ed key_pqe_out = Some [0x11]"
  using key_pqe_sane key_pqe_needs key_pqe_completed [of None]
  by (simp add: key_pqe_def key_pqe_out_def bcrypto_rsa_key_init_def)

text \<open>
  Claim C2, amended. When \<^verbatim>\<open>bcrypto_rsa_privkey_compute\<close> succeeds on a key that needed
  completion it returns \<^verbatim>\<open>true\<close> and a key (there is an update) that is not a delta.
  Each of its eight components is a buffer, not NULL, without a leading zero byte.
  Its \<open>n\<close>, \<open>e\<close>, \<open>d\<close>, \<open>p\<close>, \<open>q\<close> and \<open>qInv\<close> have a nonzero bit length. Its \<open>p\<close> and
  \<open>q\<close> are the caller's buffers without their leading zero bytes, and so is every one
  of \<open>n\<close>, \<open>e\<close>, \<open>d\<close>, \<open>qInv\<close> that the caller supplied with a nonzero bit length. Its
  \<open>dp\<close> and \<open>dq\<close> are the caller's, in the same way, when the caller supplied both
  with a nonzero bit length; otherwise they are \<open>d mod (p - 1)\<close> and \<open>d mod (q - 1)\<close>
  for the \<open>d\<close> of the returned key. These two remainders can be 0, and then the buffer
  is empty: the returned key needs completion again exactly when its \<open>dp\<close> or its \<open>dq\<close>
  has bit length 0, as for \<open>key_zero_crt\<close>.
\<close>

theorem compute_returns_whole_key:
  assumes sane: "bcrypto_rsa_sane_compute (Some k)"
    and needs: "bcrypto_rsa_needs_compute (Some k)"
    and res: "bcrypto_rsa_privkey_compute (Some k) key0 = (True, Some out)"
  shows "has_update (bcrypto_rsa_privkey_compute (Some k) key0)
    \<and> (\<forall>b\<in>{nd out, ed out, dd out, pd out, qd out, dpd out, dqd out, qid out}.
          \<exists>bs. b = Some bs \<and> take 1 bs \<noteq> [0])
    \<and> bcrypto_count_bits (nd out) \<noteq> 0 \<and> bcrypto_count_bits (ed out) \<noteq> 0
    \<and> bcrypto_count_bits (dd out) \<noteq> 0 \<and> bcrypto_count_bits (pd out) \<noteq> 0
    \<and> bcrypto_count_bits (qd out) \<noteq> 0 \<and> bcrypto_count_bits (qid out) \<noteq> 0
    \<and> pd out = map_option skip_zero_bytes (pd k)
    \<and> qd out = map_option skip_zero_bytes (qd k)
    \<and> (bcrypto_count_bits (nd k) \<noteq> 0 \<longrightarrow> nd out = map_option skip_zero_bytes (nd k))
    \<and> (bcrypto_count_bits (ed k) \<noteq> 0 \<longrightarrow> ed out = map_option skip_zero_bytes (ed k))
    \<and> (bcrypto_count_bits (dd k) \<noteq> 0 \<longrightarrow> dd out = map_option skip_zero_bytes (dd k))
    \<and> (bcrypto_count_bits (qid k) \<noteq> 0 \<longrightarrow> qid out = map_option skip_zero_bytes (qid k))
    \<and> (if bcrypto_count_bits (dpd k) \<noteq> 0 \<and> bcrypto_count_bits (dqd k) \<noteq> 0
        then dpd out = map_option skip_zero_bytes (dpd k)
          \<and> dqd out = map_option skip_zero_bytes (dqd k)
        else BN_bin2bn (dpd out) = BN_bin2bn (dd out) mod (BN_bin2bn (pd k) - 1)
          \<and> BN_bin2bn (dqd out) = BN_bin2bn (dd out) mod (BN_bin2bn (qd k) - 1))
    \<and> (bcrypto_rsa_needs_compute (Some out) \<longleftrightarrow>
         bcrypto_count_bits (dpd out) = 0 \<or> bcrypto_count_bits (dqd out) = 0)"
proof -
  let ?p = "BN_bin2bn (pd k)" and ?q = "BN_bin2bn (qd k)"
  from res have "compute_fields (Some k) = Some out"
    by (rule compute_True_Some)
  from compute_fields_shape [OF sane this] obtain n' e' d' dp' dq' qi' where
    out: "out = \<lparr>nd = Some (BN_bn2bin n'), ed = Some (BN_bn2bin e'), dd = Some (BN_bn2bin d'),
             pd = Some (BN_bn2bin ?p), qd = Some (BN_bn2bin ?q),
             dpd = Some (BN_bn2bin dp'), dqd = Some (BN_bn2bin dq'),
             qid = Some (BN_bn2bin qi')\<rparr>"
    and nz: "n' \<noteq> 0" "e' \<noteq> 0" "d' \<noteq> 0" "qi' \<noteq> 0" and d_nn: "0 \<le> d'"
    and keep: "BN_bin2bn (nd k) \<noteq> 0 \<longrightarrow> n' = BN_bin2bn (nd k)"
      "BN_bin2bn (ed k) \<noteq> 0 \<longrightarrow> e' = BN_bin2bn (ed k)"
      "BN_bin2bn (dd k) \<noteq> 0 \<longrightarrow> d' = BN_bin2bn (dd k)"
      "BN_bin2bn (qid k) \<noteq> 0 \<longrightarrow> qi' = BN_bin2bn (qid k)"
    and crt: "if BN_bin2bn (dpd k) = 0 \<or> BN_bin2bn (dqd k) = 0
          then dp' = d' mod (?p - 1) \<and> dq' = d' mod (?q - 1)
          else dp' = BN_bin2bn (dpd k) \<and> dq' = BN_bin2bn (dqd k)"
    by blast
  have p1: "1 \<le> ?p" and q1: "1 \<le> ?q"
    using sane by (rule sane_compute_factors)+
  have pq: "bcrypto_count_bits (pd k) \<noteq> 0" "bcrypto_count_bits (qd k) \<noteq> 0"
    using p1 q1 by (simp_all add: count_bits_eq_0_iff)
  have shortest: "\<forall>b\<in>{nd out, ed out, dd out, pd out, qd out, dpd out, dqd out, qid out}.
          \<exists>bs. b = Some bs \<and> take 1 bs \<noteq> [0]"
    by (simp add: out BN_bn2bin_shortest)
  have bits: "bcrypto_count_bits (nd out) \<noteq> 0" "bcrypto_count_bits (ed out) \<noteq> 0"
    "bcrypto_count_bits (dd out) \<noteq> 0" "bcrypto_count_bits (pd out) \<noteq> 0"
    "bcrypto_count_bits (qd out) \<noteq> 0" "bcrypto_count_bits (qid out) \<noteq> 0"
    using nz p1 q1 by (simp_all add: out count_bits_bn2bin)
  have P: "pd out = map_option skip_zero_bytes (pd k)"
    and Q: "qd out = map_option skip_zero_bytes (qd k)"
    using pq by (simp_all add: out BN_bn2bin_bin2bn_the)
  have N: "bcrypto_count_bits (nd k) \<noteq> 0 \<longrightarrow> nd out = map_option skip_zero_bytes (nd k)"
    using keep(1) by (simp add: out count_bits_eq_0_iff flip: BN_bn2bin_bin2bn_the)
  have E: "bcrypto_count_bits (ed k) \<noteq> 0 \<longrightarrow> ed out = map_option skip_zero_bytes (ed k)"
    using keep(2) by (simp add: out count_bits_eq_0_iff flip: BN_bn2bin_bin2bn_the)
  have D: "bcrypto_count_bits (dd k) \<noteq> 0 \<longrightarrow> dd out = map_option skip_zero_bytes (dd k)"
    using keep(3) by (simp add: out count_bits_eq_0_iff flip: BN_bn2bin_bin2bn_the)
  have I: "bcrypto_count_bits (qid k) \<noteq> 0 \<longrightarrow> qid out = map_option skip_zero_bytes (qid k)"
    using keep(4) by (simp add: out count_bits_eq_0_iff flip: BN_bn2bin_bin2bn_the)
  have dd_out: "BN_bin2bn (dd out) = d'"
    using d_nn by (simp add: out BN_bin2bn_bn2bin)
  have "0 \<le> a mod m" if "0 \<le> a" and "0 \<le> m" for a m :: int
    using that by (cases "m = 0") simp_all
  then have mods: "0 \<le> d' mod (?p - 1)" "0 \<le> d' mod (?q - 1)"
    using d_nn p1 q1 by simp_all
  have C: "if bcrypto_count_bits (dpd k) \<noteq> 0 \<and> bcrypto_count_bits (dqd k) \<noteq> 0
        then dpd out = map_option skip_zero_bytes (dpd k)
          \<and> dqd out = map_option skip_zero_bytes (dqd k)
        else BN_bin2bn (dpd out) = BN_bin2bn (dd out) mod (?p - 1)
          \<and> BN_bin2bn (dqd out) = BN_bin2bn (dd out) mod (?q - 1)"
  proof (cases "bcrypto_count_bits (dpd k) \<noteq> 0 \<and> bcrypto_count_bits (dqd k) \<noteq> 0")
    case True
    then show ?thesis
      using crt by (simp add: out count_bits_eq_0_iff flip: BN_bn2bin_bin2bn_the)
  next
    case False
    then have "BN_bin2bn (dpd k) = 0 \<or> BN_bin2bn (dqd k) = 0"
      by (simp add: count_bits_eq_0_iff)
    with crt have "dp' = d' mod (?p - 1)" "dq' = d' mod (?q - 1)"
      by simp_all
    with mods have "BN_bin2bn (dpd out) = BN_bin2bn (dd out) mod (?p - 1)
          \<and> BN_bin2bn (dqd out) = BN_bin2bn (dd out) mod (?q - 1)"
      by (simp add: dd_out) (simp add: out BN_bin2bn_bn2bin)
    then show ?thesis
      unfolding if_not_P [OF False] .
  qed
  have again: "bcrypto_rsa_needs_compute (Some out) \<longleftrightarrow>
         bcrypto_count_bits (dpd out) = 0 \<or> bcrypto_count_bits (dqd out) = 0"
    using bits by (simp add: bcrypto_rsa_needs_compute_def)
  have upd: "has_update (bcrypto_rsa_privkey_compute (Some k) key0)"
    by (simp add: res has_update_def)
  from upd shortest bits P Q N E D I C again show ?thesis
    by - (intro conjI; assumption)
qed

theorem compute_returns_whole_key_witness:
  "bcrypto_rsa_sane_compute (Some key_stale_dp)
   \<and> bcrypto_rsa_needs_compute (Some key_stale_dp)
   \<and> bcrypto_rsa_privkey_compute (Some key_stale_dp) None = (True, Some key_pqe_out)
   \<and> has_update (bcrypto_rsa_privkey_compute (Some key_stale_dp) None)
   \<and> pd key_pqe_out = pd key_stale_dp
   \<and> qd key_pqe_out = qd key_stale_dp
   \<and> ed key_pqe_out = ed key_stale_dp
   \<and> dd key_pqe_out = dd key_stale_dp
   \<and> bcrypto_count_bits (nd key_pqe_out) \<noteq> 0
   \<and> bcrypto_count_bits (qid key_pqe_out) \<noteq> 0
   \<and> BN_bin2bn (dpd key_pqe_out) = BN_bin2bn (dd key_pqe_out) mod 60
   \<and> BN_bin2bn (dqd key_pqe_out) = BN_bin2bn (dd key_pqe_out) mod 52
   \<and> \<not> bcrypto_rsa_needs_compute (Some key_pqe_out)
   \<and> bcrypto_rsa_sane_compute (Some key_zero_crt)
   \<and> bcrypto_rsa_needs_compute (Some key_zero_crt)
   \<and> bcrypto_rsa_privkey_compute (Some key_zero_crt) None = (True, Some key_zero_crt_out)
   \<and> dpd key_zero_crt_out = Some [] \<and> dqd key_zero_crt_out = Some []
   \<and> bcrypto_rsa_needs_compute (Some key_zero_crt_out)"
proof -
  have bits: "bcrypto_count_bits (ed key_stale_dp) \<noteq> 0" "bcrypto_count_bits (dd key_stale_dp) \<noteq> 0"
    "bcrypto_count_bits (dqd key_stale_dp) = 0"
    "bcrypto_count_bits (dpd key_pqe_out) \<noteq> 0" "bcrypto_count_bits (dqd key_pqe_out) \<noteq> 0"
    by (simp_all add: key_stale_dp_def key_pqe_out_def bcrypto_rsa_key_init_def count_bits_None
        count_bits_Some compute_floorlog)
  have strip: "map_option skip_zero_bytes (pd key_stale_dp) = pd key_stale_dp"
    "map_option skip_zero_bytes (qd key_stale_dp) = qd key_stale_dp"
    "map_option skip_zero_bytes (ed key_stale_dp) = ed key_stale_dp"
    "map_option skip_zero_bytes (dd key_stale_dp) = dd key_stale_dp"
    by (simp_all add: key_stale_dp_def bcrypto_rsa_key_init_def)
  have vals: "BN_bin2bn (pd key_stale_dp) = 61" "BN_bin2bn (qd key_stale_dp) = 53"
    by (simp_all add: key_stale_dp_def bcrypto_rsa_key_init_def BN_bin2bn_def be_value_def)
  have stale: "bcrypto_rsa_sane_compute (Some key_stale_dp)
   \<and> bcrypto_rsa_needs_compute (Some key_stale_dp)
   \<and> bcrypto_rsa_privkey_compute (Some key_stale_dp) None = (True, Some key_pqe_out)
   \<and> has_update (bcrypto_rsa_privkey_compute (Some key_stale_dp) None)
   \<and> pd key_pqe_out = pd key_stale_dp
   \<and> qd key_pqe_out = qd key_stale_dp
   \<and> ed key_pqe_out = ed key_stale_dp
   \<and> dd key_pqe_out = dd key_stale_dp
   \<and> bcrypto_count_bits (nd key_pqe_out) \<noteq> 0
   \<and> bcrypto_count_bits (qid key_pqe_out) \<noteq> 0
   \<and> BN_bin2bn (dpd key_pqe_out) = BN_bin2bn (dd key_pqe_out) mod 60
   \<and> BN_bin2bn (dqd key_pqe_out) = BN_bin2bn (dd key_pqe_out) mod 52
   \<and> \<not> bcrypto_rsa_needs_compute (Some key_pqe_out)"
    using compute_returns_whole_key [OF key_stale_dp_sane key_stale_dp_needs
        key_stale_dp_completed [of None]]
      key_stale_dp_sane key_stale_dp_needs key_stale_dp_completed [of None]
    by (simp add: bits strip vals)
  have zero_bits: "bcrypto_count_bits (dpd key_zero_crt_out) = 0"
    by (simp add: key_zero_crt_out_def count_bits_Some)
  have zero: "bcrypto_rsa_needs_compute (Some key_zero_crt_out)"
    using compute_returns_whole_key [OF key_zero_crt_sane key_zero_crt_needs
        key_zero_crt_completed [of None]]
    by (simp add: zero_bits)
  have empty: "dpd key_zero_crt_out = Some []" "dqd key_zero_crt_out = Some []"
    by (simp_all add: key_zero_crt_out_def)
  from stale zero empty key_zero_crt_sane key_zero_crt_needs key_zero_crt_completed [of None]
  show ?thesis
    by - (intro conjI; (elim conjE)?; assumption)
qed

section \<open>Keys that are already complete\<close>

text \<open>
  Claim C8. A key needs completion (\<^verbatim>\<open>bcrypto_rsa_needs_compute\<close>) exactly when one of
  \<open>n\<close>, \<open>e\<close>, \<open>d\<close>, \<open>dp\<close>, \<open>dq\<close>, \<open>qInv\<close> has bit length 0; \<open>p\<close> and \<open>q\<close> are not looked at.
  On a key that \<^verbatim>\<open>bcrypto_rsa_sane_compute\<close> accepts and in which none of the six has
  bit length 0, \<^verbatim>\<open>bcrypto_rsa_privkey_compute\<close> computes nothing: the call succeeds
  (it returns \<^verbatim>\<open>true\<close>, there is no error) and it stores the null key in \<^verbatim>\<open>*key\<close>, so
  there is no update and no key, the pair \<open>(false, none)\<close> of the contract.
\<close>

theorem needs_compute_noop:
  "(bcrypto_rsa_needs_compute (Some k) \<longleftrightarrow>
      bcrypto_count_bits (nd k) = 0 \<or> bcrypto_count_bits (ed k) = 0
      \<or> bcrypto_count_bits (dd k) = 0 \<or> bcrypto_count_bits (dpd k) = 0
      \<or> bcrypto_count_bits (dqd k) = 0 \<or> bcrypto_count_bits (qid k) = 0)
   \<and> (bcrypto_rsa_sane_compute (Some k)
        \<and> bcrypto_count_bits (nd k) \<noteq> 0 \<and> bcrypto_count_bits (ed k) \<noteq> 0
        \<and> bcrypto_count_bits (dd k) \<noteq> 0 \<and> bcrypto_count_bits (dpd k) \<noteq> 0
        \<and> bcrypto_count_bits (dqd k) \<noteq> 0 \<and> bcrypto_count_bits (qid k) \<noteq> 0 \<longrightarrow>
        bcrypto_rsa_privkey_compute (Some k) key0 = (True, None)
        \<and> \<not> has_update (bcrypto_rsa_privkey_compute (Some k) key0))"
  by (simp add: bcrypto_rsa_needs_compute_def bcrypto_rsa_privkey_compute_def has_update_def)

theorem needs_compute_noop_witness:
  "\<not> bcrypto_rsa_needs_compute (Some key512)
   \<and> bcrypto_rsa_sane_compute (Some key512)
   \<and> bcrypto_rsa_privkey_compute (Some key512) (Some key_pqe) = (True, None)
   \<and> \<not> has_update (bcrypto_rsa_privkey_compute (Some key512) (Some key_pqe))
   \<and> bcrypto_rsa_needs_compute (Some (key512\<lparr>pd := None, dqd := Some [0x00]\<rparr>))
   \<and> \<not> bcrypto_rsa_needs_compute (Some (key512\<lparr>pd := None, qd := None\<rparr>))"
  using needs_compute_noop [of key512 "Some key_pqe"]
    needs_compute_noop [of "key512\<lparr>pd := None, dqd := Some [0x00]\<rparr>" None]
    needs_compute_noop [of "key512\<lparr>pd := None, qd := None\<rparr>" None]
    key512_sane_compute
  by (simp add: key512_bits count_bits_Some has_update_def)

section \<open>Verification\<close>

lemma rsa_type_unsupported:
  "bcrypto_rsa_type alg = - 1 \<longleftrightarrow>
     alg \<notin> {Some ''md5'', Some ''ripemd160'', Some ''sha1'', Some ''sha224'', Some ''sha256'',
       Some ''sha384'', Some ''sha512''}"
  by (cases alg)
    (simp_all add: bcrypto_rsa_type_def NID_md5_def NID_ripemd160_def NID_sha1_def
      NID_sha224_def NID_sha256_def NID_sha384_def NID_sha512_def)

text \<open>
  Claim C5. \<^verbatim>\<open>bcrypto_rsa_verify\<close> returns the boolean false, and nothing else that
  a caller could tell apart, when the algorithm name is not one of the seven supported
  names, when the public key fails \<^verbatim>\<open>bcrypto_rsa_sane_pubkey\<close>, when the signature is
  absent or its length is outside \<open>[1, 3072]\<close>, and when \<^verbatim>\<open>RSA_verify\<close> rejects the
  signature for the message (as for a signature with a flipped bit). This holds for
  every behaviour of the primitive \<^verbatim>\<open>RSA_verify\<close>.
\<close>

theorem verify_false:
  assumes "alg \<notin> {Some ''md5'', Some ''ripemd160'', Some ''sha1'', Some ''sha224'',
             Some ''sha256'', Some ''sha384'', Some ''sha512''}
           \<or> \<not> bcrypto_rsa_sane_pubkey pub
           \<or> sig = None \<or> buf_len sig < 1 \<or> buf_len sig > 3072
           \<or> (\<forall>pub_r. bcrypto_rsa_key2pub pub = Some pub_r \<longrightarrow>
                 \<not> RSA_verify (bcrypto_rsa_type alg) (the msg) (the sig) pub_r)"
  shows "bcrypto_rsa_verify RSA_verify alg msg sig pub = False"
proof -
  have "bcrypto_rsa_type alg = - 1 \<or> \<not> bcrypto_rsa_sane_pubkey pub
        \<or> sig = None \<or> buf_len sig < 1 \<or> buf_len sig > 3072
        \<or> (\<forall>pub_r. bcrypto_rsa_key2pub pub = Some pub_r \<longrightarrow>
              \<not> RSA_verify (bcrypto_rsa_type alg) (the msg) (the sig) pub_r)"
    using assms by (simp only: rsa_type_unsupported)
  then show ?thesis
    by (auto simp: bcrypto_rsa_verify_def Let_def split: option.splits)
qed

theorem verify_false_witness:
  "bcrypto_rsa_verify (\<lambda>type m s r. True) (Some ''sha3'') (Some [0x01]) (Some [0x02])
     (Some key512) = False
   \<and> bcrypto_rsa_verify (\<lambda>type m s r. True) (Some ''sha256'') (Some [0x01]) (Some [0x02])
     (Some key_pqe) = False
   \<and> bcrypto_rsa_verify (\<lambda>type m s r. True) (Some ''sha256'') (Some [0x01]) (Some [])
     (Some key512) = False
   \<and> bcrypto_rsa_verify (\<lambda>type m s r. True) (Some ''sha256'') (Some [0x01])
     (Some (replicate 3073 0x02)) (Some key512) = False
   \<and> bcrypto_rsa_verify (\<lambda>type m s r. s \<noteq> [0x03]) (Some ''sha256'') (Some [0x01])
     (Some [0x03]) (Some key512) = False
   \<and> bcrypto_rsa_verify (\<lambda>type m s r. s \<noteq> [0x03]) (Some ''sha256'') (Some [0x01])
     (Some [0x02]) (Some key512) = True"
proof -
  have "\<not> bcrypto_rsa_sane_pubkey (Some key_pqe)"
    by (simp add: sane_pubkey_Some key_pqe_def bcrypto_rsa_key_init_def count_bits_None)
  moreover have "bcrypto_rsa_verify (\<lambda>type m s r. s \<noteq> [0x03]) (Some ''sha256'') (Some [0x01])
     (Some [0x02]) (Some key512) = True"
    using key512_sane_pubkey
    by (simp add: bcrypto_rsa_verify_def bcrypto_rsa_type_def NID_sha256_def buf_len_def
        bcrypto_rsa_key2pub_def RSA_set0_key_def RSA_new_def)
  ultimately show ?thesis
    using verify_false [of "Some ''sha3''" "Some key512" "Some [0x02]" "\<lambda>type m s r. True" "Some [0x01]"]
      verify_false [of "Some ''sha256''" "Some key_pqe" "Some [0x02]" "\<lambda>type m s r. True" "Some [0x01]"]
      verify_false [of "Some ''sha256''" "Some key512" "Some []" "\<lambda>type m s r. True" "Some [0x01]"]
      verify_false [of "Some ''sha256''" "Some key512" "Some (replicate 3073 0x02)" "\<lambda>type m s r. True" "Some [0x01]"]
      verify_false [of "Some ''sha256''" "Some key512" "Some [0x03]" "\<lambda>type m s r. s \<noteq> [0x03]" "Some [0x01]"]
    by (simp add: buf_len_def)
qed

text \<open>
  Claim C10. \<^verbatim>\<open>bcrypto_rsa_verify\<close> checks the message as \<^verbatim>\<open>bcrypto_rsa_sign\<close> does:
  when the message is absent, empty or longer than 64 bytes, verification returns false
  whatever the algorithm, the signature, the key and the primitive say, and signing
  fails too.
\<close>

theorem verify_message_length:
  assumes "msg = None \<or> buf_len msg = 0 \<or> 64 < buf_len msg"
  shows "bcrypto_rsa_verify RSA_verify alg msg sig pub = False
         \<and> bcrypto_rsa_sign RSA_blinding_on RSA_sign alg msg priv = None"
  using assms by (auto simp: bcrypto_rsa_verify_def bcrypto_rsa_sign_def Let_def)

theorem verify_message_length_witness:
  "bcrypto_rsa_verify (\<lambda>type m s r. True) (Some ''sha256'') None (Some [0x02]) (Some key512)
     = False
   \<and> bcrypto_rsa_verify (\<lambda>type m s r. True) (Some ''sha256'') (Some []) (Some [0x02])
     (Some key512) = False
   \<and> bcrypto_rsa_verify (\<lambda>type m s r. True) (Some ''sha256'') (Some (replicate 65 0x01))
     (Some [0x02]) (Some key512) = False
   \<and> bcrypto_rsa_verify (\<lambda>type m s r. True) (Some ''sha256'') (Some (replicate 64 0x01))
     (Some [0x02]) (Some key512) = True
   \<and> bcrypto_rsa_sign (\<lambda>r. True) (\<lambda>type m r. Some [0x02]) (Some ''sha256'')
     (Some (replicate 65 0x01)) (Some key512) = None"
proof -
  have "bcrypto_rsa_verify (\<lambda>type m s r. True) (Some ''sha256'') (Some (replicate 64 0x01))
     (Some [0x02]) (Some key512) = True"
    using key512_sane_pubkey
    by (simp add: bcrypto_rsa_verify_def bcrypto_rsa_type_def NID_sha256_def buf_len_def
        bcrypto_rsa_key2pub_def RSA_set0_key_def RSA_new_def)
  then show ?thesis
    using verify_message_length [of None "\<lambda>type m s r. True" "Some ''sha256''" "Some [0x02]" "Some key512"]
      verify_message_length [of "Some []" "\<lambda>type m s r. True" "Some ''sha256''" "Some [0x02]" "Some key512"]
      verify_message_length [of "Some (replicate 65 0x01)" "\<lambda>type m s r. True" "Some ''sha256''"
        "Some [0x02]" "Some key512" "\<lambda>r. True" "\<lambda>type m r. Some [0x02]" "Some key512"]
    by (simp add: buf_len_def)
qed

section \<open>The codec\<close>

text \<open>Decoding what the encoder wrote gives the numbers back, and leaves what follows.\<close>

lemma be_bytes_length_le: "n < 256 ^ k \<Longrightarrow> length (be_bytes n) \<le> k"
proof (induction n arbitrary: k rule: be_bytes.induct)
  case (1 n)
  show ?case
  proof (cases "n = 0")
    case True
    then show ?thesis by (simp add: be_bytes.simps [of 0])
  next
    case False
    with "1.prems" obtain j where k: "k = Suc j"
      by (cases k) auto
    with "1.prems" have "n div 256 < 256 ^ j"
      by (simp add: less_mult_imp_div_less mult.commute)
    with "1.IH" False have "length (be_bytes (n div 256)) \<le> j"
      by simp
    with False k show ?thesis
      by (subst be_bytes.simps) simp
  qed
qed

lemma be_bytes_length_le_self: "length (be_bytes n) \<le> n"
proof -
  have "n < 256 ^ n"
    by (rule less_le_trans [of n "2 ^ n"]) (simp_all add: power_mono)
  then show ?thesis
    by (rule be_bytes_length_le)
qed

lemma be_bytes_eq_Nil_iff: "be_bytes n = [] \<longleftrightarrow> n = 0"
  by (subst be_bytes.simps) simp

lemma unat_of_nat_byte: "n < 256 \<Longrightarrow> unat (of_nat n :: 8 word) = n"
  by (simp add: unat_of_nat)

lemma asn1_get_put_length:
  assumes "n < 256 ^ 127"
  shows "asn1_get_length (asn1_put_length n @ rest) = Some (n, rest)"
proof (cases "n \<le> 127")
  case True
  then have u: "unat (of_nat n :: 8 word) = n"
    by (simp add: unat_of_nat_byte)
  then have "(of_nat n :: 8 word) < 0x80"
    using True by (simp add: word_less_nat_alt)
  with True u show ?thesis
    by (simp add: asn1_put_length_def asn1_get_length_def)
next
  case False
  let ?bs = "be_bytes n"
  have len: "length ?bs \<le> 127"
    using assms by (rule be_bytes_length_le)
  have pos: "0 < length ?bs"
    using False by (simp add: be_bytes_eq_Nil_iff)
  have u: "unat (of_nat (128 + length ?bs) :: 8 word) = 128 + length ?bs"
    using len by (intro unat_of_nat_byte) simp
  then have "\<not> (of_nat (128 + length ?bs) :: 8 word) < 0x80"
    by (simp add: word_less_nat_alt)
  with False u pos show ?thesis
    by (simp add: asn1_put_length_def asn1_get_length_def Let_def be_value_be_bytes)
qed

lemma asn1_get_put_object:
  assumes "length c < 256 ^ 127"
  shows "asn1_get_object tag (asn1_put_object tag c @ rest) = Some (c, rest)"
  using asn1_get_put_length [OF assms, of "c @ rest"]
  by (simp add: asn1_put_object_def asn1_get_object_def)

lemma asn1_put_length_length: "length (asn1_put_length n) \<le> n + 2"
  using be_bytes_length_le_self [of n] by (simp add: asn1_put_length_def)

lemma asn1_put_object_length: "length (asn1_put_object tag c) \<le> 2 * length c + 3"
  using asn1_put_length_length [of "length c"] by (simp add: asn1_put_object_def)

lemma asn1_put_object_not_Nil: "asn1_put_object tag c \<noteq> []"
  by (simp add: asn1_put_object_def)

lemma be_value_bn_i2c: "0 \<le> a \<Longrightarrow> be_value (bn_i2c a) = a"
  by (simp add: bn_i2c_def BN_bn2bin_def be_value_zero_Cons be_value_be_bytes)

lemma bn_i2c_length: "length (bn_i2c a) \<le> length (BN_bn2bin a) + 1"
  by (simp add: bn_i2c_def)

lemma fits_i2d_length: "fits a \<Longrightarrow> length (i2d_INTEGER a) \<le> 4101"
  using asn1_put_object_length [of 2 "bn_i2c a"] bn_i2c_length [of a]
  by (simp add: fits_def i2d_INTEGER_def)

lemma concat_i2d_length:
  "\<forall>x\<in>set xs. fits x \<Longrightarrow> length (concat (map i2d_INTEGER xs)) \<le> 4101 * length xs"
proof (induction xs)
  case Nil
  then show ?case by simp
next
  case (Cons x xs)
  then show ?case
    using fits_i2d_length [of x] by simp
qed

lemma d2i_i2d_INTEGERs:
  assumes "\<forall>x\<in>set xs. fits x"
  shows "d2i_INTEGERs (length xs) (concat (map i2d_INTEGER xs) @ rest) = Some (xs, rest)"
  using assms
proof (induction xs)
  case Nil
  then show ?case by simp
next
  case (Cons x xs)
  then have x: "0 \<le> x" "length (BN_bn2bin x) \<le> 2048"
    by (simp_all add: fits_def)
  have "length (bn_i2c x) < 256 ^ 127"
    using bn_i2c_length [of x] x(2) by simp
  then have "asn1_get_object 0x02 (i2d_INTEGER x @ concat (map i2d_INTEGER xs) @ rest)
      = Some (bn_i2c x, concat (map i2d_INTEGER xs) @ rest)"
    unfolding i2d_INTEGER_def by (rule asn1_get_put_object)
  with Cons x(1) show ?case
    by (simp add: be_value_bn_i2c)
qed

subsection \<open>The numbers of a sane private key are short\<close>

lemma bn2bin_length_bits: "8 * length (BN_bn2bin (BN_bin2bn b)) \<le> bcrypto_count_bits b + 7"
proof (cases b)
  case None
  then show ?thesis
    by (simp add: BN_bin2bn_def BN_bn2bin_def be_bytes.simps [of 0])
next
  case (Some bs)
  show ?thesis
  proof (cases "dropWhile (\<lambda>b. b = 0) bs")
    case Nil
    with Some show ?thesis
      by (simp add: BN_bn2bin_bin2bn skip_zero_bytes_dropWhile del: dropWhile_eq_Nil_conv)
  next
    case (Cons oct rest)
    then have "oct \<noteq> 0"
      using hd_dropWhile [of "\<lambda>b. b = 0" bs] by auto
    then have "0 < floorlog 2 (unat oct)"
      using floorlog_eq_zero_iff [of 2 "unat oct"] by (cases "floorlog 2 (unat oct)")
        (simp_all add: unat_eq_0)
    with Some Cons show ?thesis
      by (simp add: BN_bn2bin_bin2bn skip_zero_bytes_dropWhile count_bits_Some)
  qed
qed

lemma fits_bits: "bcrypto_count_bits b \<le> 16384 \<Longrightarrow> fits (BN_bin2bn b)"
  using bn2bin_length_bits [of b] by (simp add: fits_def BN_bin2bn_nonneg)

lemma sane_privkey_bits:
  assumes "bcrypto_rsa_sane_privkey (Some k)"
  shows "bcrypto_count_bits (nd k) \<le> 16384" "bcrypto_count_bits (ed k) \<le> 16384"
    "bcrypto_count_bits (dd k) \<le> 16384" "bcrypto_count_bits (pd k) \<le> 16384"
    "bcrypto_count_bits (qd k) \<le> 16384" "bcrypto_count_bits (dpd k) \<le> 16384"
    "bcrypto_count_bits (dqd k) \<le> 16384" "bcrypto_count_bits (qid k) \<le> 16384"
    and "bcrypto_count_bits (nd k) \<noteq> 0" "bcrypto_count_bits (ed k) \<noteq> 0"
    "bcrypto_count_bits (dd k) \<noteq> 0" "bcrypto_count_bits (pd k) \<noteq> 0"
    "bcrypto_count_bits (qd k) \<noteq> 0" "bcrypto_count_bits (dpd k) \<noteq> 0"
    "bcrypto_count_bits (dqd k) \<noteq> 0" "bcrypto_count_bits (qid k) \<noteq> 0"
  using assms unfolding sane_privkey_Some sane_pubkey_Some by simp_all


subsection \<open>Export, then import\<close>

lemma d2i_i2d_RSAPrivateKey:
  assumes "fits n" "fits e" "fits d" "fits p" "fits q" "fits dp" "fits dq" "fits qi"
  defines "r \<equiv> \<lparr>rsa_version = 0, rsa_n = Some n, rsa_e = Some e, rsa_d = Some d,
      rsa_p = Some p, rsa_q = Some q, rsa_dmp1 = Some dp, rsa_dmq1 = Some dq,
      rsa_iqmp = Some qi\<rparr>"
  shows "\<exists>der. i2d_RSAPrivateKey r = Some der \<and> der \<noteq> []
           \<and> (\<forall>rest. d2i_RSAPrivateKey (der @ rest) = Some (r, rest))"
proof -
  define xs where "xs = [0, n, e, d, p, q, dp, dq, qi]"
  define content where "content = concat (map i2d_INTEGER xs)"
  have "fits 0"
    by (simp add: fits_def BN_bn2bin_def be_bytes.simps [of 0])
  with assms(1-8) have all: "\<forall>x\<in>set xs. fits x"
    by (simp add: xs_def)
  have nine: "length xs = 9"
    by (simp add: xs_def)
  have "length content \<le> 4101 * length xs"
    unfolding content_def using all by (rule concat_i2d_length)
  then have len: "length content < 256 ^ 127"
    by (simp add: nine)
  have "d2i_INTEGERs (length xs) (content @ []) = Some (xs, [])"
    unfolding content_def using all by (rule d2i_i2d_INTEGERs)
  then have ints: "d2i_INTEGERs 9 content = Some (xs, [])"
    by (simp only: nine append_Nil2)
  have "d2i_RSAPrivateKey (asn1_put_object 0x30 content @ rest) = Some (r, rest)" for rest
    by (simp add: d2i_RSAPrivateKey_def asn1_get_put_object [OF len] ints)
      (simp add: xs_def r_def)
  moreover have "i2d_RSAPrivateKey r = Some (asn1_put_object 0x30 content)"
    by (simp add: i2d_RSAPrivateKey_def r_def content_def xs_def)
  ultimately show ?thesis
    by (simp add: asn1_put_object_not_Nil)
qed

lemma privkey_export_import:
  assumes sane: "bcrypto_rsa_sane_privkey (Some k)"
  shows "\<exists>der. bcrypto_rsa_privkey_export (Some k) = Some der
           \<and> (\<forall>rest. bcrypto_rsa_privkey_import (der @ rest) = Some (strip_key k))"
proof -
  note bits = sane_privkey_bits [OF sane]
  let ?r = "\<lparr>rsa_version = 0, rsa_n = Some (BN_bin2bn (nd k)), rsa_e = Some (BN_bin2bn (ed k)),
       rsa_d = Some (BN_bin2bn (dd k)), rsa_p = Some (BN_bin2bn (pd k)),
       rsa_q = Some (BN_bin2bn (qd k)), rsa_dmp1 = Some (BN_bin2bn (dpd k)),
       rsa_dmq1 = Some (BN_bin2bn (dqd k)), rsa_iqmp = Some (BN_bin2bn (qid k))\<rparr>"
  obtain der where der: "i2d_RSAPrivateKey ?r = Some der" "der \<noteq> []"
    and dec: "\<And>rest. d2i_RSAPrivateKey (der @ rest) = Some (?r, rest)"
    using d2i_i2d_RSAPrivateKey [OF bits(1-8) [THEN fits_bits]] by blast
  have "bcrypto_rsa_privkey_export (Some k) = Some der"
    using sane der by (simp add: bcrypto_rsa_privkey_export_def key2priv_Some)
  moreover have "bcrypto_rsa_privkey_import (der @ rest) = Some (strip_key k)" for rest
    using bits(9-16)
    by (simp add: bcrypto_rsa_privkey_import_def dec priv2key_full strip_key_def
        BN_bn2bin_bin2bn_the)
  ultimately show ?thesis
    by blast
qed

subsection \<open>Bytes after the SEQUENCE\<close>

text \<open>
  The decoder reads the SEQUENCE at the front and hands back the rest, so bytes that
  follow a decodable input change only that rest; import never looks at it.
\<close>

lemma asn1_get_length_append:
  assumes "asn1_get_length bs = Some (n, rest)"
  shows "asn1_get_length (bs @ g) = Some (n, rest @ g)"
  using assms
  by (cases bs) (auto simp: asn1_get_length_def Let_def split: if_splits)

lemma asn1_get_object_append:
  assumes "asn1_get_object tag bs = Some (c, rest)"
  shows "asn1_get_object tag (bs @ g) = Some (c, rest @ g)"
proof -
  from assms obtain t bs' len rest' where bs: "bs = t # bs'" and t: "t = tag"
    and l: "asn1_get_length bs' = Some (len, rest')" and ok: "len \<le> length rest'"
    and c: "c = take len rest'" and rest: "rest = drop len rest'"
    by (cases bs) (auto simp: asn1_get_object_def bind_eq_Some_conv split: if_splits)
  from l have "asn1_get_length (bs' @ g) = Some (len, rest' @ g)"
    by (rule asn1_get_length_append)
  with bs t ok c rest show ?thesis
    by (simp add: asn1_get_object_def)
qed

lemma d2i_RSAPrivateKey_append:
  assumes "d2i_RSAPrivateKey raw = Some (r, rest)"
  shows "d2i_RSAPrivateKey (raw @ g) = Some (r, rest @ g)"
proof -
  from assms obtain content rest0 where
    obj: "asn1_get_object 0x30 raw = Some (content, rest0)"
    by (auto simp: d2i_RSAPrivateKey_def bind_eq_Some_conv)
  from obj have "asn1_get_object 0x30 (raw @ g) = Some (content, rest0 @ g)"
    by (rule asn1_get_object_append)
  with assms obj show ?thesis
    by (auto simp: d2i_RSAPrivateKey_def bind_eq_Some_conv split: if_splits list.splits)
qed

lemma d2i_RSAPublicKey_append:
  assumes "d2i_RSAPublicKey raw = Some (r, rest)"
  shows "d2i_RSAPublicKey (raw @ g) = Some (r, rest @ g)"
proof -
  from assms obtain content rest0 where
    obj: "asn1_get_object 0x30 raw = Some (content, rest0)"
    by (auto simp: d2i_RSAPublicKey_def bind_eq_Some_conv)
  from obj have "asn1_get_object 0x30 (raw @ g) = Some (content, rest0 @ g)"
    by (rule asn1_get_object_append)
  with assms obj show ?thesis
    by (auto simp: d2i_RSAPublicKey_def bind_eq_Some_conv split: if_splits list.splits)
qed

lemma d2i_RSAPrivateKey_full:
  assumes "d2i_RSAPrivateKey raw = Some (r, rest)"
  shows "bcrypto_rsa_priv2key (Some r) \<noteq> None"
  using assms
  by (auto simp: d2i_RSAPrivateKey_def bind_eq_Some_conv priv2key_full
      split: if_splits list.splits)

lemma d2i_RSAPublicKey_full:
  assumes "d2i_RSAPublicKey raw = Some (r, rest)"
  shows "bcrypto_rsa_pub2key (Some r) \<noteq> None"
  using assms
  by (auto simp: d2i_RSAPublicKey_def bind_eq_Some_conv bcrypto_rsa_pub2key_def RSA_new_def
      split: if_splits list.splits)

lemma privkey_import_None_iff:
  "bcrypto_rsa_privkey_import raw = None \<longleftrightarrow> d2i_RSAPrivateKey raw = None"
  using d2i_RSAPrivateKey_full [of raw]
  by (auto simp: bcrypto_rsa_privkey_import_def split: option.splits)

lemma pubkey_import_None_iff:
  "bcrypto_rsa_pubkey_import raw = None \<longleftrightarrow> d2i_RSAPublicKey raw = None"
  using d2i_RSAPublicKey_full [of raw]
  by (auto simp: bcrypto_rsa_pubkey_import_def split: option.splits)

text \<open>Import, and import with the model decoder as its parameter, are one function.\<close>

lemma privkey_import_with_model:
  "bcrypto_rsa_privkey_import = bcrypto_rsa_privkey_import_with d2i_RSAPrivateKey"
  by (rule ext) (simp add: bcrypto_rsa_privkey_import_def bcrypto_rsa_privkey_import_with_def)

lemma pubkey_import_with_model:
  "bcrypto_rsa_pubkey_import = bcrypto_rsa_pubkey_import_with d2i_RSAPublicKey"
  by (rule ext) (simp add: bcrypto_rsa_pubkey_import_def bcrypto_rsa_pubkey_import_with_def)

lemma priv2key_None_iff:
  "bcrypto_rsa_priv2key (Some r) = None \<longleftrightarrow>
     rsa_n r = None \<or> rsa_e r = None \<or> rsa_d r = None \<or> rsa_p r = None \<or> rsa_q r = None
     \<or> rsa_dmp1 r = None \<or> rsa_dmq1 r = None \<or> rsa_iqmp r = None"
  by (auto simp: bcrypto_rsa_priv2key_def bind_eq_None_conv)

lemma pub2key_None_iff:
  "bcrypto_rsa_pub2key (Some r) = None \<longleftrightarrow> rsa_n r = None \<or> rsa_e r = None"
  by (auto simp: bcrypto_rsa_pub2key_def bind_eq_None_conv)

subsection \<open>The number of fields\<close>

text \<open>
  A SEQUENCE of INTEGERs in DER, whatever the content octets of the INTEGERs: the
  decoders read it when the number of INTEGERs is the one they expect, and reject it
  otherwise.
\<close>

lemma length_le_put_object: "length c \<le> length (asn1_put_object tag c)"
  by (simp add: asn1_put_object_def)

lemma element_length_le:
  assumes "c \<in> set cs"
  shows "length c \<le> length (concat (map (asn1_put_object tag) cs))"
  using assms
proof (induction cs)
  case Nil
  then show ?case by simp
next
  case (Cons a cs)
  then show ?case
    using length_le_put_object [of a tag] by auto
qed

lemma d2i_INTEGERs_elements:
  assumes "\<forall>c\<in>set cs. length c < 256 ^ 127"
  shows "d2i_INTEGERs (length cs) (concat (map (asn1_put_object 0x02) cs) @ rest)
           = Some (map be_value cs, rest)"
  using assms
proof (induction cs)
  case Nil
  then show ?case by simp
next
  case (Cons c cs)
  then have "length c < 256 ^ 127"
    by simp
  then have "asn1_get_object 0x02
        (asn1_put_object 0x02 c @ concat (map (asn1_put_object 0x02) cs) @ rest)
      = Some (c, concat (map (asn1_put_object 0x02) cs) @ rest)"
    by (rule asn1_get_put_object)
  with Cons show ?case
    by simp
qed

lemma d2i_INTEGERs_more:
  assumes "\<forall>c\<in>set cs. length c < 256 ^ 127" and "k \<le> length cs"
  shows "d2i_INTEGERs k (concat (map (asn1_put_object 0x02) cs)) =
           Some (map be_value (take k cs), concat (map (asn1_put_object 0x02) (drop k cs)))"
proof -
  have "\<forall>c\<in>set (take k cs). length c < 256 ^ 127"
    using assms(1) by (auto dest: in_set_takeD)
  then have "d2i_INTEGERs (length (take k cs))
      (concat (map (asn1_put_object 0x02) (take k cs))
         @ concat (map (asn1_put_object 0x02) (drop k cs))) =
        Some (map be_value (take k cs), concat (map (asn1_put_object 0x02) (drop k cs)))"
    by (rule d2i_INTEGERs_elements)
  moreover have "concat (map (asn1_put_object 0x02) (take k cs))
        @ concat (map (asn1_put_object 0x02) (drop k cs))
      = concat (map (asn1_put_object 0x02) cs)"
    by (simp flip: concat_append map_append)
  moreover have "length (take k cs) = k"
    using assms(2) by simp
  ultimately show ?thesis
    by simp
qed

lemma d2i_INTEGERs_fewer:
  assumes "\<forall>c\<in>set cs. length c < 256 ^ 127" and "length cs < k"
  shows "d2i_INTEGERs k (concat (map (asn1_put_object 0x02) cs)) = None"
  using assms
proof (induction cs arbitrary: k)
  case Nil
  then obtain j where "k = Suc j"
    by (cases k) auto
  then show ?case
    by (simp add: asn1_get_object_def)
next
  case (Cons c cs)
  then obtain j where k: "k = Suc j" and j: "length cs < j"
    by (cases k) auto
  from Cons.prems have "length c < 256 ^ 127"
    by simp
  then have "asn1_get_object 0x02 (asn1_put_object 0x02 c @ concat (map (asn1_put_object 0x02) cs))
      = Some (c, concat (map (asn1_put_object 0x02) cs))"
    by (rule asn1_get_put_object)
  moreover have "d2i_INTEGERs j (concat (map (asn1_put_object 0x02) cs)) = None"
    using Cons.IH [of j] Cons.prems(1) j by simp
  ultimately show ?case
    by (simp add: k)
qed

lemma d2i_INTEGERs_wrong_count:
  assumes "\<forall>c\<in>set cs. length c < 256 ^ 127" and "length cs \<noteq> k"
  shows "d2i_INTEGERs k (concat (map (asn1_put_object 0x02) cs)) = None
         \<or> (\<exists>ys left. d2i_INTEGERs k (concat (map (asn1_put_object 0x02) cs)) = Some (ys, left)
               \<and> left \<noteq> [])"
proof (cases "length cs < k")
  case True
  with assms(1) show ?thesis
    by (simp add: d2i_INTEGERs_fewer)
next
  case False
  with assms(2) have k: "k < length cs"
    by simp
  then have "drop k cs \<noteq> []"
    by simp
  then obtain y ys where "drop k cs = y # ys"
    by (cases "drop k cs") auto
  then have "concat (map (asn1_put_object 0x02) (drop k cs)) \<noteq> []"
    by (simp add: asn1_put_object_not_Nil)
  with assms(1) k show ?thesis
    by (simp add: d2i_INTEGERs_more)
qed

lemma der_SEQUENCE_parts:
  assumes "length (der_SEQUENCE cs) < 2 ^ 31"
  shows "\<forall>c\<in>set cs. length c < 256 ^ 127"
    and "asn1_get_object 0x30 (der_SEQUENCE cs @ rest)
           = Some (concat (map (asn1_put_object 0x02) cs), rest)"
proof -
  let ?content = "concat (map (asn1_put_object 0x02) cs)"
  have content: "length ?content < 2 ^ 31"
    using assms length_le_put_object [of ?content "0x30"] by simp
  then have "length ?content < 256 ^ 127"
    by simp
  then show "asn1_get_object 0x30 (der_SEQUENCE cs @ rest) = Some (?content, rest)"
    by (rule asn1_get_put_object)
  show "\<forall>c\<in>set cs. length c < 256 ^ 127"
  proof
    fix c assume "c \<in> set cs"
    then have "length c \<le> length ?content"
      by (rule element_length_le)
    with content show "length c < 256 ^ 127"
      by simp
  qed
qed

lemma wrong_count_private:
  assumes "length (der_SEQUENCE cs) < 2 ^ 31" and "length cs \<noteq> 9"
  shows "d2i_RSAPrivateKey (der_SEQUENCE cs @ rest) = None"
proof -
  note parts = der_SEQUENCE_parts [OF assms(1)]
  define content where "content = concat (map (asn1_put_object 0x02) cs)"
  have obj: "asn1_get_object 0x30 (asn1_put_object 0x30 content @ rest) = Some (content, rest)"
    using parts(2) by (simp only: content_def)
  from d2i_INTEGERs_wrong_count [OF parts(1) assms(2)] show ?thesis
    unfolding content_def [symmetric]
    by (auto simp: d2i_RSAPrivateKey_def obj)
qed

lemma wrong_count_public:
  assumes "length (der_SEQUENCE cs) < 2 ^ 31" and "length cs \<noteq> 2"
  shows "d2i_RSAPublicKey (der_SEQUENCE cs @ rest) = None"
proof -
  note parts = der_SEQUENCE_parts [OF assms(1)]
  define content where "content = concat (map (asn1_put_object 0x02) cs)"
  have obj: "asn1_get_object 0x30 (asn1_put_object 0x30 content @ rest) = Some (content, rest)"
    using parts(2) by (simp only: content_def)
  from d2i_INTEGERs_wrong_count [OF parts(1) assms(2)] show ?thesis
    unfolding content_def [symmetric]
    by (auto simp: d2i_RSAPublicKey_def obj)
qed

text \<open>
  With the expected number of INTEGERs the decoders return the magnitudes of the
  content octets, and import returns the content octets without leading zero bytes.
\<close>

lemma BN_bn2bin_be_value: "BN_bn2bin (be_value c) = skip_zero_bytes c"
  using BN_bn2bin_bin2bn [of c] by (simp add: BN_bin2bn_def)

lemma d2i_der_public:
  assumes "length (der_SEQUENCE [cn, ce]) < 2 ^ 31"
  shows "d2i_RSAPublicKey (der_SEQUENCE [cn, ce] @ rest)
           = Some (RSA_new\<lparr>rsa_n := Some (be_value cn), rsa_e := Some (be_value ce)\<rparr>, rest)"
proof -
  note parts = der_SEQUENCE_parts [OF assms]
  define cs where "cs = [cn, ce]"
  define content where "content = concat (map (asn1_put_object 0x02) cs)"
  have two: "length cs = 2"
    by (simp add: cs_def)
  have "d2i_INTEGERs (length cs) (content @ []) = Some (map be_value cs, [])"
    unfolding content_def using parts(1) [folded cs_def] by (rule d2i_INTEGERs_elements)
  then have ints: "d2i_INTEGERs 2 content = Some (map be_value cs, [])"
    by (simp only: two append_Nil2)
  have obj: "asn1_get_object 0x30 (asn1_put_object 0x30 content @ rest) = Some (content, rest)"
    using parts(2) by (simp only: content_def cs_def)
  have "d2i_RSAPublicKey (asn1_put_object 0x30 content @ rest)
           = Some (RSA_new\<lparr>rsa_n := Some (be_value cn), rsa_e := Some (be_value ce)\<rparr>, rest)"
    by (simp add: d2i_RSAPublicKey_def obj ints) (simp add: cs_def)
  then show ?thesis
    by (simp only: content_def cs_def)
qed

lemma d2i_der_private:
  assumes "length (der_SEQUENCE [[0], cn, ce, cd, cp, cq, cdp, cdq, cqi]) < 2 ^ 31"
  shows "d2i_RSAPrivateKey (der_SEQUENCE [[0], cn, ce, cd, cp, cq, cdp, cdq, cqi] @ rest)
           = Some (\<lparr>rsa_version = 0, rsa_n = Some (be_value cn), rsa_e = Some (be_value ce),
                rsa_d = Some (be_value cd), rsa_p = Some (be_value cp),
                rsa_q = Some (be_value cq), rsa_dmp1 = Some (be_value cdp),
                rsa_dmq1 = Some (be_value cdq), rsa_iqmp = Some (be_value cqi)\<rparr>, rest)"
proof -
  note parts = der_SEQUENCE_parts [OF assms]
  define cs where "cs = [[0], cn, ce, cd, cp, cq, cdp, cdq, cqi]"
  define content where "content = concat (map (asn1_put_object 0x02) cs)"
  have nine: "length cs = 9"
    by (simp add: cs_def)
  have "d2i_INTEGERs (length cs) (content @ []) = Some (map be_value cs, [])"
    unfolding content_def using parts(1) [folded cs_def] by (rule d2i_INTEGERs_elements)
  then have ints: "d2i_INTEGERs 9 content = Some (map be_value cs, [])"
    by (simp only: nine append_Nil2)
  have obj: "asn1_get_object 0x30 (asn1_put_object 0x30 content @ rest) = Some (content, rest)"
    using parts(2) by (simp only: content_def cs_def)
  have "d2i_RSAPrivateKey (asn1_put_object 0x30 content @ rest)
           = Some (\<lparr>rsa_version = 0, rsa_n = Some (be_value cn), rsa_e = Some (be_value ce),
                rsa_d = Some (be_value cd), rsa_p = Some (be_value cp),
                rsa_q = Some (be_value cq), rsa_dmp1 = Some (be_value cdp),
                rsa_dmq1 = Some (be_value cdq), rsa_iqmp = Some (be_value cqi)\<rparr>, rest)"
    by (simp add: d2i_RSAPrivateKey_def obj ints) (simp add: cs_def be_value_def)
  then show ?thesis
    by (simp only: content_def cs_def)
qed

lemma import_der_public:
  assumes "length (der_SEQUENCE [cn, ce]) < 2 ^ 31"
  shows "bcrypto_rsa_pubkey_import (der_SEQUENCE [cn, ce] @ rest) =
           Some (bcrypto_rsa_key_init\<lparr>nd := Some (skip_zero_bytes cn),
             ed := Some (skip_zero_bytes ce)\<rparr>)"
  unfolding bcrypto_rsa_pubkey_import_def d2i_der_public [OF assms]
  by (simp add: bcrypto_rsa_pub2key_def RSA_new_def BN_bn2bin_be_value)

lemma import_der_private:
  assumes "length (der_SEQUENCE [[0], cn, ce, cd, cp, cq, cdp, cdq, cqi]) < 2 ^ 31"
  shows "bcrypto_rsa_privkey_import
           (der_SEQUENCE [[0], cn, ce, cd, cp, cq, cdp, cdq, cqi] @ rest) =
           Some \<lparr>nd = Some (skip_zero_bytes cn), ed = Some (skip_zero_bytes ce),
             dd = Some (skip_zero_bytes cd), pd = Some (skip_zero_bytes cp),
             qd = Some (skip_zero_bytes cq), dpd = Some (skip_zero_bytes cdp),
             dqd = Some (skip_zero_bytes cdq), qid = Some (skip_zero_bytes cqi)\<rparr>"
  unfolding bcrypto_rsa_privkey_import_def d2i_der_private [OF assms]
  by (simp add: priv2key_full BN_bn2bin_be_value)

section \<open>The serialization round trip\<close>

lemma map_option_skip_id_iff:
  "map_option skip_zero_bytes b = b \<longleftrightarrow> (\<forall>bs. b = Some bs \<longrightarrow> take 1 bs \<noteq> [0])"
  by (cases b) (simp_all add: skip_zero_bytes_id_iff)

lemma strip_key_id_iff:
  "strip_key k = k \<longleftrightarrow>
     (\<forall>b\<in>{nd k, ed k, dd k, pd k, qd k, dpd k, dqd k, qid k}.
        \<forall>bs. b = Some bs \<longrightarrow> take 1 bs \<noteq> [0])"
proof -
  have "strip_key k = k \<longleftrightarrow>
      map_option skip_zero_bytes (nd k) = nd k \<and> map_option skip_zero_bytes (ed k) = ed k
      \<and> map_option skip_zero_bytes (dd k) = dd k \<and> map_option skip_zero_bytes (pd k) = pd k
      \<and> map_option skip_zero_bytes (qd k) = qd k \<and> map_option skip_zero_bytes (dpd k) = dpd k
      \<and> map_option skip_zero_bytes (dqd k) = dqd k \<and> map_option skip_zero_bytes (qid k) = qid k"
    by (cases k) (simp add: strip_key_def)
  then show ?thesis
    by (simp only: map_option_skip_id_iff) simp
qed

lemma BN_bin2bn_skip: "BN_bin2bn (map_option skip_zero_bytes b) = BN_bin2bn b"
  by (cases b) (simp_all add: BN_bin2bn_def skip_zero_bytes_dropWhile be_value_dropWhile)

lemma key512_strip: "strip_key key512 = key512"
  by (simp add: strip_key_def key512_def)

lemma key512_padded_sane: "bcrypto_rsa_sane_privkey (Some key512_padded)"
proof -
  have "bcrypto_count_bits (ed key512_padded) = 17"
    by (simp add: key512_padded_def count_bits_Some compute_floorlog)
  moreover have "last_byte (ed key512_padded) AND 1 \<noteq> 0"
    by (simp add: key512_padded_def last_byte_def)
  ultimately show ?thesis
    using key512_bits
    by (simp add: sane_privkey_Some sane_pubkey_Some)
      (simp add: key512_padded_def)
qed

lemma key512_padded_strip: "strip_key key512_padded = key512"
  by (simp add: strip_key_def key512_padded_def key512_def)

text \<open>
  Claim C6, as stated, fails: the round trip does not give a key with a leading zero
  byte back. \<open>key512_padded\<close> satisfies the private-key invariants and its exponent
  buffer is \<open>00 01 00 01\<close>; export followed by import yields \<open>key512\<close>, whose exponent
  buffer is \<open>01 00 01\<close>.
\<close>

theorem roundtrip_strips_zero_bytes:
  "bcrypto_rsa_sane_privkey (Some key512_padded)
   \<and> bcrypto_rsa_privkey_export (Some key512_padded) \<noteq> None
   \<and> bcrypto_rsa_privkey_import (the (bcrypto_rsa_privkey_export (Some key512_padded)))
       = Some key512
   \<and> ed key512 = Some [0x01, 0x00, 0x01]
   \<and> ed key512_padded = Some [0x00, 0x01, 0x00, 0x01]"
proof -
  obtain der where "bcrypto_rsa_privkey_export (Some key512_padded) = Some der"
    and "bcrypto_rsa_privkey_import (der @ []) = Some (strip_key key512_padded)"
    using privkey_export_import [OF key512_padded_sane] by blast
  then show ?thesis
    using key512_padded_sane by (simp add: key512_padded_strip) (simp add: key512_def key512_padded_def)
qed

text \<open>
  Claim C6, amended. For every key \<open>k\<close> that \<^verbatim>\<open>bcrypto_rsa_sane_privkey\<close> accepts, export
  succeeds and importing the encoding yields \<open>k\<close> with the leading zero bytes of every
  component removed: the same eight numbers, each in its shortest big-endian form. The
  result is \<open>k\<close> itself exactly when no component of \<open>k\<close> begins with a zero byte.
\<close>

theorem privkey_roundtrip:
  assumes "bcrypto_rsa_sane_privkey (Some k)"
  shows "(\<exists>der. bcrypto_rsa_privkey_export (Some k) = Some der
            \<and> bcrypto_rsa_privkey_import der = Some (strip_key k))
    \<and> (strip_key k = k \<longleftrightarrow>
         (\<forall>b\<in>{nd k, ed k, dd k, pd k, qd k, dpd k, dqd k, qid k}.
            \<forall>bs. b = Some bs \<longrightarrow> take 1 bs \<noteq> [0]))
    \<and> BN_bin2bn (nd (strip_key k)) = BN_bin2bn (nd k)
    \<and> BN_bin2bn (ed (strip_key k)) = BN_bin2bn (ed k)
    \<and> BN_bin2bn (dd (strip_key k)) = BN_bin2bn (dd k)
    \<and> BN_bin2bn (pd (strip_key k)) = BN_bin2bn (pd k)
    \<and> BN_bin2bn (qd (strip_key k)) = BN_bin2bn (qd k)
    \<and> BN_bin2bn (dpd (strip_key k)) = BN_bin2bn (dpd k)
    \<and> BN_bin2bn (dqd (strip_key k)) = BN_bin2bn (dqd k)
    \<and> BN_bin2bn (qid (strip_key k)) = BN_bin2bn (qid k)"
proof -
  from assms obtain der where "bcrypto_rsa_privkey_export (Some k) = Some der"
    and "bcrypto_rsa_privkey_import (der @ []) = Some (strip_key k)"
    using privkey_export_import by blast
  then have "\<exists>der. bcrypto_rsa_privkey_export (Some k) = Some der
            \<and> bcrypto_rsa_privkey_import der = Some (strip_key k)"
    by auto
  moreover note strip_key_id_iff [of k]
  ultimately show ?thesis
    by (simp add: strip_key_def BN_bin2bn_skip)
qed

theorem privkey_roundtrip_witness:
  "bcrypto_rsa_sane_privkey (Some key512)
   \<and> bcrypto_rsa_privkey_export (Some key512) \<noteq> None
   \<and> bcrypto_rsa_privkey_import (the (bcrypto_rsa_privkey_export (Some key512))) = Some key512"
  using privkey_roundtrip [OF key512_sane_privkey] key512_sane_privkey
  by (auto simp: key512_strip)

section \<open>What import accepts and rejects\<close>

subsection \<open>Small encodings, decoded\<close>

lemma d2i_INTEGERs_step:
  "0 < k \<Longrightarrow> d2i_INTEGERs k bs = do {
     (content, rest) \<leftarrow> asn1_get_object 0x02 bs;
     (xs, rest') \<leftarrow> d2i_INTEGERs (k - 1) rest;
     Some (be_value content # xs, rest')
   }"
  by (cases k) simp_all

lemma pub_garbage:
  "bcrypto_rsa_pubkey_import [0x30, 0x06, 0x02, 0x01, 0x0F, 0x02, 0x01, 0x03, 0xDE, 0xAD]
     = Some (bcrypto_rsa_key_init\<lparr>nd := Some [0x0F], ed := Some [0x03]\<rparr>)"
  by (simp add: bcrypto_rsa_pubkey_import_def d2i_RSAPublicKey_def asn1_get_object_def
      asn1_get_length_def d2i_INTEGERs_step be_value_def bcrypto_rsa_pub2key_def RSA_new_def
      BN_bn2bin_def be_bytes.simps)

lemma pub_negative:
  "bcrypto_rsa_pubkey_import [0x30, 0x06, 0x02, 0x01, 0x8F, 0x02, 0x01, 0x03]
     = Some (bcrypto_rsa_key_init\<lparr>nd := Some [0x8F], ed := Some [0x03]\<rparr>)"
  by (simp add: bcrypto_rsa_pubkey_import_def d2i_RSAPublicKey_def asn1_get_object_def
      asn1_get_length_def d2i_INTEGERs_step be_value_def bcrypto_rsa_pub2key_def RSA_new_def
      BN_bn2bin_def be_bytes.simps)

lemma priv_garbage:
  "bcrypto_rsa_privkey_import
     [0x30, 0x1D, 0x02, 0x01, 0x00, 0x02, 0x02, 0x0C, 0xA1, 0x02, 0x01, 0x11,
      0x02, 0x02, 0x0A, 0xC1, 0x02, 0x01, 0x3D, 0x02, 0x01, 0x35, 0x02, 0x01, 0x35,
      0x02, 0x01, 0x31, 0x02, 0x01, 0x26, 0xDE, 0xAD]
     = Some key_pqe_out"
  by (simp add: bcrypto_rsa_privkey_import_def d2i_RSAPrivateKey_def asn1_get_object_def
      asn1_get_length_def d2i_INTEGERs_step be_value_def priv2key_full key_pqe_out_def
      BN_bn2bin_def be_bytes.simps)


lemma pub_plain:
  "bcrypto_rsa_pubkey_import [0x30, 0x06, 0x02, 0x01, 0x0F, 0x02, 0x01, 0x04]
     = Some (bcrypto_rsa_key_init\<lparr>nd := Some [0x0F], ed := Some [0x04]\<rparr>)"
  by (simp add: bcrypto_rsa_pubkey_import_def d2i_RSAPublicKey_def asn1_get_object_def
      asn1_get_length_def d2i_INTEGERs_step be_value_def bcrypto_rsa_pub2key_def RSA_new_def
      BN_bn2bin_def be_bytes.simps)

lemma priv_plain:
  "bcrypto_rsa_privkey_import
     [0x30, 0x1D, 0x02, 0x01, 0x00, 0x02, 0x02, 0x0C, 0xA1, 0x02, 0x01, 0x11,
      0x02, 0x02, 0x0A, 0xC1, 0x02, 0x01, 0x3D, 0x02, 0x01, 0x35, 0x02, 0x01, 0x35,
      0x02, 0x01, 0x31, 0x02, 0x01, 0x26]
     = Some key_pqe_out"
  by (simp add: bcrypto_rsa_privkey_import_def d2i_RSAPrivateKey_def asn1_get_object_def
      asn1_get_length_def d2i_INTEGERs_step be_value_def priv2key_full key_pqe_out_def
      BN_bn2bin_def be_bytes.simps)

lemma der_three:
  "der_SEQUENCE [[0x00], [0x8F], [0x03]]
     = [0x30, 0x09, 0x02, 0x01, 0x00, 0x02, 0x01, 0x8F, 0x02, 0x01, 0x03]"
  by (simp add: asn1_put_object_def asn1_put_length_def)

lemma der_two:
  "der_SEQUENCE [[0x8F], [0x03]] = [0x30, 0x06, 0x02, 0x01, 0x8F, 0x02, 0x01, 0x03]"
  by (simp add: asn1_put_object_def asn1_put_length_def)

lemma der_nine:
  "der_SEQUENCE [[0x00], [0x0C, 0xA1], [0x11], [0x0A, 0xC1], [0x3D], [0x35], [0x35], [0x31],
       [0x26]]
     = [0x30, 0x1D, 0x02, 0x01, 0x00, 0x02, 0x02, 0x0C, 0xA1, 0x02, 0x01, 0x11,
        0x02, 0x02, 0x0A, 0xC1, 0x02, 0x01, 0x3D, 0x02, 0x01, 0x35, 0x02, 0x01, 0x35,
        0x02, 0x01, 0x31, 0x02, 0x01, 0x26]"
  by (simp add: asn1_put_object_def asn1_put_length_def)

text \<open>
  Claim C7, as stated, fails. Public-key import returns a key from a well-formed
  SEQUENCE followed by the two bytes \<open>DE AD\<close>, and private-key import does the same:
  trailing garbage is not rejected. Public-key import also returns a key from an
  encoding whose modulus is the INTEGER \<open>02 01 8F\<close>, a negative number in DER: the
  content is read as the magnitude 143.
\<close>

theorem import_accepts_trailing_bytes:
  "bcrypto_rsa_pubkey_import [0x30, 0x06, 0x02, 0x01, 0x0F, 0x02, 0x01, 0x03, 0xDE, 0xAD]
     = Some (bcrypto_rsa_key_init\<lparr>nd := Some [0x0F], ed := Some [0x03]\<rparr>)
   \<and> bcrypto_rsa_privkey_import
       [0x30, 0x1D, 0x02, 0x01, 0x00, 0x02, 0x02, 0x0C, 0xA1, 0x02, 0x01, 0x11,
        0x02, 0x02, 0x0A, 0xC1, 0x02, 0x01, 0x3D, 0x02, 0x01, 0x35, 0x02, 0x01, 0x35,
        0x02, 0x01, 0x31, 0x02, 0x01, 0x26, 0xDE, 0xAD]
     = Some key_pqe_out
   \<and> bcrypto_rsa_pubkey_import [0x30, 0x06, 0x02, 0x01, 0x8F, 0x02, 0x01, 0x03]
     = Some (bcrypto_rsa_key_init\<lparr>nd := Some [0x8F], ed := Some [0x03]\<rparr>)"
  using pub_garbage priv_garbage pub_negative by simp

text \<open>
  Claim C7, amended. On every input, private-key and public-key import return no key
  (NULL; the code has no other error value) whenever the decoder rejects the input.
  When the decoder accepts, they return the key of the decoded object, and no key only
  if a component of that object is unset. Import makes no check of its own; this holds
  for any decoder \<open>d2i\<close>, OpenSSL's included.

  A wrong field count is rejected: the DER encoding (shorter than \<open>2 ^ 31\<close> bytes) of a
  SEQUENCE of INTEGERs, with any content octets and any bytes after it, gives no key
  when the number of INTEGERs is not nine for a private key, or not two for a public
  key.

  Trailing garbage and a negative INTEGER are not rejected. Import never compares the
  pointer that the decoder advanced with the end of the input: when the decoder reads
  a key at the front of the input and leaves the rest, import returns that key
  whatever the rest is. The DER encoding (shorter than \<open>2 ^ 31\<close> bytes) of two
  non-empty INTEGERs, followed by any bytes, imports as the public key whose components
  are the content octets without their leading zero bytes; the DER encoding of the
  version 0 and eight non-empty INTEGERs, followed by any bytes, imports as the
  private key with these components. This includes content octets whose top bit is
  set, which DER reads as a negative number.
\<close>

theorem import_rejects:
  "(d2i raw = None \<longrightarrow>
      bcrypto_rsa_privkey_import_with d2i raw = None
      \<and> bcrypto_rsa_pubkey_import_with d2i raw = None)
   \<and> (d2i raw = Some (r, rest) \<longrightarrow>
        bcrypto_rsa_privkey_import_with d2i raw = bcrypto_rsa_priv2key (Some r)
        \<and> bcrypto_rsa_pubkey_import_with d2i raw = bcrypto_rsa_pub2key (Some r)
        \<and> (bcrypto_rsa_privkey_import_with d2i raw = None \<longleftrightarrow>
             rsa_n r = None \<or> rsa_e r = None \<or> rsa_d r = None \<or> rsa_p r = None
             \<or> rsa_q r = None \<or> rsa_dmp1 r = None \<or> rsa_dmq1 r = None \<or> rsa_iqmp r = None)
        \<and> (bcrypto_rsa_pubkey_import_with d2i raw = None \<longleftrightarrow>
             rsa_n r = None \<or> rsa_e r = None))
   \<and> (d2i raw = Some (r, rest) \<and> d2i (raw @ garbage) = Some (r, rest @ garbage) \<longrightarrow>
        bcrypto_rsa_privkey_import_with d2i (raw @ garbage)
          = bcrypto_rsa_privkey_import_with d2i raw
        \<and> bcrypto_rsa_pubkey_import_with d2i (raw @ garbage)
          = bcrypto_rsa_pubkey_import_with d2i raw)
   \<and> bcrypto_rsa_privkey_import = bcrypto_rsa_privkey_import_with d2i_RSAPrivateKey
   \<and> bcrypto_rsa_pubkey_import = bcrypto_rsa_pubkey_import_with d2i_RSAPublicKey
   \<and> (length (der_SEQUENCE cs) < 2 ^ 31 \<and> length cs \<noteq> 9 \<longrightarrow>
        bcrypto_rsa_privkey_import (der_SEQUENCE cs @ garbage) = None)
   \<and> (length (der_SEQUENCE cs) < 2 ^ 31 \<and> length cs \<noteq> 2 \<longrightarrow>
        bcrypto_rsa_pubkey_import (der_SEQUENCE cs @ garbage) = None)
   \<and> (length (der_SEQUENCE [cn, ce]) < 2 ^ 31 \<and> cn \<noteq> [] \<and> ce \<noteq> [] \<longrightarrow>
        bcrypto_rsa_pubkey_import (der_SEQUENCE [cn, ce] @ garbage) =
          Some (bcrypto_rsa_key_init\<lparr>nd := Some (skip_zero_bytes cn),
            ed := Some (skip_zero_bytes ce)\<rparr>))
   \<and> (length (der_SEQUENCE [[0], cn, ce, cd, cp, cq, cdp, cdq, cqi]) < 2 ^ 31
        \<and> cn \<noteq> [] \<and> ce \<noteq> [] \<and> cd \<noteq> [] \<and> cp \<noteq> [] \<and> cq \<noteq> []
        \<and> cdp \<noteq> [] \<and> cdq \<noteq> [] \<and> cqi \<noteq> [] \<longrightarrow>
        bcrypto_rsa_privkey_import
          (der_SEQUENCE [[0], cn, ce, cd, cp, cq, cdp, cdq, cqi] @ garbage) =
          Some \<lparr>nd = Some (skip_zero_bytes cn), ed = Some (skip_zero_bytes ce),
            dd = Some (skip_zero_bytes cd), pd = Some (skip_zero_bytes cp),
            qd = Some (skip_zero_bytes cq), dpd = Some (skip_zero_bytes cdp),
            dqd = Some (skip_zero_bytes cdq), qid = Some (skip_zero_bytes cqi)\<rparr>)"
proof -
  have reject: "d2i raw = None \<longrightarrow>
      bcrypto_rsa_privkey_import_with d2i raw = None
      \<and> bcrypto_rsa_pubkey_import_with d2i raw = None"
    by (simp add: bcrypto_rsa_privkey_import_with_def bcrypto_rsa_pubkey_import_with_def)
  have accept: "d2i raw = Some (r, rest) \<longrightarrow>
        bcrypto_rsa_privkey_import_with d2i raw = bcrypto_rsa_priv2key (Some r)
        \<and> bcrypto_rsa_pubkey_import_with d2i raw = bcrypto_rsa_pub2key (Some r)
        \<and> (bcrypto_rsa_privkey_import_with d2i raw = None \<longleftrightarrow>
             rsa_n r = None \<or> rsa_e r = None \<or> rsa_d r = None \<or> rsa_p r = None
             \<or> rsa_q r = None \<or> rsa_dmp1 r = None \<or> rsa_dmq1 r = None \<or> rsa_iqmp r = None)
        \<and> (bcrypto_rsa_pubkey_import_with d2i raw = None \<longleftrightarrow>
             rsa_n r = None \<or> rsa_e r = None)"
    by (simp add: bcrypto_rsa_privkey_import_with_def bcrypto_rsa_pubkey_import_with_def
        priv2key_None_iff pub2key_None_iff)
  have trailing: "d2i raw = Some (r, rest) \<and> d2i (raw @ garbage) = Some (r, rest @ garbage) \<longrightarrow>
        bcrypto_rsa_privkey_import_with d2i (raw @ garbage)
          = bcrypto_rsa_privkey_import_with d2i raw
        \<and> bcrypto_rsa_pubkey_import_with d2i (raw @ garbage)
          = bcrypto_rsa_pubkey_import_with d2i raw"
    by (simp add: bcrypto_rsa_privkey_import_with_def bcrypto_rsa_pubkey_import_with_def)
  have count9: "length (der_SEQUENCE cs) < 2 ^ 31 \<and> length cs \<noteq> 9 \<longrightarrow>
        bcrypto_rsa_privkey_import (der_SEQUENCE cs @ garbage) = None"
    using wrong_count_private [of cs garbage] by (simp add: privkey_import_None_iff)
  have count2: "length (der_SEQUENCE cs) < 2 ^ 31 \<and> length cs \<noteq> 2 \<longrightarrow>
        bcrypto_rsa_pubkey_import (der_SEQUENCE cs @ garbage) = None"
    using wrong_count_public [of cs garbage] by (simp add: pubkey_import_None_iff)
  have pub: "length (der_SEQUENCE [cn, ce]) < 2 ^ 31 \<and> cn \<noteq> [] \<and> ce \<noteq> [] \<longrightarrow>
        bcrypto_rsa_pubkey_import (der_SEQUENCE [cn, ce] @ garbage) =
          Some (bcrypto_rsa_key_init\<lparr>nd := Some (skip_zero_bytes cn),
            ed := Some (skip_zero_bytes ce)\<rparr>)"
    using import_der_public [of cn ce garbage] by blast
  have priv: "length (der_SEQUENCE [[0], cn, ce, cd, cp, cq, cdp, cdq, cqi]) < 2 ^ 31
        \<and> cn \<noteq> [] \<and> ce \<noteq> [] \<and> cd \<noteq> [] \<and> cp \<noteq> [] \<and> cq \<noteq> []
        \<and> cdp \<noteq> [] \<and> cdq \<noteq> [] \<and> cqi \<noteq> [] \<longrightarrow>
        bcrypto_rsa_privkey_import
          (der_SEQUENCE [[0], cn, ce, cd, cp, cq, cdp, cdq, cqi] @ garbage) =
          Some \<lparr>nd = Some (skip_zero_bytes cn), ed = Some (skip_zero_bytes ce),
            dd = Some (skip_zero_bytes cd), pd = Some (skip_zero_bytes cp),
            qd = Some (skip_zero_bytes cq), dpd = Some (skip_zero_bytes cdp),
            dqd = Some (skip_zero_bytes cdq), qid = Some (skip_zero_bytes cqi)\<rparr>"
    using import_der_private [of cn ce cd cp cq cdp cdq cqi garbage] by blast
  from reject accept trailing privkey_import_with_model pubkey_import_with_model
    count9 count2 pub priv
  show ?thesis
    by - (intro conjI; assumption)
qed

theorem import_rejects_witness:
  "d2i_RSAPublicKey [0x30, 0x06, 0x02, 0x01, 0x0F, 0x02, 0x01] = None
   \<and> bcrypto_rsa_pubkey_import_with d2i_RSAPublicKey [0x30, 0x06, 0x02, 0x01, 0x0F, 0x02, 0x01]
       = None
   \<and> bcrypto_rsa_pubkey_import [0x30, 0x06, 0x02, 0x01, 0x0F, 0x02, 0x01] = None
   \<and> bcrypto_rsa_privkey_import
       [0x30, 0x09, 0x02, 0x01, 0x00, 0x02, 0x01, 0x8F, 0x02, 0x01, 0x03] = None
   \<and> bcrypto_rsa_pubkey_import
       [0x30, 0x09, 0x02, 0x01, 0x00, 0x02, 0x01, 0x8F, 0x02, 0x01, 0x03] = None
   \<and> bcrypto_rsa_pubkey_import [0x30, 0x06, 0x02, 0x01, 0x8F, 0x02, 0x01, 0x03, 0xDE, 0xAD]
       = Some (bcrypto_rsa_key_init\<lparr>nd := Some [0x8F], ed := Some [0x03]\<rparr>)
   \<and> bcrypto_rsa_privkey_import
       [0x30, 0x1D, 0x02, 0x01, 0x00, 0x02, 0x02, 0x0C, 0xA1, 0x02, 0x01, 0x11,
        0x02, 0x02, 0x0A, 0xC1, 0x02, 0x01, 0x3D, 0x02, 0x01, 0x35, 0x02, 0x01, 0x35,
        0x02, 0x01, 0x31, 0x02, 0x01, 0x26, 0xDE, 0xAD]
       = Some key_pqe_out
   \<and> d2i_RSAPublicKey [0x30, 0x06, 0x02, 0x01, 0x0F, 0x02, 0x01, 0x04]
       = Some (RSA_new\<lparr>rsa_n := Some 15, rsa_e := Some 4\<rparr>, [])
   \<and> d2i_RSAPublicKey [0x30, 0x06, 0x02, 0x01, 0x0F, 0x02, 0x01, 0x04, 0xDE, 0xAD]
       = Some (RSA_new\<lparr>rsa_n := Some 15, rsa_e := Some 4\<rparr>, [0xDE, 0xAD])
   \<and> bcrypto_rsa_pubkey_import_with d2i_RSAPublicKey
       [0x30, 0x06, 0x02, 0x01, 0x0F, 0x02, 0x01, 0x04, 0xDE, 0xAD]
       = bcrypto_rsa_pubkey_import_with d2i_RSAPublicKey
           [0x30, 0x06, 0x02, 0x01, 0x0F, 0x02, 0x01, 0x04]
   \<and> bcrypto_rsa_pubkey_import_with d2i_RSAPublicKey
       [0x30, 0x06, 0x02, 0x01, 0x0F, 0x02, 0x01, 0x04]
       = Some (bcrypto_rsa_key_init\<lparr>nd := Some [0x0F], ed := Some [0x04]\<rparr>)"
proof -
  let ?trunc = "[0x30, 0x06, 0x02, 0x01, 0x0F, 0x02, 0x01] :: uint8_t list"
  let ?plain = "[0x30, 0x06, 0x02, 0x01, 0x0F, 0x02, 0x01, 0x04] :: uint8_t list"
  let ?r = "RSA_new\<lparr>rsa_n := Some 15, rsa_e := Some 4\<rparr>"
  have trunc: "d2i_RSAPublicKey ?trunc = None"
    by (simp add: d2i_RSAPublicKey_def asn1_get_object_def asn1_get_length_def)
  have dec: "d2i_RSAPublicKey ?plain = Some (?r, [])"
    by (simp add: d2i_RSAPublicKey_def asn1_get_object_def asn1_get_length_def
        d2i_INTEGERs_step be_value_def)
  have dec': "d2i_RSAPublicKey (?plain @ [0xDE, 0xAD]) = Some (?r, [] @ [0xDE, 0xAD])"
    using dec by (rule d2i_RSAPublicKey_append)
  have len3: "length (der_SEQUENCE [[0x00], [0x8F], [0x03]]) < 2 ^ 31"
    unfolding der_three by simp
  have len2: "length (der_SEQUENCE [[0x8F], [0x03]]) < 2 ^ 31"
    unfolding der_two by simp
  have len9: "length (der_SEQUENCE [[0x00], [0x0C, 0xA1], [0x11], [0x0A, 0xC1], [0x3D], [0x35],
      [0x35], [0x31], [0x26]]) < 2 ^ 31"
    unfolding der_nine by simp
  have n3: "length [[0x00 :: uint8_t], [0x8F], [0x03]] \<noteq> 9"
    "length [[0x00 :: uint8_t], [0x8F], [0x03]] \<noteq> 2"
    by simp_all
  have ne: "[0x8F :: uint8_t] \<noteq> []" "[0x03 :: uint8_t] \<noteq> []" "[0x0C, 0xA1 :: uint8_t] \<noteq> []"
    "[0x11 :: uint8_t] \<noteq> []" "[0x0A, 0xC1 :: uint8_t] \<noteq> []" "[0x3D :: uint8_t] \<noteq> []"
    "[0x35 :: uint8_t] \<noteq> []" "[0x31 :: uint8_t] \<noteq> []" "[0x26 :: uint8_t] \<noteq> []"
    by simp_all
  note t1 = import_rejects [where ?d2i = d2i_RSAPublicKey and raw = ?trunc and r = ?r
      and rest = "[]" and garbage = "[]" and cs = "[[0x00], [0x8F], [0x03]]"
      and cn = "[0x8F]" and ce = "[0x03]" and cd = "[0]" and cp = "[0]" and cq = "[0]"
      and cdp = "[0]" and cdq = "[0]" and cqi = "[0]"]
  note t2 = import_rejects [where ?d2i = d2i_RSAPublicKey and raw = ?plain and r = ?r
      and rest = "[]" and garbage = "[0xDE, 0xAD]" and cs = "[]"
      and cn = "[0x8F]" and ce = "[0x03]" and cd = "[0x0A, 0xC1]" and cp = "[0x3D]"
      and cq = "[0x35]" and cdp = "[0x35]" and cdq = "[0x31]" and cqi = "[0x26]"]
  note t3 = import_rejects [where ?d2i = d2i_RSAPublicKey and raw = ?plain and r = ?r
      and rest = "[]" and garbage = "[0xDE, 0xAD]" and cs = "[]"
      and cn = "[0x0C, 0xA1]" and ce = "[0x11]" and cd = "[0x0A, 0xC1]" and cp = "[0x3D]"
      and cq = "[0x35]" and cdp = "[0x35]" and cdq = "[0x31]" and cqi = "[0x26]"]
  have a: "bcrypto_rsa_pubkey_import_with d2i_RSAPublicKey ?trunc = None"
    using t1 trunc by blast
  have "bcrypto_rsa_pubkey_import = bcrypto_rsa_pubkey_import_with d2i_RSAPublicKey"
    using t1 by blast
  with a have a': "bcrypto_rsa_pubkey_import ?trunc = None"
    by simp
  have "bcrypto_rsa_privkey_import (der_SEQUENCE [[0x00], [0x8F], [0x03]] @ []) = None"
    using t1 len3 n3 by blast
  then have b: "bcrypto_rsa_privkey_import
       [0x30, 0x09, 0x02, 0x01, 0x00, 0x02, 0x01, 0x8F, 0x02, 0x01, 0x03] = None"
    unfolding der_three by simp
  have "bcrypto_rsa_pubkey_import (der_SEQUENCE [[0x00], [0x8F], [0x03]] @ []) = None"
    using t1 len3 n3 by blast
  then have c: "bcrypto_rsa_pubkey_import
       [0x30, 0x09, 0x02, 0x01, 0x00, 0x02, 0x01, 0x8F, 0x02, 0x01, 0x03] = None"
    unfolding der_three by simp
  have "bcrypto_rsa_pubkey_import (der_SEQUENCE [[0x8F], [0x03]] @ [0xDE, 0xAD])
       = Some (bcrypto_rsa_key_init\<lparr>nd := Some (skip_zero_bytes [0x8F]),
           ed := Some (skip_zero_bytes [0x03])\<rparr>)"
    using t2 len2 ne by blast
  then have d: "bcrypto_rsa_pubkey_import [0x30, 0x06, 0x02, 0x01, 0x8F, 0x02, 0x01, 0x03, 0xDE, 0xAD]
       = Some (bcrypto_rsa_key_init\<lparr>nd := Some [0x8F], ed := Some [0x03]\<rparr>)"
    unfolding der_two by simp
  have "bcrypto_rsa_privkey_import
       (der_SEQUENCE [[0x00], [0x0C, 0xA1], [0x11], [0x0A, 0xC1], [0x3D], [0x35], [0x35], [0x31],
          [0x26]] @ [0xDE, 0xAD])
       = Some \<lparr>nd = Some (skip_zero_bytes [0x0C, 0xA1]), ed = Some (skip_zero_bytes [0x11]),
            dd = Some (skip_zero_bytes [0x0A, 0xC1]), pd = Some (skip_zero_bytes [0x3D]),
            qd = Some (skip_zero_bytes [0x35]), dpd = Some (skip_zero_bytes [0x35]),
            dqd = Some (skip_zero_bytes [0x31]), qid = Some (skip_zero_bytes [0x26])\<rparr>"
    using t3 len9 ne by blast
  then have e: "bcrypto_rsa_privkey_import
       [0x30, 0x1D, 0x02, 0x01, 0x00, 0x02, 0x02, 0x0C, 0xA1, 0x02, 0x01, 0x11,
        0x02, 0x02, 0x0A, 0xC1, 0x02, 0x01, 0x3D, 0x02, 0x01, 0x35, 0x02, 0x01, 0x35,
        0x02, 0x01, 0x31, 0x02, 0x01, 0x26, 0xDE, 0xAD]
       = Some key_pqe_out"
    unfolding der_nine by (simp add: key_pqe_out_def)
  have "bcrypto_rsa_pubkey_import_with d2i_RSAPublicKey (?plain @ [0xDE, 0xAD])
       = bcrypto_rsa_pubkey_import_with d2i_RSAPublicKey ?plain"
    using t2 dec dec' by blast
  then have f: "bcrypto_rsa_pubkey_import_with d2i_RSAPublicKey
       [0x30, 0x06, 0x02, 0x01, 0x0F, 0x02, 0x01, 0x04, 0xDE, 0xAD]
       = bcrypto_rsa_pubkey_import_with d2i_RSAPublicKey ?plain"
    by simp
  have "bcrypto_rsa_pubkey_import_with d2i_RSAPublicKey ?plain = bcrypto_rsa_pub2key (Some ?r)"
    using t2 dec by blast
  then have g: "bcrypto_rsa_pubkey_import_with d2i_RSAPublicKey ?plain
       = Some (bcrypto_rsa_key_init\<lparr>nd := Some [0x0F], ed := Some [0x04]\<rparr>)"
    by (simp add: bcrypto_rsa_pub2key_def RSA_new_def BN_bn2bin_def be_bytes.simps)
  have dec'': "d2i_RSAPublicKey [0x30, 0x06, 0x02, 0x01, 0x0F, 0x02, 0x01, 0x04, 0xDE, 0xAD]
       = Some (?r, [0xDE, 0xAD])"
    using dec' by simp
  from trunc a a' b c d e dec dec'' f g show ?thesis
    by - (intro conjI; assumption)
qed

text \<open>
  Claim C9. Import checks nothing beyond the decoding: whenever the decoder returns a
  key, private-key (public-key) import returns \<^verbatim>\<open>bcrypto_rsa_priv2key\<close>
  (\<^verbatim>\<open>bcrypto_rsa_pub2key\<close>) of it, which is a key, whether or not that key satisfies
  the invariants; import returns no key only when the decoder fails. Export, unlike
  import, returns nothing for a key that fails \<^verbatim>\<open>bcrypto_rsa_sane_privkey\<close>
  (\<^verbatim>\<open>bcrypto_rsa_sane_pubkey\<close>).
\<close>

theorem import_applies_no_check:
  "(d2i_RSAPrivateKey raw = Some (r, rest) \<longrightarrow>
      bcrypto_rsa_privkey_import raw = bcrypto_rsa_priv2key (Some r)
      \<and> bcrypto_rsa_privkey_import raw \<noteq> None)
   \<and> (d2i_RSAPublicKey raw = Some (r, rest) \<longrightarrow>
      bcrypto_rsa_pubkey_import raw = bcrypto_rsa_pub2key (Some r)
      \<and> bcrypto_rsa_pubkey_import raw \<noteq> None)
   \<and> (bcrypto_rsa_privkey_import raw = None \<longleftrightarrow> d2i_RSAPrivateKey raw = None)
   \<and> (bcrypto_rsa_pubkey_import raw = None \<longleftrightarrow> d2i_RSAPublicKey raw = None)
   \<and> (\<not> bcrypto_rsa_sane_privkey key \<longrightarrow> bcrypto_rsa_privkey_export key = None)
   \<and> (\<not> bcrypto_rsa_sane_pubkey key \<longrightarrow> bcrypto_rsa_pubkey_export key = None)"
proof -
  have priv: "bcrypto_rsa_privkey_import raw = bcrypto_rsa_priv2key (Some r)
      \<and> bcrypto_rsa_privkey_import raw \<noteq> None"
    if "d2i_RSAPrivateKey raw = Some (r, rest)"
    using that d2i_RSAPrivateKey_full [OF that]
    by (simp add: bcrypto_rsa_privkey_import_def)
  have pub: "bcrypto_rsa_pubkey_import raw = bcrypto_rsa_pub2key (Some r)
      \<and> bcrypto_rsa_pubkey_import raw \<noteq> None"
    if "d2i_RSAPublicKey raw = Some (r, rest)"
    using that d2i_RSAPublicKey_full [OF that]
    by (simp add: bcrypto_rsa_pubkey_import_def)
  have export: "bcrypto_rsa_privkey_export key = None" if "\<not> bcrypto_rsa_sane_privkey key"
    using that by (simp add: bcrypto_rsa_privkey_export_def)
  have export': "bcrypto_rsa_pubkey_export key = None" if "\<not> bcrypto_rsa_sane_pubkey key"
    using that by (simp add: bcrypto_rsa_pubkey_export_def)
  from priv pub export export' show ?thesis
    by (simp only: privkey_import_None_iff pubkey_import_None_iff) blast
qed

theorem import_applies_no_check_witness:
  "bcrypto_rsa_pubkey_import [0x30, 0x06, 0x02, 0x01, 0x0F, 0x02, 0x01, 0x04]
     = Some (bcrypto_rsa_key_init\<lparr>nd := Some [0x0F], ed := Some [0x04]\<rparr>)
   \<and> \<not> bcrypto_rsa_sane_pubkey
         (Some (bcrypto_rsa_key_init\<lparr>nd := Some [0x0F], ed := Some [0x04]\<rparr>))
   \<and> bcrypto_rsa_pubkey_export
         (Some (bcrypto_rsa_key_init\<lparr>nd := Some [0x0F], ed := Some [0x04]\<rparr>)) = None
   \<and> bcrypto_rsa_privkey_import
       [0x30, 0x1D, 0x02, 0x01, 0x00, 0x02, 0x02, 0x0C, 0xA1, 0x02, 0x01, 0x11,
        0x02, 0x02, 0x0A, 0xC1, 0x02, 0x01, 0x3D, 0x02, 0x01, 0x35, 0x02, 0x01, 0x35,
        0x02, 0x01, 0x31, 0x02, 0x01, 0x26]
     = Some key_pqe_out
   \<and> \<not> bcrypto_rsa_sane_privkey (Some key_pqe_out)
   \<and> bcrypto_rsa_privkey_export (Some key_pqe_out) = None
   \<and> bcrypto_rsa_privkey_import [0x30, 0x00] = None
   \<and> d2i_RSAPrivateKey [0x30, 0x00] = None
   \<and> d2i_RSAPublicKey [0x30, 0x06, 0x02, 0x01, 0x0F, 0x02, 0x01, 0x04]
     = Some (RSA_new\<lparr>rsa_n := Some 15, rsa_e := Some 4\<rparr>, [])
   \<and> bcrypto_rsa_pubkey_import [0x30, 0x06, 0x02, 0x01, 0x0F, 0x02, 0x01, 0x04]
     = bcrypto_rsa_pub2key (Some (RSA_new\<lparr>rsa_n := Some 15, rsa_e := Some 4\<rparr>))"
proof -
  have small: "\<not> bcrypto_rsa_sane_pubkey
         (Some (bcrypto_rsa_key_init\<lparr>nd := Some [0x0F], ed := Some [0x04]\<rparr>))"
    by (simp add: sane_pubkey_Some bcrypto_rsa_key_init_def count_bits_Some compute_floorlog)
  have small': "\<not> bcrypto_rsa_sane_privkey (Some key_pqe_out)"
    by (simp add: sane_privkey_Some sane_pubkey_Some key_pqe_out_def
        count_bits_Some compute_floorlog)
  have dec: "d2i_RSAPublicKey [0x30, 0x06, 0x02, 0x01, 0x0F, 0x02, 0x01, 0x04]
      = Some (RSA_new\<lparr>rsa_n := Some 15, rsa_e := Some 4\<rparr>, [])"
    by (simp add: d2i_RSAPublicKey_def asn1_get_object_def asn1_get_length_def
        d2i_INTEGERs_step be_value_def)
  have empty: "d2i_RSAPrivateKey [0x30, 0x00] = None"
    by (simp add: d2i_RSAPrivateKey_def asn1_get_object_def asn1_get_length_def
        d2i_INTEGERs_step)
  note t1 = import_applies_no_check [of "[0x30, 0x06, 0x02, 0x01, 0x0F, 0x02, 0x01, 0x04]"
      "RSA_new\<lparr>rsa_n := Some 15, rsa_e := Some 4\<rparr>" "[]"
      "Some (bcrypto_rsa_key_init\<lparr>nd := Some [0x0F], ed := Some [0x04]\<rparr>)"]
  note t2 = import_applies_no_check [of "[0x30, 0x00]" RSA_new "[]" "Some key_pqe_out"]
  have a: "bcrypto_rsa_pubkey_import [0x30, 0x06, 0x02, 0x01, 0x0F, 0x02, 0x01, 0x04]
      = bcrypto_rsa_pub2key (Some (RSA_new\<lparr>rsa_n := Some 15, rsa_e := Some 4\<rparr>))"
    using t1 dec by blast
  have b: "bcrypto_rsa_pubkey_export
      (Some (bcrypto_rsa_key_init\<lparr>nd := Some [0x0F], ed := Some [0x04]\<rparr>)) = None"
    using t1 small by blast
  have c: "bcrypto_rsa_privkey_export (Some key_pqe_out) = None"
    using t2 small' by blast
  have d: "bcrypto_rsa_privkey_import [0x30, 0x00] = None"
    using t2 empty by blast
  from a b c d small small' empty dec pub_plain priv_plain show ?thesis
    by - (intro conjI; assumption)
qed

end
